(* ===== verification/Prelude.thy ===== *)
theory Prelude
  imports Main "HOL-Library.Word" "HOL-Library.Signed_Division"
begin

text \<open>
  Shared vocabulary of the development: Go's fixed width integers as words, the outcome of a Go
  call (a value, an error value, or a run-time panic), the big-endian byte order the repository
  uses everywhere (\<^verbatim>\<open>Encoding = binary.BigEndian\<close>), Go strings as bytes, and the two units of time
  the protocol exchanges (\<^verbatim>\<open>time.Duration\<close> and \<^verbatim>\<open>time.Time\<close>).
\<close>

unbundle bit_operations_syntax

section \<open>Integers, bytes and outcomes\<close>

type_synonym byte = "8 word"
type_synonym bytes = "8 word list"
type_synonym int8 = "8 word"
type_synonym int16 = "16 word"
type_synonym int32 = "32 word"
type_synonym int64 = "64 word"
type_synonym uint64 = "64 word"

text \<open>
  A signed Go integer is the word with the same bits; \<^const>\<open>sint\<close> reads its value, and a
  conversion such as \<^verbatim>\<open>int32(x)\<close> is \<^const>\<open>word_of_int\<close> of the value, so it wraps as Go does.
\<close>

datatype ('e, 'a) outcome = Ok (the_ok: 'a) | Err 'e | Panic

text \<open>A call followed by the code behind its \<^verbatim>\<open>if err != nil { return err }\<close>.\<close>

fun out_bind :: "('e, 'a) outcome \<Rightarrow> ('a \<Rightarrow> ('e, 'b) outcome) \<Rightarrow> ('e, 'b) outcome" where
  "out_bind (Ok x) f = f x"
| "out_bind (Err e) f = Err e"
| "out_bind Panic f = Panic"

text \<open>The same where the error is wrapped by \<^verbatim>\<open>fmt.Errorf("msg: %s", err)\<close>.\<close>

fun wrap_err :: "string \<Rightarrow> (string, 'a) outcome \<Rightarrow> (string, 'a) outcome" where
  "wrap_err msg (Err e) = Err (msg @ '': '' @ e)"
| "wrap_err msg m = m"

lemma out_bind_eq_Ok: "out_bind m f = Ok y \<longleftrightarrow> (\<exists>x. m = Ok x \<and> f x = Ok y)"
  by (cases m) simp_all

lemma wrap_err_eq_Ok [simp]: "wrap_err msg m = Ok x \<longleftrightarrow> m = Ok x"
  by (cases m) simp_all

fun bind_outcome :: "('e, 'a) outcome \<Rightarrow> ('a \<Rightarrow> ('e, 'b) outcome) \<Rightarrow> ('e, 'b) outcome" where
  "bind_outcome (Ok x) f = f x"
| "bind_outcome (Err e) f = Err e"
| "bind_outcome Panic f = Panic"

named_theorems wire_intros \<open>composition rules of the codec contract\<close>
named_theorems width_simps \<open>lengths of encoded fields\<close>

lemma bind_outcome_Ok_iff [simp]:
  "bind_outcome m f = Ok y \<longleftrightarrow> (\<exists>x. m = Ok x \<and> f x = Ok y)"
  by (cases m) auto

section \<open>Lists\<close>

text \<open>\<open>overwrite xs i ys\<close> is Go's \<^verbatim>\<open>copy(xs[i:], ys)\<close>: it writes as much of \<open>ys\<close> as fits.\<close>

definition overwrite :: "'a list \<Rightarrow> nat \<Rightarrow> 'a list \<Rightarrow> 'a list" where
  "overwrite xs i ys = take i xs @ take (length xs - i) ys @ drop (i + length ys) xs"

lemma length_overwrite [simp]: "i \<le> length xs \<Longrightarrow> length (overwrite xs i ys) = length xs"
  by (simp add: overwrite_def)

lemma overwrite_append:
  assumes "length zs = length ys"
  shows "overwrite (xs @ zs @ ws) (length xs) ys = xs @ ys @ ws"
  using assms by (simp add: overwrite_def)

lemma overwrite_append_exact:
  "i = length xs \<Longrightarrow> length zs = length ys \<Longrightarrow> overwrite (xs @ zs @ ws) i ys = xs @ ys @ ws"
  by (simp add: overwrite_append)

text \<open>\<open>slice xs a b\<close> is Go's \<^verbatim>\<open>xs[a:b]\<close> on a slice whose capacity is its length; out of range it
  is \<^const>\<open>None\<close>, where Go panics.\<close>

definition slice :: "'a list \<Rightarrow> nat \<Rightarrow> nat \<Rightarrow> 'a list option" where
  "slice xs a b = (if a \<le> b \<and> b \<le> length xs then Some (take (b - a) (drop a xs)) else None)"

lemma slice_append [simp]:
  "slice (xs @ ys @ zs) (length xs) (length xs + length ys) = Some ys"
  by (simp add: slice_def)

lemma slice_append_exact:
  "a = length xs \<Longrightarrow> b = a + length ys \<Longrightarrow> slice (xs @ ys @ zs) a b = Some ys"
  by simp

lemma length_slice: "slice xs a b = Some ys \<Longrightarrow> length ys = b - a"
  by (auto simp: slice_def split: if_splits)

lemma length_concat_ge:
  "\<forall>x\<in>set xs. f x \<noteq> [] \<Longrightarrow> length xs \<le> length (concat (map f xs))"
proof (induction xs)
  case (Cons x xs)
  then have "Suc 0 \<le> length (f x)" by (cases "f x") auto
  with Cons show ?case by (auto intro: add_mono)
qed simp

section \<open>Big-endian integers\<close>

fun be_enc :: "nat \<Rightarrow> nat \<Rightarrow> bytes" where
  "be_enc 0 n = []"
| "be_enc (Suc k) n = be_enc k (n div 256) @ [word_of_nat n]"

definition be_dec :: "bytes \<Rightarrow> nat" where
  "be_dec bs = foldl (\<lambda>a b. a * 256 + unat b) 0 bs"

lemma length_be_enc [simp, width_simps]: "length (be_enc k n) = k"
  by (induction k arbitrary: n) auto

lemma be_enc_eq_Nil [simp]: "be_enc k n = [] \<longleftrightarrow> k = 0"
  by (cases k) auto

lemma be_dec_Nil [simp]: "be_dec [] = 0"
  by (simp add: be_dec_def)

lemma be_dec_snoc [simp]: "be_dec (bs @ [b]) = be_dec bs * 256 + unat b"
  by (simp add: be_dec_def)

lemma be_dec_enc: "be_dec (be_enc k n) = n mod 256 ^ k"
proof (induction k arbitrary: n)
  case (Suc k)
  have "unat (word_of_nat n :: byte) = n mod 256"
    by (simp add: unat_of_nat)
  then show ?case
    by (simp add: Suc.IH mod_mult2_eq)
qed simp

lemma be_dec_bound: "be_dec bs < 256 ^ length bs"
proof (induction bs rule: rev_induct)
  case (snoc b bs)
  have "unat b < 256" using unsigned_less [of b, where ?'a = nat] by simp
  with snoc show ?case by simp
qed simp

lemma be_enc_dec: "be_enc (length bs) (be_dec bs) = bs"
proof (induction bs rule: rev_induct)
  case (snoc b bs)
  have "unat b < 256" using unsigned_less [of b, where ?'a = nat] by simp
  moreover have "(word_of_nat (be_dec bs * 256 + unat b) :: byte) = b"
  proof -
    have "(word_of_nat (be_dec bs * 256 + unat b) :: byte)
        = word_of_nat (be_dec bs) * word_of_nat 256 + word_of_nat (unat b)" by simp
    also have "(word_of_nat 256 :: byte) = 0" by simp
    finally show ?thesis by simp
  qed
  ultimately show ?case using snoc by simp
qed simp

definition PutUint16 :: "int16 \<Rightarrow> bytes" where "PutUint16 w = be_enc 2 (unat w)"
definition PutUint32 :: "int32 \<Rightarrow> bytes" where "PutUint32 w = be_enc 4 (unat w)"
definition PutUint64 :: "int64 \<Rightarrow> bytes" where "PutUint64 w = be_enc 8 (unat w)"

text \<open>The readers look at a prefix; the callers below check that it is long enough.\<close>

definition Uint16 :: "bytes \<Rightarrow> int16" where "Uint16 bs = word_of_nat (be_dec (take 2 bs))"
definition Uint32 :: "bytes \<Rightarrow> int32" where "Uint32 bs = word_of_nat (be_dec (take 4 bs))"
definition Uint64 :: "bytes \<Rightarrow> int64" where "Uint64 bs = word_of_nat (be_dec (take 8 bs))"

lemma length_PutUint [simp, width_simps]:
  "length (PutUint16 a) = 2" "length (PutUint32 b) = 4" "length (PutUint64 c) = 8"
  by (simp_all add: PutUint16_def PutUint32_def PutUint64_def)

lemma PutUint_neq_Nil [simp]:
  "PutUint16 a \<noteq> []" "PutUint32 b \<noteq> []" "PutUint64 c \<noteq> []"
  by (simp_all add: PutUint16_def PutUint32_def PutUint64_def)

lemma Uint16_Put [simp]: "Uint16 (PutUint16 w @ rest) = w"
  using unsigned_less [of w, where ?'a = nat] by (simp add: Uint16_def PutUint16_def be_dec_enc)

lemma Uint32_Put [simp]: "Uint32 (PutUint32 w @ rest) = w"
  using unsigned_less [of w, where ?'a = nat] by (simp add: Uint32_def PutUint32_def be_dec_enc)

lemma Uint64_Put [simp]: "Uint64 (PutUint64 w @ rest) = w"
  using unsigned_less [of w, where ?'a = nat] by (simp add: Uint64_def PutUint64_def be_dec_enc)

lemma Uint_Put_exact [simp]:
  "Uint16 (PutUint16 a) = a" "Uint32 (PutUint32 b) = b" "Uint64 (PutUint64 c) = c"
  using Uint16_Put [of a "[]"] Uint32_Put [of b "[]"] Uint64_Put [of c "[]"] by simp_all

lemma PutUint64_Uint64: "length bs = 8 \<Longrightarrow> PutUint64 (Uint64 bs) = bs"
  using be_dec_bound [of bs] be_enc_dec [of bs]
  by (simp add: Uint64_def PutUint64_def unat_of_nat)

lemma PutUint32_Uint32: "length bs = 4 \<Longrightarrow> PutUint32 (Uint32 bs) = bs"
  using be_dec_bound [of bs] be_enc_dec [of bs]
  by (simp add: Uint32_def PutUint32_def unat_of_nat)

section \<open>Strings as bytes\<close>

definition byte_of_char :: "char \<Rightarrow> byte" where "byte_of_char c = word_of_nat (of_char c)"
definition char_of_byte :: "byte \<Rightarrow> char" where "char_of_byte b = char_of (unat b)"

definition bytes_of_string :: "string \<Rightarrow> bytes" where
  "bytes_of_string s = map byte_of_char s"
definition string_of_bytes :: "bytes \<Rightarrow> string" where
  "string_of_bytes bs = map char_of_byte bs"

lemma char_of_byte_of_char [simp]: "char_of_byte (byte_of_char c) = c"
proof -
  have e: "of_char c = (of_char c mod 256 :: nat)"
    using of_char_of [of "of_char c :: nat"] by (simp only: char_of_char)
  have "of_char c < (256 :: nat)" by (subst e) simp
  then have "unat (word_of_nat (of_char c) :: byte) = of_char c"
    by (simp add: unat_of_nat)
  then show ?thesis by (simp add: char_of_byte_def byte_of_char_def)
qed

lemma of_char_less: "of_char c < (256 :: nat)"
proof -
  have "of_char c = (of_char c mod 256 :: nat)" using of_char_of [of "of_char c :: nat"] by (simp only: char_of_char)
  then show ?thesis by (metis mod_less_divisor zero_less_numeral)
qed

lemma of_char_byte: "unat (byte_of_char c) = of_char c"
  using of_char_less [of c] by (simp add: byte_of_char_def unat_of_nat)

lemma Uint16_small: "Uint16 (0 # b # bs) = word_of_nat (unat b)"
proof -
  have "take 2 (0 # b # bs) = [0] @ [b]" by simp
  then show ?thesis unfolding Uint16_def by (simp only: be_dec_snoc) (simp add: be_dec_def)
qed

lemma string_of_bytes_of_string [simp]: "string_of_bytes (bytes_of_string s) = s"
  by (simp add: string_of_bytes_def bytes_of_string_def o_def)

lemma length_bytes_of_string [simp, width_simps]: "length (bytes_of_string s) = length s"
  by (simp add: bytes_of_string_def)

lemma bytes_of_string_eq_Nil [simp]: "bytes_of_string s = [] \<longleftrightarrow> s = []"
  by (simp add: bytes_of_string_def)

section \<open>Durations and times\<close>

text \<open>
  A \<^verbatim>\<open>time.Duration\<close> is an \<^typ>\<open>int64\<close> of nanoseconds.  The protocol sends whole milliseconds:
  \<^verbatim>\<open>int32(d / time.Millisecond)\<close> one way and \<^verbatim>\<open>time.Duration(t) * time.Millisecond\<close> the other.
\<close>

type_synonym duration = int64

definition millis_of_duration :: "int64 \<Rightarrow> int32" where
  "millis_of_duration d = word_of_int (sint d sdiv 1000000)"

definition duration_of_millis :: "int32 \<Rightarrow> int64" where
  "duration_of_millis t = word_of_int (sint t) * 1000000"

definition whole_millis :: "int64 \<Rightarrow> bool" where
  "whole_millis d \<longleftrightarrow> duration_of_millis (millis_of_duration d) = d"

lemma sint_word_of_int_64:
  assumes "- (2 ^ 63) \<le> k" and "k < 2 ^ 63"
  shows "sint (word_of_int k :: int64) = k"
  using assms by (simp add: sint_sbintrunc' signed_take_bit_int_eq_self)

lemma sint_word_of_int_32:
  assumes "- (2 ^ 31) \<le> k" and "k < 2 ^ 31"
  shows "sint (word_of_int k :: int32) = k"
  using assms by (simp add: sint_sbintrunc' signed_take_bit_int_eq_self)

lemma sint_duration_of_millis: "sint (duration_of_millis t) = sint t * 1000000"
proof -
  have b: "- (2 ^ 31) \<le> sint t" "sint t < 2 ^ 31"
    using sint_range_size [of t] by (simp_all add: word_size)
  have "duration_of_millis t = word_of_int (sint t * 1000000)"
    by (simp add: duration_of_millis_def)
  moreover have "sint (word_of_int (sint t * 1000000) :: int64) = sint t * 1000000"
    by (rule sint_word_of_int_64) (use b in simp_all)
  ultimately show ?thesis by simp
qed

lemma millis_of_duration_of_millis [simp]: "millis_of_duration (duration_of_millis t) = t"
  by (simp add: millis_of_duration_def sint_duration_of_millis signed_divide_int_def
      sgn_mult abs_mult sgn_mult_abs)

lemma whole_millis_duration [simp]: "whole_millis (duration_of_millis t)"
  by (simp add: whole_millis_def)

lemma whole_millis_0 [simp]: "whole_millis 0"
proof -
  have "duration_of_millis 0 = 0" by (simp add: duration_of_millis_def)
  then show ?thesis using whole_millis_duration [of 0] by simp
qed

text \<open>
  A \<^verbatim>\<open>time.Time\<close> is the number of nanoseconds since the Unix epoch, an unbounded integer here:
  \<^verbatim>\<open>UnixNano\<close> wraps it to 64 bits.  The zero \<^verbatim>\<open>time.Time\<close> is the first second of year 1.
\<close>

type_synonym go_time = int

definition zero_time :: go_time where "zero_time = - 62135596800 * 1000000000"

definition UnixNano :: "go_time \<Rightarrow> int64" where "UnixNano t = word_of_int t"

definition millis_of_time :: "go_time \<Rightarrow> int64" where
  "millis_of_time t = word_of_int (sint (UnixNano t) sdiv 1000000)"

text \<open>\<^verbatim>\<open>time.Unix(t/1000, (t%1000)*int64(time.Millisecond))\<close>.\<close>

definition time_of_millis :: "int64 \<Rightarrow> go_time" where
  "time_of_millis m = (sint m sdiv 1000) * 1000000000 + (sint m smod 1000) * 1000000"

lemma time_of_millis_eq: "time_of_millis m = sint m * 1000000"
proof -
  have "sint m = (sint m sdiv 1000) * 1000 + sint m smod 1000"
    by (metis sdiv_mult_smod_eq mult.commute)
  then have "sint m * 1000000 = ((sint m sdiv 1000) * 1000 + sint m smod 1000) * 1000000" by simp
  then show ?thesis by (simp add: time_of_millis_def algebra_simps)
qed

definition whole_time :: "go_time \<Rightarrow> bool" where
  "whole_time t \<longleftrightarrow> time_of_millis (millis_of_time t) = t"

lemma whole_time_millis:
  assumes "- (2 ^ 63) \<le> k * 1000000" and "k * 1000000 < 2 ^ 63"
  shows "whole_time (k * 1000000)"
proof -
  have "sint (UnixNano (k * 1000000)) = k * 1000000"
    using assms by (simp only: UnixNano_def sint_word_of_int_64)
  then have "millis_of_time (k * 1000000) = word_of_int k"
    by (simp add: millis_of_time_def signed_divide_int_def sgn_mult abs_mult sgn_mult_abs)
  moreover from assms have "sint (word_of_int k :: int64) = k"
    by (intro sint_word_of_int_64) auto
  ultimately show ?thesis by (simp add: whole_time_def time_of_millis_eq)
qed

section \<open>Narrowing\<close>

lemma sint_word_of_nat_16:
  assumes "n \<le> 32767"
  shows "sint (word_of_nat n :: int16) = int n"
proof -
  have "word_of_nat n = (word_of_int (int n) :: int16)" by simp
  moreover have "signed_take_bit 15 (int n) = int n"
    using assms by (intro signed_take_bit_int_eq_self) auto
  ultimately show ?thesis by (simp only: sint_sbintrunc') simp
qed

lemma sint_word_of_nat_32:
  assumes "n \<le> 2147483647"
  shows "sint (word_of_nat n :: int32) = int n"
  using sint_word_of_int_32 [of "int n"] assms by simp

lemma unat_word_of_nat_32: "n \<le> 2147483647 \<Longrightarrow> unat (word_of_nat n :: int32) = n"
  by (simp add: unat_of_nat)

lemma narrow_32_64:
  assumes "k \<le> 2147483647"
  shows "(scast (ucast (word_of_nat k :: int64) :: int32) :: int64) = word_of_nat k"
proof -
  have "(ucast (word_of_nat k :: int64) :: int32) = word_of_nat k"
    using assms by (simp add: word_eq_iff_unsigned [where ?'a = nat] unsigned_ucast_eq unat_of_nat take_bit_eq_mod)
  with sint_word_of_nat_32 [OF assms] have "sint (ucast (word_of_nat k :: int64) :: int32) = int k"
    by simp
  then have "(scast (ucast (word_of_nat k :: int64) :: int32) :: int64) = word_of_int (int k)"
    by (simp only: scast_eq)
  then show ?thesis by simp
qed

end
