(* ===== verification/Wire.thy ===== *)
theory Wire
  imports Prelude
begin

text \<open>
  The packet encoders and the packet decoder of \<^verbatim>\<open>src/protocol/encoder.go\<close> and
  \<^verbatim>\<open>src/protocol/decoder.go\<close>, with the two push fields of \<^verbatim>\<open>size_field.go\<close> and \<^verbatim>\<open>crc_field.go\<close>.

  An \<^verbatim>\<open>Encode(e PacketEncoder)\<close> method of the repository never looks at the encoder it is given: it
  performs a sequence of \<^verbatim>\<open>Put...\<close>, \<^verbatim>\<open>Push\<close> and \<^verbatim>\<open>Pop\<close> calls and returns at the first error.  It is
  modelled as the list of its calls, and the two implementations of the interface, \<^verbatim>\<open>LenEncoder\<close>
  and \<^verbatim>\<open>ByteEncoder\<close>, as interpreters of such a list.  A call whose error result the source drops
  is wrapped in \<open>Unchecked\<close>.
\<close>

unbundle bit_operations_syntax

section \<open>Errors and the CRC-32 of the standard library\<close>

datatype proto_error =
    ErrInsufficientData
  | ErrInvalidStringLength
  | ErrInvalidArrayLength
  | ErrInvalidByteSliceLength
  | ErrLengthFieldInvalid
  | ErrCrcDidntMatch

text \<open>\<^verbatim>\<open>crc32.ChecksumIEEE\<close>, bit by bit with the reversed polynomial.\<close>

definition crc_bit :: "int32 \<Rightarrow> int32" where
  "crc_bit c = (if odd c then drop_bit 1 c XOR 0xEDB88320 else drop_bit 1 c)"

definition crc_byte :: "int32 \<Rightarrow> byte \<Rightarrow> int32" where
  "crc_byte c b = (crc_bit ^^ 8) (c XOR ucast b)"

definition ChecksumIEEE :: "bytes \<Rightarrow> int32" where
  "ChecksumIEEE bs = NOT (foldl crc_byte 0xFFFFFFFF bs)"

section \<open>Push fields\<close>

datatype push_field = SizeField | CRCField

definition ReserveSize :: "push_field \<Rightarrow> nat" where
  "ReserveSize f = (case f of SizeField \<Rightarrow> 4 | CRCField \<Rightarrow> 4)"

text \<open>
  \<open>Fill f start cur buf\<close> and \<open>Check f start cur buf\<close> take the offset saved by \<^verbatim>\<open>SaveOffset\<close> as an
  argument.  \<^const>\<open>None\<close> and \<^const>\<open>Panic\<close> are the out-of-range slices.
\<close>

definition SizeField_Fill :: "nat \<Rightarrow> nat \<Rightarrow> bytes \<Rightarrow> bytes option" where
  "SizeField_Fill start cur buf =
     (if start + 4 \<le> length buf
      then Some (overwrite buf start (PutUint32 (word_of_int (int cur - int start - 4))))
      else None)"

definition CRCField_Fill :: "nat \<Rightarrow> nat \<Rightarrow> bytes \<Rightarrow> bytes option" where
  "CRCField_Fill start cur buf =
     (case slice buf (start + 4) cur of
        None \<Rightarrow> None
      | Some xs \<Rightarrow> Some (overwrite buf start (PutUint32 (ChecksumIEEE xs))))"

definition Fill :: "push_field \<Rightarrow> nat \<Rightarrow> nat \<Rightarrow> bytes \<Rightarrow> bytes option" where
  "Fill f = (case f of SizeField \<Rightarrow> SizeField_Fill | CRCField \<Rightarrow> CRCField_Fill)"

definition SizeField_Check :: "nat \<Rightarrow> nat \<Rightarrow> bytes \<Rightarrow> (proto_error, unit) outcome" where
  "SizeField_Check start cur buf =
     (if length buf < start + 4 then Panic
      else if word_of_int (int cur - int start - 4) \<noteq> Uint32 (drop start buf)
      then Err ErrLengthFieldInvalid
      else Ok ())"

definition CRCField_Check :: "nat \<Rightarrow> nat \<Rightarrow> bytes \<Rightarrow> (proto_error, unit) outcome" where
  "CRCField_Check start cur buf =
     (case slice buf (start + 4) cur of
        None \<Rightarrow> Panic
      | Some xs \<Rightarrow>
          if ChecksumIEEE xs \<noteq> Uint32 (drop start buf) then Err ErrCrcDidntMatch else Ok ())"

definition Check :: "push_field \<Rightarrow> nat \<Rightarrow> nat \<Rightarrow> bytes \<Rightarrow> (proto_error, unit) outcome" where
  "Check f = (case f of SizeField \<Rightarrow> SizeField_Check | CRCField \<Rightarrow> CRCField_Check)"

lemmas field_defs = Fill_def SizeField_Fill_def CRCField_Fill_def Check_def SizeField_Check_def CRCField_Check_def

section \<open>Encoder calls\<close>

datatype put =
    PutBool bool
  | PutInt8 int8
  | PutInt16 int16
  | PutInt32 int32
  | PutInt64 int64
  | PutArrayLength nat
  | PutRawBytes bytes
  | PutBytes "bytes option"
  | PutString string
  | PutNullableString "string option"
  | PutStringArray "string list"
  | PutInt32Array "int32 list"
  | PutInt64Array "int64 list"
  | Push push_field
  | Pop
  | Unchecked put

abbreviation MaxInt32 :: nat where "MaxInt32 \<equiv> 2147483647"
abbreviation MaxInt16 :: nat where "MaxInt16 \<equiv> 32767"

subsection \<open>LenEncoder\<close>

text \<open>Each method returns the error, if any, and the new \<^verbatim>\<open>Length\<close>.\<close>

definition len_array_length :: "nat \<Rightarrow> nat \<Rightarrow> proto_error option \<times> nat" where
  "len_array_length k n =
     (if k > MaxInt32 then (Some ErrInvalidArrayLength, n) else (None, n + 4))"

definition len_raw_bytes :: "bytes \<Rightarrow> nat \<Rightarrow> proto_error option \<times> nat" where
  "len_raw_bytes bs n =
     (if length bs > MaxInt32 then (Some ErrInvalidByteSliceLength, n) else (None, n + length bs))"

definition len_string :: "string \<Rightarrow> nat \<Rightarrow> proto_error option \<times> nat" where
  "len_string s n =
     (if length s > MaxInt16 then (Some ErrInvalidStringLength, n + 2)
      else (None, n + 2 + length s))"

fun len_strings :: "string list \<Rightarrow> nat \<Rightarrow> proto_error option \<times> nat" where
  "len_strings [] n = (None, n)"
| "len_strings (s # ss) n =
     (case len_string s n of (Some e, n') \<Rightarrow> (Some e, n') | (None, n') \<Rightarrow> len_strings ss n')"

fun len_put :: "put \<Rightarrow> nat \<Rightarrow> proto_error option \<times> nat" where
  "len_put (PutBool _) n = (None, n + 1)"
| "len_put (PutInt8 _) n = (None, n + 1)"
| "len_put (PutInt16 _) n = (None, n + 2)"
| "len_put (PutInt32 _) n = (None, n + 4)"
| "len_put (PutInt64 _) n = (None, n + 8)"
| "len_put (PutArrayLength k) n = len_array_length k n"
| "len_put (PutBytes None) n = (None, n + 4)"
| "len_put (PutBytes (Some bs)) n = len_raw_bytes bs (n + 4)"
| "len_put (PutRawBytes bs) n = len_raw_bytes bs n"
| "len_put (PutString s) n = len_string s n"
| "len_put (PutNullableString None) n = (None, n + 2)"
| "len_put (PutNullableString (Some s)) n = len_string s n"
| "len_put (PutStringArray ss) n =
     (case len_array_length (length ss) n of
        (Some e, n') \<Rightarrow> (Some e, n') | (None, n') \<Rightarrow> len_strings ss n')"
| "len_put (PutInt32Array xs) n =
     (case len_array_length (length xs) n of
        (Some e, n') \<Rightarrow> (Some e, n') | (None, n') \<Rightarrow> (None, n' + 4 * length xs))"
| "len_put (PutInt64Array xs) n =
     (case len_array_length (length xs) n of
        (Some e, n') \<Rightarrow> (Some e, n') | (None, n') \<Rightarrow> (None, n' + 8 * length xs))"
| "len_put (Push f) n = (None, n + ReserveSize f)"
| "len_put Pop n = (None, n)"
| "len_put (Unchecked p) n = (None, snd (len_put p n))"

fun len_run :: "put list \<Rightarrow> nat \<Rightarrow> (proto_error, nat) outcome" where
  "len_run [] n = Ok n"
| "len_run (p # ps) n =
     (case len_put p n of (Some e, _) \<Rightarrow> Err e | (None, n') \<Rightarrow> len_run ps n')"

subsection \<open>ByteEncoder\<close>

record byte_encoder =
  enc_b :: bytes
  enc_off :: nat
  enc_stack :: "(push_field \<times> nat) list"

definition NewByteEncoder :: "bytes \<Rightarrow> byte_encoder" where
  "NewByteEncoder b = \<lparr>enc_b = b, enc_off = 0, enc_stack = []\<rparr>"

text \<open>No method of \<^verbatim>\<open>ByteEncoder\<close> returns an error; \<^const>\<open>None\<close> is an index out of range.\<close>

definition byte_write :: "bytes \<Rightarrow> byte_encoder \<Rightarrow> byte_encoder option" where
  "byte_write bs e =
     (if enc_off e + length bs \<le> length (enc_b e)
      then Some (e\<lparr>enc_b := overwrite (enc_b e) (enc_off e) bs, enc_off := enc_off e + length bs\<rparr>)
      else None)"

definition byte_copy :: "bytes \<Rightarrow> byte_encoder \<Rightarrow> byte_encoder option" where
  "byte_copy bs e =
     (if enc_off e \<le> length (enc_b e)
      then Some (e\<lparr>enc_b := overwrite (enc_b e) (enc_off e) bs, enc_off := enc_off e + length bs\<rparr>)
      else None)"

fun run_opt :: "('a \<Rightarrow> 's \<Rightarrow> 's option) \<Rightarrow> 'a list \<Rightarrow> 's \<Rightarrow> 's option" where
  "run_opt f [] s = Some s"
| "run_opt f (x # xs) s = Option.bind (f x s) (run_opt f xs)"

definition byte_string :: "string \<Rightarrow> byte_encoder \<Rightarrow> byte_encoder option" where
  "byte_string s e =
     Option.bind (byte_write (PutUint16 (word_of_nat (length s))) e) (byte_copy (bytes_of_string s))"

fun byte_put :: "put \<Rightarrow> byte_encoder \<Rightarrow> byte_encoder option" where
  "byte_put (PutBool v) e =
     (if v then byte_write [1] e else Some (e\<lparr>enc_off := enc_off e + 1\<rparr>))"
| "byte_put (PutInt8 w) e = byte_write [w] e"
| "byte_put (PutInt16 w) e = byte_write (PutUint16 w) e"
| "byte_put (PutInt32 w) e = byte_write (PutUint32 w) e"
| "byte_put (PutInt64 w) e = byte_write (PutUint64 w) e"
| "byte_put (PutArrayLength k) e = byte_write (PutUint32 (word_of_nat k)) e"
| "byte_put (PutRawBytes bs) e = byte_copy bs e"
| "byte_put (PutBytes None) e = byte_write (PutUint32 (-1)) e"
| "byte_put (PutBytes (Some bs)) e =
     Option.bind (byte_write (PutUint32 (word_of_nat (length bs))) e) (byte_copy bs)"
| "byte_put (PutString s) e = byte_string s e"
| "byte_put (PutNullableString None) e = byte_write (PutUint16 (-1)) e"
| "byte_put (PutNullableString (Some s)) e = byte_string s e"
| "byte_put (PutStringArray ss) e =
     Option.bind (byte_write (PutUint32 (word_of_nat (length ss))) e) (run_opt byte_string ss)"
| "byte_put (PutInt32Array xs) e =
     Option.bind (byte_write (PutUint32 (word_of_nat (length xs))) e)
       (run_opt (\<lambda>w. byte_write (PutUint32 w)) xs)"
| "byte_put (PutInt64Array xs) e =
     Option.bind (byte_write (PutUint32 (word_of_nat (length xs))) e)
       (run_opt (\<lambda>w. byte_write (PutUint64 w)) xs)"
| "byte_put (Push f) e =
     Some (e\<lparr>enc_off := enc_off e + ReserveSize f, enc_stack := (f, enc_off e) # enc_stack e\<rparr>)"
| "byte_put Pop e =
     (case enc_stack e of
        [] \<Rightarrow> None
      | (f, start) # st \<Rightarrow>
          (case Fill f start (enc_off e) (enc_b e) of
             None \<Rightarrow> None
           | Some b \<Rightarrow> Some (e\<lparr>enc_b := b, enc_stack := st\<rparr>)))"
| "byte_put (Unchecked p) e = byte_put p e"

definition Encode :: "put list \<Rightarrow> (proto_error, bytes) outcome" where
  "Encode ops =
     (case len_run ops 0 of
        Err e \<Rightarrow> Err e
      | Panic \<Rightarrow> Panic
      | Ok n \<Rightarrow>
          (case run_opt byte_put ops (NewByteEncoder (replicate n 0)) of
             None \<Rightarrow> Panic
           | Some e \<Rightarrow> Ok (enc_b e)))"

section \<open>ByteDecoder\<close>

record byte_decoder =
  dec_b :: bytes
  dec_off :: nat
  dec_stack :: "(push_field \<times> nat) list"

definition NewDecoder :: "bytes \<Rightarrow> byte_decoder" where
  "NewDecoder b = \<lparr>dec_b = b, dec_off = 0, dec_stack = []\<rparr>"

text \<open>A decoding method changes the decoder whether it returns a value or an error.\<close>

type_synonym 'a dec = "byte_decoder \<Rightarrow> (proto_error, 'a) outcome \<times> byte_decoder"

definition dret :: "'a \<Rightarrow> 'a dec" where "dret x d = (Ok x, d)"

definition dbind :: "'a dec \<Rightarrow> ('a \<Rightarrow> 'b dec) \<Rightarrow> 'b dec" where
  "dbind m f d =
     (case m d of
        (Ok x, d') \<Rightarrow> f x d'
      | (Err e, d') \<Rightarrow> (Err e, d')
      | (Panic, d') \<Rightarrow> (Panic, d'))"

text \<open>\<open>dignore m x\<close>: the source drops the error of \<open>m\<close> and goes on with the value \<open>x\<close>.\<close>

definition dignore :: "'a dec \<Rightarrow> 'a \<Rightarrow> 'a dec" where
  "dignore m x d = (case m d of (Err e, d') \<Rightarrow> (Ok x, d') | r \<Rightarrow> r)"

text \<open>\<open>dtimes n m\<close>: the loop \<^verbatim>\<open>for i := range xs\<close> over \<open>n\<close> fresh elements.\<close>

fun dtimes :: "nat \<Rightarrow> 'a dec \<Rightarrow> 'a list dec" where
  "dtimes 0 m = dret []"
| "dtimes (Suc n) m = dbind m (\<lambda>x. dbind (dtimes n m) (\<lambda>xs. dret (x # xs)))"

definition remaining :: "byte_decoder \<Rightarrow> int" where
  "remaining d = int (length (dec_b d)) - int (dec_off d)"

definition skip_all :: "byte_decoder \<Rightarrow> byte_decoder" where
  "skip_all d = d\<lparr>dec_off := length (dec_b d)\<rparr>"

definition advance :: "nat \<Rightarrow> byte_decoder \<Rightarrow> byte_decoder" where
  "advance n d = d\<lparr>dec_off := dec_off d + n\<rparr>"

definition dInt8 :: "int8 dec" where
  "dInt8 d =
     (if dec_off d < length (dec_b d) then (Ok (dec_b d ! dec_off d), advance 1 d) else (Panic, d))"

definition dBool :: "bool dec" where
  "dBool = dbind dInt8 (\<lambda>i. dret (i = 1))"

definition dInt16 :: "int16 dec" where
  "dInt16 d =
     (if dec_off d + 2 \<le> length (dec_b d)
      then (Ok (Uint16 (drop (dec_off d) (dec_b d))), advance 2 d) else (Panic, d))"

definition dInt32 :: "int32 dec" where
  "dInt32 d =
     (if remaining d < 4 then (Err ErrInsufficientData, skip_all d)
      else (Ok (Uint32 (drop (dec_off d) (dec_b d))), advance 4 d))"

definition dInt64 :: "int64 dec" where
  "dInt64 d =
     (if remaining d < 8 then (Err ErrInsufficientData, skip_all d)
      else (Ok (Uint64 (drop (dec_off d) (dec_b d))), advance 8 d))"

definition dArrayLength :: "nat dec" where
  "dArrayLength d =
     (if remaining d < 4 then (Err ErrInsufficientData, skip_all d)
      else let tmp = unat (Uint32 (drop (dec_off d) (dec_b d))); d' = advance 4 d in
        if int tmp > remaining d' then (Err ErrInsufficientData, skip_all d')
        else if tmp > 2 * 65535 then (Err ErrInvalidArrayLength, d')
        else (Ok tmp, d'))"

text \<open>\<^verbatim>\<open>d.b[d.off : d.off+n]\<close> followed by \<^verbatim>\<open>d.off += n\<close>.\<close>

definition dTake :: "nat \<Rightarrow> bytes dec" where
  "dTake n d =
     (case slice (dec_b d) (dec_off d) (dec_off d + n) of
        None \<Rightarrow> (Panic, d) | Some xs \<Rightarrow> (Ok xs, advance n d))"

definition dBytes :: "bytes option dec" where
  "dBytes =
     dbind dInt32 (\<lambda>tmp d. let n = sint tmp in
       if n < -1 then (Err ErrInvalidByteSliceLength, d)
       else if n = -1 then (Ok None, d)
       else if n = 0 then (Ok (Some []), d)
       else if n > remaining d then (Err ErrInsufficientData, skip_all d)
       else dbind (dTake (nat n)) (\<lambda>xs. dret (Some xs)) d)"

definition dString :: "string dec" where
  "dString =
     dbind dInt16 (\<lambda>tmp d. let n = sint tmp in
       if n < -1 then (Err ErrInvalidStringLength, d)
       else if n = -1 then (Ok [], d)
       else if n = 0 then (Ok [], d)
       else if n > remaining d then (Err ErrInsufficientData, skip_all d)
       else dbind (dTake (nat n)) (\<lambda>xs. dret (string_of_bytes xs)) d)"

definition dstringLength :: "int dec" where
  "dstringLength =
     dbind dInt16 (\<lambda>l d. let n = sint l in
       if n < -1 then (Err ErrInvalidStringLength, d)
       else if n > remaining d then (Err ErrInsufficientData, skip_all d)
       else (Ok n, d))"

definition dNullableString :: "string option dec" where
  "dNullableString =
     dbind dstringLength (\<lambda>n.
       if n = -1 then dret None
       else dbind (dTake (nat n)) (\<lambda>xs. dret (Some (string_of_bytes xs))))"

text \<open>The element reads of the array loops have no check of their own.\<close>

definition dUint32 :: "int32 dec" where
  "dUint32 d =
     (if dec_off d + 4 \<le> length (dec_b d)
      then (Ok (Uint32 (drop (dec_off d) (dec_b d))), advance 4 d) else (Panic, d))"

definition dUint64 :: "int64 dec" where
  "dUint64 d =
     (if dec_off d + 8 \<le> length (dec_b d)
      then (Ok (Uint64 (drop (dec_off d) (dec_b d))), advance 8 d) else (Panic, d))"

definition dInt32Array :: "int32 list dec" where
  "dInt32Array d =
     (if remaining d < 4 then (Err ErrInsufficientData, skip_all d)
      else let n = unat (Uint32 (drop (dec_off d) (dec_b d))); d' = advance 4 d in
        if remaining d' < 4 * int n then (Err ErrInsufficientData, skip_all d')
        else dtimes n dUint32 d')"

definition dInt64Array :: "int64 list dec" where
  "dInt64Array d =
     (if remaining d < 4 then (Err ErrInsufficientData, skip_all d)
      else let n = unat (Uint32 (drop (dec_off d) (dec_b d))); d' = advance 4 d in
        if remaining d' < 8 * int n then (Err ErrInsufficientData, skip_all d')
        else dtimes n dUint64 d')"

definition dStringArray :: "string list dec" where
  "dStringArray d =
     (if remaining d < 4 then (Err ErrInsufficientData, skip_all d)
      else dtimes (unat (Uint32 (drop (dec_off d) (dec_b d)))) dString (advance 4 d))"

definition dPush :: "push_field \<Rightarrow> unit dec" where
  "dPush f d =
     (if remaining d < int (ReserveSize f) then (Err ErrInsufficientData, skip_all d)
      else (Ok (), (advance (ReserveSize f) d)\<lparr>dec_stack := (f, dec_off d) # dec_stack d\<rparr>))"

definition dPop :: "unit dec" where
  "dPop d =
     (case dec_stack d of
        [] \<Rightarrow> (Panic, d)
      | (f, start) # st \<Rightarrow> (Check f start (dec_off d) (dec_b d), d\<lparr>dec_stack := st\<rparr>))"

text \<open>\<open>darray m\<close> is the idiom of every message: read the length, then loop over the elements.\<close>

definition darray :: "'a dec \<Rightarrow> 'a list dec" where
  "darray m = dbind dArrayLength (\<lambda>n. dtimes n m)"

text \<open>\<^verbatim>\<open>Decode(b, in, version)\<close>: the outcome for a fresh receiver.\<close>

definition Decode :: "'a dec \<Rightarrow> bytes \<Rightarrow> (proto_error, 'a) outcome" where
  "Decode m b = fst (m (NewDecoder b))"

end
