(* ===== verification/Codec.thy ===== *)
theory Codec
  imports Wire
begin

text \<open>
  What an encoder and a decoder promise each other.  The bytes of a call list are first given by a
  reference machine that only appends (\<open>wire_step\<close>); the two-pass \<^const>\<open>Encode\<close> of the source, which
  measures, allocates, writes by index and patches the pushed fields afterwards, is shown to produce
  exactly those bytes.  \<open>decodes m bs x\<close> says that a decoder reads \<open>x\<close> from \<open>bs\<close> wherever they stand
  in the packet.  \<open>codec_ok\<close> joins the two, with one composition rule for each primitive, and the
  locale \<open>codec\<close> is the interface every message of the protocol is an instance of.
\<close>

section \<open>The reference bytes of a call list\<close>

fun put_ok :: "put \<Rightarrow> bool" where
  "put_ok (PutArrayLength k) \<longleftrightarrow> k \<le> MaxInt32"
| "put_ok (PutRawBytes bs) \<longleftrightarrow> length bs \<le> MaxInt32"
| "put_ok (PutBytes b) \<longleftrightarrow> (case b of None \<Rightarrow> True | Some bs \<Rightarrow> length bs \<le> MaxInt32)"
| "put_ok (PutString s) \<longleftrightarrow> length s \<le> MaxInt16"
| "put_ok (PutNullableString s) \<longleftrightarrow> (case s of None \<Rightarrow> True | Some s \<Rightarrow> length s \<le> MaxInt16)"
| "put_ok (PutStringArray ss) \<longleftrightarrow> length ss \<le> MaxInt32 \<and> (\<forall>s\<in>set ss. length s \<le> MaxInt16)"
| "put_ok (PutInt32Array xs) \<longleftrightarrow> length xs \<le> MaxInt32"
| "put_ok (PutInt64Array xs) \<longleftrightarrow> length xs \<le> MaxInt32"
| "put_ok (Unchecked p) \<longleftrightarrow> put_ok p \<and> (case p of Push _ \<Rightarrow> False | Pop \<Rightarrow> False | Unchecked _ \<Rightarrow> False | _ \<Rightarrow> True)"
| "put_ok _ \<longleftrightarrow> True"

definition string_field :: "string \<Rightarrow> bytes" where
  "string_field s = PutUint16 (word_of_nat (length s)) @ bytes_of_string s"

fun put_bytes :: "put \<Rightarrow> bytes" where
  "put_bytes (PutBool v) = [if v then 1 else 0]"
| "put_bytes (PutInt8 w) = [w]"
| "put_bytes (PutInt16 w) = PutUint16 w"
| "put_bytes (PutInt32 w) = PutUint32 w"
| "put_bytes (PutInt64 w) = PutUint64 w"
| "put_bytes (PutArrayLength k) = PutUint32 (word_of_nat k)"
| "put_bytes (PutRawBytes bs) = bs"
| "put_bytes (PutBytes None) = PutUint32 (-1)"
| "put_bytes (PutBytes (Some bs)) = PutUint32 (word_of_nat (length bs)) @ bs"
| "put_bytes (PutString s) = string_field s"
| "put_bytes (PutNullableString None) = PutUint16 (-1)"
| "put_bytes (PutNullableString (Some s)) = string_field s"
| "put_bytes (PutStringArray ss) =
     PutUint32 (word_of_nat (length ss)) @ concat (map string_field ss)"
| "put_bytes (PutInt32Array xs) =
     PutUint32 (word_of_nat (length xs)) @ concat (map PutUint32 xs)"
| "put_bytes (PutInt64Array xs) =
     PutUint32 (word_of_nat (length xs)) @ concat (map PutUint64 xs)"
| "put_bytes (Push f) = []"
| "put_bytes Pop = []"
| "put_bytes (Unchecked p) = put_bytes p"

text \<open>The bytes between \<open>Push f\<close> and its \<open>Pop\<close>, with the field in front of them.\<close>

definition frame :: "push_field \<Rightarrow> bytes \<Rightarrow> bytes" where
  "frame f bs =
     PutUint32 (case f of SizeField \<Rightarrow> word_of_nat (length bs) | CRCField \<Rightarrow> ChecksumIEEE bs) @ bs"

type_synonym frames = "bytes \<times> (push_field \<times> bytes) list"

fun wire_step :: "put \<Rightarrow> frames \<Rightarrow> frames option" where
  "wire_step (Push f) (cur, st) = Some ([], (f, cur) # st)"
| "wire_step Pop (cur, []) = None"
| "wire_step Pop (cur, (f, out) # st) = Some (out @ frame f cur, st)"
| "wire_step p (cur, st) = Some (cur @ put_bytes p, st)"

definition emits :: "put list \<Rightarrow> bytes \<Rightarrow> bool" where
  "emits ops bs \<longleftrightarrow> (\<forall>cur st. run_opt wire_step ops (cur, st) = Some (cur @ bs, st))"

lemma run_opt_append: "run_opt f (xs @ ys) s = Option.bind (run_opt f xs s) (run_opt f ys)"
  by (induction xs arbitrary: s) (auto split: bind_splits)

lemma length_frame [simp, width_simps]: "length (frame f bs) = 4 + length bs"
  by (simp add: frame_def)

lemma length_string_field [simp, width_simps]: "length (string_field s) = 2 + length s"
  by (simp add: string_field_def)

section \<open>Encode produces the reference bytes\<close>

text \<open>The buffer of the \<^verbatim>\<open>ByteEncoder\<close> while frames are open: each pushed field is still four zeros.\<close>

fun layout :: "(push_field \<times> bytes) list \<Rightarrow> bytes" where
  "layout [] = []"
| "layout ((f, out) # st) = layout st @ out @ [0, 0, 0, 0]"

fun starts :: "(push_field \<times> bytes) list \<Rightarrow> (push_field \<times> nat) list" where
  "starts [] = []"
| "starts ((f, out) # st) = (f, length (layout st) + length out) # starts st"

fun pos :: "frames \<Rightarrow> nat" where
  "pos (cur, st) = length (layout st) + length cur"

fun put_size :: "put \<Rightarrow> nat" where
  "put_size (Push f) = 4"
| "put_size Pop = 0"
| "put_size p = length (put_bytes p)"

definition enc_state :: "nat \<Rightarrow> frames \<Rightarrow> byte_encoder \<Rightarrow> bool" where
  "enc_state N s e \<longleftrightarrow> pos s \<le> N \<and> enc_off e = pos s \<and> enc_stack e = starts (snd s) \<and>
     enc_b e = layout (snd s) @ fst s @ replicate (N - pos s) 0"

lemma ReserveSize_eq [simp]: "ReserveSize f = 4"
  by (simp add: ReserveSize_def split: push_field.split)

lemma wire_step_pos: "wire_step p s = Some s' \<Longrightarrow> pos s' = pos s + put_size p"
  by (induction p s rule: wire_step.induct) auto

lemma len_strings_ok:
  "\<forall>s\<in>set ss. length s \<le> MaxInt16 \<Longrightarrow>
   len_strings ss n = (None, n + length (concat (map string_field ss)))"
  by (induction ss arbitrary: n) (auto simp: len_string_def)

lemma concat_PutUint32_length [simp, width_simps]: "length (concat (map PutUint32 xs)) = 4 * length xs"
  by (induction xs) auto

lemma concat_PutUint64_length [simp, width_simps]: "length (concat (map PutUint64 xs)) = 8 * length xs"
  by (induction xs) auto

lemma len_put_ok: "put_ok p \<Longrightarrow> len_put p n = (None, n + put_size p)"
proof (induction p n rule: len_put.induct)
  case (18 p n)
  then show ?case by (cases p) auto
qed (auto simp: len_array_length_def len_raw_bytes_def len_string_def len_strings_ok)

lemma len_run_ok:
  "\<forall>p\<in>set ops. put_ok p \<Longrightarrow> len_run ops n = Ok (n + sum_list (map put_size ops))"
  by (induction ops arbitrary: n) (auto simp: len_put_ok)

lemma byte_write_state:
  assumes "enc_state N (cur, st) e" and "pos (cur, st) + length bs \<le> N"
  shows "\<exists>e'. byte_write bs e = Some e' \<and> enc_state N (cur @ bs, st) e'"
proof -
  from assms(2) have "replicate (N - pos (cur, st)) (0::byte)
      = replicate (length bs) 0 @ replicate (N - pos (cur @ bs, st)) 0"
    by (simp add: replicate_add [symmetric])
  then have "enc_b e = (layout st @ cur) @ replicate (length bs) 0 @ replicate (N - pos (cur @ bs, st)) 0"
    using assms(1) by (simp add: enc_state_def)
  then have "overwrite (enc_b e) (enc_off e) bs
      = (layout st @ cur) @ bs @ replicate (N - pos (cur @ bs, st)) 0"
    using assms(1) by (simp only:) (rule overwrite_append_exact, simp_all add: enc_state_def)
  then show ?thesis
    using assms by (auto simp: byte_write_def enc_state_def)
qed

lemma byte_copy_eq_write:
  "enc_off e + length bs \<le> length (enc_b e) \<Longrightarrow> byte_copy bs e = byte_write bs e"
  by (simp add: byte_copy_def byte_write_def)

lemma byte_copy_state:
  assumes "enc_state N (cur, st) e" and "pos (cur, st) + length bs \<le> N"
  shows "\<exists>e'. byte_copy bs e = Some e' \<and> enc_state N (cur @ bs, st) e'"
proof -
  from assms have "enc_off e + length bs \<le> length (enc_b e)"
    by (simp add: enc_state_def)
  then show ?thesis using byte_write_state [OF assms] by (simp add: byte_copy_eq_write)
qed

lemma byte_write_then:
  assumes "enc_state N (cur, st) e" and "pos (cur, st) + length bs + length cs \<le> N"
    and "\<And>e'. enc_state N (cur @ bs, st) e' \<Longrightarrow> pos (cur @ bs, st) + length cs \<le> N \<Longrightarrow>
           \<exists>e''. g e' = Some e'' \<and> enc_state N ((cur @ bs) @ cs, st) e''"
  shows "\<exists>e''. Option.bind (byte_write bs e) g = Some e'' \<and> enc_state N (cur @ bs @ cs, st) e''"
proof -
  obtain e' where "byte_write bs e = Some e'" "enc_state N (cur @ bs, st) e'"
    using byte_write_state [OF assms(1), of bs] assms(2) by auto
  with assms(2) assms(3) [of e'] show ?thesis by auto
qed

lemma byte_string_state:
  assumes "enc_state N (cur, st) e" and "pos (cur, st) + length (string_field s) \<le> N"
  shows "\<exists>e'. byte_string s e = Some e' \<and> enc_state N (cur @ string_field s, st) e'"
  unfolding byte_string_def string_field_def
proof (rule byte_write_then [OF assms(1)])
  fix e'
  assume "enc_state N (cur @ PutUint16 (word_of_nat (length s)), st) e'"
    and "pos (cur @ PutUint16 (word_of_nat (length s)), st) + length (bytes_of_string s) \<le> N"
  then show "\<exists>e''. byte_copy (bytes_of_string s) e' = Some e'' \<and>
      enc_state N ((cur @ PutUint16 (word_of_nat (length s))) @ bytes_of_string s, st) e''"
    by (rule byte_copy_state)
qed (use assms(2) in simp)

lemma run_opt_state:
  assumes "\<And>x cur e. x \<in> set xs \<Longrightarrow> enc_state N (cur, st) e \<Longrightarrow> pos (cur, st) + length (g x) \<le> N \<Longrightarrow>
             \<exists>e'. f x e = Some e' \<and> enc_state N (cur @ g x, st) e'"
    and "enc_state N (cur, st) e" and "pos (cur, st) + length (concat (map g xs)) \<le> N"
  shows "\<exists>e'. run_opt f xs e = Some e' \<and> enc_state N (cur @ concat (map g xs), st) e'"
  using assms
proof (induction xs arbitrary: cur e)
  case (Cons x xs)
  obtain e' where e': "f x e = Some e'" "enc_state N (cur @ g x, st) e'"
    using Cons.prems(1) [of x cur e] Cons.prems(2,3) by auto
  moreover have "pos (cur @ g x, st) + length (concat (map g xs)) \<le> N"
    using Cons.prems(3) by simp
  moreover have "\<And>y cur e. y \<in> set xs \<Longrightarrow> enc_state N (cur, st) e \<Longrightarrow>
      pos (cur, st) + length (g y) \<le> N \<Longrightarrow> \<exists>e'. f y e = Some e' \<and> enc_state N (cur @ g y, st) e'"
    using Cons.prems(1) by simp
  ultimately obtain e'' where "run_opt f xs e' = Some e''"
      "enc_state N ((cur @ g x) @ concat (map g xs), st) e''"
    using Cons.IH [of "cur @ g x" e'] by blast
  with e' show ?case by auto
qed simp

lemma byte_put_simple:
  assumes "enc_state N (cur, st) e" and "pos (cur, st) + put_size p \<le> N"
    and "p \<noteq> Pop" and "\<And>f. p \<noteq> Push f" and "put_ok p"
  shows "\<exists>e'. byte_put p e = Some e' \<and> enc_state N (cur @ put_bytes p, st) e'"
  using assms
proof (induction p e rule: byte_put.induct)
  case (1 v e)
  show ?case
  proof (cases v)
    case False
    have "replicate (N - pos (cur, st)) (0::byte) = 0 # replicate (N - pos (cur @ [0], st)) 0"
      using "1.prems"(2) by (cases "N - pos (cur, st)") auto
    with False "1.prems" show ?thesis by (auto simp: enc_state_def)
  qed (use "1.prems" byte_write_state [of N cur st e "[1]"] in auto)
next
  case (18 p e)
  then show ?case by (cases p) auto
qed (auto intro!: byte_write_state byte_copy_state byte_write_then byte_string_state run_opt_state
      simp: o_def)

lemma starts_off: "enc_state N (cur, (f, out) # st) e \<Longrightarrow>
   enc_b e = (layout st @ out) @ [0, 0, 0, 0] @ cur @ replicate (N - pos (cur, (f, out) # st)) 0"
  by (simp add: enc_state_def)

lemma byte_put_Pop:
  assumes "enc_state N (cur, (f, out) # st) e"
  shows "\<exists>e'. byte_put Pop e = Some e' \<and> enc_state N (out @ frame f cur, st) e'"
proof -
  let ?pre = "layout st @ out"
  let ?z = "replicate (N - pos (cur, (f, out) # st)) (0::byte)"
  let ?w = "case f of SizeField \<Rightarrow> word_of_nat (length cur) | CRCField \<Rightarrow> ChecksumIEEE cur"
  have b: "enc_b e = ?pre @ [0, 0, 0, 0] @ cur @ ?z"
    using assms by (rule starts_off)
  have off: "enc_off e = length ?pre + 4 + length cur"
    and stk: "enc_stack e = (f, length ?pre) # starts st"
    using assms by (simp_all add: enc_state_def)
  have "Fill f (length ?pre) (enc_off e) (enc_b e) = Some (?pre @ PutUint32 ?w @ cur @ ?z)"
  proof (cases f)
    case SizeField
    then show ?thesis
      unfolding field_defs b off
      by (simp add: overwrite_append_exact [where xs = ?pre and zs = "[0, 0, 0, 0]", simplified])
  next
    case CRCField
    have "slice (enc_b e) (length ?pre + 4) (enc_off e) = Some cur"
      using slice_append_exact [of "length ?pre + 4" "?pre @ [0, 0, 0, 0]" "enc_off e" cur ?z]
      by (simp add: b off)
    with CRCField show ?thesis
      unfolding field_defs
      by (simp add: b overwrite_append_exact [where xs = ?pre and zs = "[0, 0, 0, 0]", simplified])
  qed
  with stk assms show ?thesis
    by (auto simp: enc_state_def frame_def)
qed

lemma byte_put_step:
  assumes "enc_state N s e" and "wire_step p s = Some s'" and "pos s' \<le> N" and "put_ok p"
  shows "\<exists>e'. byte_put p e = Some e' \<and> enc_state N s' e'"
proof -
  obtain cur st where s: "s = (cur, st)" by (cases s)
  consider (push) f where "p = Push f" | (pop) "p = Pop"
    | (simple) "p \<noteq> Pop" "\<And>f. p \<noteq> Push f" by (cases p) auto
  then show ?thesis
  proof cases
    case push
    with assms s have "replicate (N - pos s) (0::byte) = [0, 0, 0, 0] @ replicate (N - pos s') 0"
      by (auto simp: numeral_eq_Suc replicate_add [symmetric] simp flip: replicate_Suc)
    with push assms s show ?thesis by (auto simp: enc_state_def)
  next
    case pop
    with assms s obtain f out st' where "st = (f, out) # st'" "s' = (out @ frame f cur, st')"
      by (cases st) auto
    with pop assms s byte_put_Pop show ?thesis by blast
  next
    case simple
    then have "s' = (cur @ put_bytes p, st)" "put_size p = length (put_bytes p)"
      using assms(2) s by (cases p; auto)+
    with simple byte_put_simple [of N cur st e p] assms s show ?thesis by simp
  qed
qed

lemma byte_run_state:
  assumes "enc_state N s e" and "run_opt wire_step ops s = Some s'"
    and "pos s + sum_list (map put_size ops) \<le> N" and "\<forall>p\<in>set ops. put_ok p"
  shows "\<exists>e'. run_opt byte_put ops e = Some e' \<and> enc_state N s' e'"
  using assms
proof (induction ops arbitrary: s e)
  case (Cons p ops)
  from Cons.prems(2) obtain t where t: "wire_step p s = Some t" "run_opt wire_step ops t = Some s'"
    by (auto split: bind_splits)
  have "pos t = pos s + put_size p" using t(1) by (rule wire_step_pos)
  with Cons.prems byte_put_step [OF Cons.prems(1) t(1)] obtain e' where
    "byte_put p e = Some e'" "enc_state N t e'" by auto
  with Cons.IH [of t e'] t(2) Cons.prems(3,4) \<open>pos t = _\<close> show ?case by auto
qed simp

lemma run_opt_pos:
  "run_opt wire_step ops s = Some s' \<Longrightarrow> pos s' = pos s + sum_list (map put_size ops)"
proof (induction ops arbitrary: s)
  case (Cons p ops)
  then obtain t where "wire_step p s = Some t" "run_opt wire_step ops t = Some s'"
    by (auto split: bind_splits)
  with Cons.IH [of t] wire_step_pos [of p s t] show ?case by simp
qed simp

lemma emits_size: "emits ops bs \<Longrightarrow> length bs = sum_list (map put_size ops)"
  using run_opt_pos [of ops "([], [])" "(bs, [])"] by (simp add: emits_def)

lemma Encode_run:
  assumes run: "run_opt wire_step ops ([], []) = Some (bs, [])" and "\<forall>p\<in>set ops. put_ok p"
  shows "Encode ops = Ok bs"
proof -
  let ?N = "sum_list (map put_size ops)"
  have "enc_state ?N ([], []) (NewByteEncoder (replicate ?N 0))"
    by (simp add: enc_state_def NewByteEncoder_def)
  from byte_run_state [OF this run] assms(2) obtain e where
    e: "run_opt byte_put ops (NewByteEncoder (replicate ?N 0)) = Some e" "enc_state ?N (bs, []) e"
    by auto
  have "pos (bs, []) = ?N" using run_opt_pos [OF run] by simp
  with e(2) have "enc_b e = bs" by (simp add: enc_state_def)
  with e(1) assms(2) show ?thesis by (simp add: Encode_def len_run_ok)
qed

lemma Encode_emits: "emits ops bs \<Longrightarrow> \<forall>p\<in>set ops. put_ok p \<Longrightarrow> Encode ops = Ok bs"
  by (rule Encode_run) (simp_all add: emits_def)

lemma Encode_Err:
  assumes "len_put p 0 = (Some err, n)" and "\<forall>q\<in>set pre. put_ok q"
    and "\<And>m. fst (len_put p m) = Some err"
  shows "Encode (pre @ p # post) = Err err"
proof -
  have "len_run (pre @ p # post) n = Err err" for n
    using assms(2)
  proof (induction pre arbitrary: n)
    case Nil
    with assms(3) [of n] show ?case by (auto split: prod.splits)
  qed (auto simp: len_put_ok)
  then show ?thesis by (simp add: Encode_def)
qed

subsection \<open>Emission of composed lists\<close>

lemma emits_Nil [intro, simp]: "emits [] []"
  by (simp add: emits_def)

lemma emits_append [intro]: "emits xs bs \<Longrightarrow> emits ys cs \<Longrightarrow> emits (xs @ ys) (bs @ cs)"
  by (simp add: emits_def run_opt_append)

lemma emits_simple:
  "p \<noteq> Pop \<Longrightarrow> (\<And>f. p \<noteq> Push f) \<Longrightarrow> emits [p] (put_bytes p)"
  by (cases p) (auto simp: emits_def)

lemma emits_Cons:
  "p \<noteq> Pop \<Longrightarrow> (\<And>f. p \<noteq> Push f) \<Longrightarrow> emits ops bs \<Longrightarrow> emits (p # ops) (put_bytes p @ bs)"
  using emits_append [OF emits_simple, of p ops bs] by simp

lemma emits_all_simple: "\<forall>p\<in>set ops. p \<notin> insert Pop (range Push) \<Longrightarrow> \<exists>bs. emits ops bs"
proof (induction ops)
  case (Cons p ops)
  then obtain bs where "emits ops bs" by auto
  moreover have "p \<noteq> Pop" and "\<And>f. p \<noteq> Push f" using Cons.prems by auto
  ultimately show ?case using emits_Cons by blast
qed auto

lemma emits_frame: "emits ops bs \<Longrightarrow> emits (Push f # ops @ [Pop]) (frame f bs)"
  by (simp add: emits_def run_opt_append)

lemma emits_concat:
  "\<forall>x\<in>set xs. emits (f x) (g x) \<Longrightarrow> emits (concat (map f xs)) (concat (map g xs))"
  by (induction xs) auto

section \<open>Reading back\<close>

definition decodes :: "'a dec \<Rightarrow> bytes \<Rightarrow> 'a \<Rightarrow> bool" where
  "decodes m bs x \<longleftrightarrow>
     (\<forall>pre rest stk. m \<lparr>dec_b = pre @ bs @ rest, dec_off = length pre, dec_stack = stk\<rparr>
        = (Ok x, \<lparr>dec_b = pre @ bs @ rest, dec_off = length pre + length bs, dec_stack = stk\<rparr>))"

lemma decodesD:
  "decodes m bs x \<Longrightarrow>
   m \<lparr>dec_b = pre @ bs @ rest, dec_off = length pre, dec_stack = stk\<rparr>
     = (Ok x, \<lparr>dec_b = pre @ bs @ rest, dec_off = length pre + length bs, dec_stack = stk\<rparr>)"
  by (simp add: decodes_def)

lemma Decode_decodes: "decodes m bs x \<Longrightarrow> Decode m bs = Ok x"
  using decodesD [of m bs x "[]" "[]" "[]"] by (simp add: Decode_def NewDecoder_def)

lemma decodes_ret [intro, simp]: "decodes (dret x) [] x"
  by (simp add: decodes_def dret_def)

lemma decodes_bind:
  assumes "decodes m bs x" and "decodes (f x) cs y"
  shows "decodes (dbind m f) (bs @ cs) y"
  unfolding decodes_def
proof (intro allI)
  fix pre rest :: bytes and stk
  show "dbind m f \<lparr>dec_b = pre @ (bs @ cs) @ rest, dec_off = length pre, dec_stack = stk\<rparr>
      = (Ok y, \<lparr>dec_b = pre @ (bs @ cs) @ rest, dec_off = length pre + length (bs @ cs), dec_stack = stk\<rparr>)"
    using decodesD [OF assms(1), of pre "cs @ rest" stk] decodesD [OF assms(2), of "pre @ bs" rest stk]
    by (simp add: dbind_def add.assoc)
qed

lemma decodes_bind_ret: "decodes m bs x \<Longrightarrow> f x = dret y \<Longrightarrow> decodes (dbind m f) bs y"
  using decodes_bind [of m bs x f "[]" y] by simp

lemma decodes_Int8: "decodes dInt8 [w] w"
  by (simp add: decodes_def dInt8_def advance_def nth_append)

lemma decodes_Bool: "decodes dBool [if v then 1 else 0] v"
  unfolding dBool_def by (rule decodes_bind_ret [OF decodes_Int8]) simp

lemma decodes_Int16: "decodes dInt16 (PutUint16 w) w"
  by (simp add: decodes_def dInt16_def advance_def)

lemma decodes_Int32: "decodes dInt32 (PutUint32 w) w"
  by (simp add: decodes_def dInt32_def advance_def remaining_def)

lemma decodes_Int64: "decodes dInt64 (PutUint64 w) w"
  by (simp add: decodes_def dInt64_def advance_def remaining_def)

lemma decodes_Uint32: "decodes dUint32 (PutUint32 w) w"
  by (simp add: decodes_def dUint32_def advance_def)

lemma decodes_Uint64: "decodes dUint64 (PutUint64 w) w"
  by (simp add: decodes_def dUint64_def advance_def)

lemma decodes_Take: "decodes (dTake (length bs)) bs bs"
  by (simp add: decodes_def dTake_def advance_def)

lemma decodes_String:
  assumes "length s \<le> MaxInt16"
  shows "decodes dString (string_field s) s"
  unfolding dString_def string_field_def
proof (rule decodes_bind [OF decodes_Int16])
  show "decodes (\<lambda>d. let n = sint (word_of_nat (length s) :: int16) in
       if n < -1 then (Err ErrInvalidStringLength, d)
       else if n = -1 then (Ok [], d)
       else if n = 0 then (Ok [], d)
       else if n > remaining d then (Err ErrInsufficientData, skip_all d)
       else dbind (dTake (nat n)) (\<lambda>xs. dret (string_of_bytes xs)) d) (bytes_of_string s) s"
    using assms decodesD [OF decodes_bind_ret [OF decodes_Take [of "bytes_of_string s"],
        of "\<lambda>xs. dret (string_of_bytes xs)" s]]
    by (auto simp: decodes_def sint_word_of_nat_16 Let_def remaining_def)
qed

lemma decodes_NullableString:
  assumes "put_ok (PutNullableString v)"
  shows "decodes dNullableString (put_bytes (PutNullableString v)) v"
proof (cases v)
  case None
  have "decodes dstringLength (PutUint16 (-1)) (-1)"
    using decodesD [OF decodes_Int16 [of "-1"]]
    by (simp add: decodes_def dstringLength_def dbind_def remaining_def Let_def)
  then show ?thesis
    using None unfolding dNullableString_def by (auto intro: decodes_bind_ret)
next
  case (Some s)
  let ?k = "\<lambda>n. if n = -1 then dret None
       else dbind (dTake (nat n)) (\<lambda>xs. dret (Some (string_of_bytes xs)))"
  have take: "decodes (dbind (dTake (length s)) (\<lambda>xs. dret (Some (string_of_bytes xs))))
      (bytes_of_string s) (Some s)"
    using decodes_bind_ret [OF decodes_Take [of "bytes_of_string s"],
        of "\<lambda>xs. dret (Some (string_of_bytes xs))" "Some s"] by simp
  have len: "dstringLength \<lparr>dec_b = pre @ string_field s @ rest, dec_off = length pre, dec_stack = stk\<rparr>
      = (Ok (int (length s)), \<lparr>dec_b = (pre @ PutUint16 (word_of_nat (length s))) @ bytes_of_string s @ rest,
           dec_off = length (pre @ PutUint16 (word_of_nat (length s))), dec_stack = stk\<rparr>)"
    for pre rest stk
    using assms Some decodesD [OF decodes_Int16, of pre "word_of_nat (length s)" "bytes_of_string s @ rest" stk]
    by (simp add: dstringLength_def dbind_def string_field_def sint_word_of_nat_16 Let_def remaining_def)
  show ?thesis
    unfolding decodes_def dNullableString_def
  proof (intro allI)
    fix pre rest :: bytes and stk
    show "dbind dstringLength ?k
        \<lparr>dec_b = pre @ put_bytes (PutNullableString v) @ rest, dec_off = length pre, dec_stack = stk\<rparr>
      = (Ok v, \<lparr>dec_b = pre @ put_bytes (PutNullableString v) @ rest,
           dec_off = length pre + length (put_bytes (PutNullableString v)), dec_stack = stk\<rparr>)"
      using decodesD [OF take, of "pre @ PutUint16 (word_of_nat (length s))" rest stk] len [of pre rest stk]
      by (simp add: Some dbind_def string_field_def)
  qed
qed

lemma decodes_Bytes:
  assumes "put_ok (PutBytes v)"
  shows "decodes dBytes (put_bytes (PutBytes v)) v"
proof (cases v)
  case None
  then show ?thesis
    using decodesD [OF decodes_Int32 [of "-1"]]
    by (simp add: decodes_def dBytes_def dbind_def Let_def)
next
  case (Some bs)
  show ?thesis
    unfolding dBytes_def Some put_bytes.simps
  proof (rule decodes_bind [OF decodes_Int32])
    show "decodes (\<lambda>d. let n = sint (word_of_nat (length bs) :: int32) in
       if n < -1 then (Err ErrInvalidByteSliceLength, d)
       else if n = -1 then (Ok None, d)
       else if n = 0 then (Ok (Some []), d)
       else if n > remaining d then (Err ErrInsufficientData, skip_all d)
       else dbind (dTake (nat n)) (\<lambda>xs. dret (Some xs)) d) bs (Some bs)"
      using assms Some decodesD [OF decodes_bind_ret [OF decodes_Take [of bs], of "\<lambda>xs. dret (Some xs)" "Some bs"]]
      by (auto simp: decodes_def sint_word_of_nat_32 Let_def remaining_def)
  qed
qed

lemma decodes_times:
  "\<forall>x\<in>set xs. decodes m (g x) x \<Longrightarrow> decodes (dtimes (length xs) m) (concat (map g xs)) xs"
proof (induction xs)
  case (Cons x xs)
  have "decodes (dbind (dtimes (length xs) m) (\<lambda>xs. dret (x # xs))) (concat (map g xs)) (x # xs)"
    by (rule decodes_bind_ret) (use Cons in auto)
  with Cons.prems show ?case by (auto intro: decodes_bind)
qed simp

lemma decodes_after:
  assumes "\<And>pre rest stk. m \<lparr>dec_b = pre @ (bs @ cs) @ rest, dec_off = length pre, dec_stack = stk\<rparr>
     = m' \<lparr>dec_b = (pre @ bs) @ cs @ rest, dec_off = length (pre @ bs), dec_stack = stk\<rparr>"
    and "decodes m' cs x"
  shows "decodes m (bs @ cs) x"
  unfolding decodes_def
proof (intro allI)
  fix pre rest :: bytes and stk
  show "m \<lparr>dec_b = pre @ (bs @ cs) @ rest, dec_off = length pre, dec_stack = stk\<rparr>
     = (Ok x, \<lparr>dec_b = pre @ (bs @ cs) @ rest, dec_off = length pre + length (bs @ cs), dec_stack = stk\<rparr>)"
    using decodesD [OF assms(2), of "pre @ bs" rest stk] assms(1) [of pre rest stk] by (simp add: add.assoc)
qed

lemma decodes_Int32Array:
  assumes "length xs \<le> MaxInt32"
  shows "decodes dInt32Array (put_bytes (PutInt32Array xs)) xs"
  unfolding put_bytes.simps
proof (rule decodes_after)
  show "decodes (dtimes (length xs) dUint32) (concat (map PutUint32 xs)) xs"
    by (rule decodes_times) (simp add: decodes_Uint32)
qed (use assms in \<open>simp add: dInt32Array_def remaining_def advance_def unat_word_of_nat_32 Let_def\<close>)

lemma decodes_Int64Array:
  assumes "length xs \<le> MaxInt32"
  shows "decodes dInt64Array (put_bytes (PutInt64Array xs)) xs"
  unfolding put_bytes.simps
proof (rule decodes_after)
  show "decodes (dtimes (length xs) dUint64) (concat (map PutUint64 xs)) xs"
    by (rule decodes_times) (simp add: decodes_Uint64)
qed (use assms in \<open>simp add: dInt64Array_def remaining_def advance_def unat_word_of_nat_32 Let_def\<close>)

lemma decodes_StringArray:
  assumes "put_ok (PutStringArray ss)"
  shows "decodes dStringArray (put_bytes (PutStringArray ss)) ss"
  unfolding put_bytes.simps
proof (rule decodes_after)
  show "decodes (dtimes (length ss) dString) (concat (map string_field ss)) ss"
    by (rule decodes_times) (use assms in \<open>simp add: decodes_String\<close>)
qed (use assms in \<open>simp add: dStringArray_def remaining_def advance_def unat_word_of_nat_32\<close>)

lemma decodes_array:
  assumes "\<forall>x\<in>set xs. decodes m (g x) x \<and> g x \<noteq> []" and "length xs \<le> 131070"
  shows "decodes (darray m) (PutUint32 (word_of_nat (length xs)) @ concat (map g xs)) xs"
  unfolding darray_def
proof (rule decodes_after)
  show "decodes (dtimes (length xs) m) (concat (map g xs)) xs"
    by (rule decodes_times) (use assms in simp)
  have "length xs \<le> length (concat (map g xs))"
    by (rule length_concat_ge) (use assms in simp)
  then show "dbind dArrayLength (\<lambda>n. dtimes n m)
      \<lparr>dec_b = pre @ (PutUint32 (word_of_nat (length xs)) @ concat (map g xs)) @ rest,
       dec_off = length pre, dec_stack = stk\<rparr>
    = dtimes (length xs) m \<lparr>dec_b = (pre @ PutUint32 (word_of_nat (length xs))) @ concat (map g xs) @ rest,
       dec_off = length (pre @ PutUint32 (word_of_nat (length xs))), dec_stack = stk\<rparr>" for pre rest stk
    using assms(2)
    by (simp add: dbind_def dArrayLength_def remaining_def advance_def unat_word_of_nat_32 Let_def
        del: length_concat)
qed

text \<open>A pushed field is checked against the bytes that follow it.\<close>

lemma decodes_frame:
  assumes "decodes m bs x"
  shows "decodes (dbind (dPush f) (\<lambda>_. dbind m (\<lambda>y. dbind dPop (\<lambda>_. dret y)))) (frame f bs) x"
  unfolding decodes_def
proof (intro allI)
  fix pre rest :: bytes and stk
  define w where "w = (case f of SizeField \<Rightarrow> word_of_nat (length bs) | CRCField \<Rightarrow> ChecksumIEEE bs)"
  have fr: "frame f bs = PutUint32 w @ bs" by (simp add: frame_def w_def)
  have m: "m \<lparr>dec_b = pre @ PutUint32 w @ bs @ rest, dec_off = length pre + 4, dec_stack = (f, length pre) # stk\<rparr>
    = (Ok x, \<lparr>dec_b = pre @ PutUint32 w @ bs @ rest, dec_off = length pre + 4 + length bs,
         dec_stack = (f, length pre) # stk\<rparr>)"
    using decodesD [OF assms, of "pre @ PutUint32 w" rest "(f, length pre) # stk"] by simp
  have "slice (pre @ PutUint32 w @ bs @ rest) (length pre + 4) (length pre + 4 + length bs) = Some bs"
    using slice_append [of "pre @ PutUint32 w" bs rest] by simp
  then have "Check f (length pre) (length pre + 4 + length bs) (pre @ PutUint32 w @ bs @ rest) = Ok ()"
    by (cases f) (simp_all add: field_defs w_def)
  then show "dbind (dPush f) (\<lambda>_. dbind m (\<lambda>y. dbind dPop (\<lambda>_. dret y)))
      \<lparr>dec_b = pre @ frame f bs @ rest, dec_off = length pre, dec_stack = stk\<rparr>
    = (Ok x, \<lparr>dec_b = pre @ frame f bs @ rest, dec_off = length pre + length (frame f bs), dec_stack = stk\<rparr>)"
    using m by (simp add: fr dbind_def dPush_def dPop_def dret_def remaining_def advance_def)
qed

section \<open>The codec contract and its composition rules\<close>

definition codec_ok :: "put list \<Rightarrow> 'a dec \<Rightarrow> 'a \<Rightarrow> bool" where
  "codec_ok ops m x \<longleftrightarrow> (\<forall>p\<in>set ops. put_ok p) \<and> (\<exists>bs. emits ops bs \<and> decodes m bs x)"

lemma codec_okI: "\<forall>p\<in>set ops. put_ok p \<Longrightarrow> emits ops bs \<Longrightarrow> decodes m bs x \<Longrightarrow> codec_ok ops m x"
  by (auto simp: codec_ok_def)

lemma codec_ok_ret [wire_intros]: "x' = x \<Longrightarrow> codec_ok [] (dret x') x"
  by (rule codec_okI) auto

lemma codec_ok_append:
  "codec_ok xs m x \<Longrightarrow> codec_ok ys (f x) y \<Longrightarrow> codec_ok (xs @ ys) (dbind m f) y"
  by (fastforce simp: codec_ok_def intro: decodes_bind)

lemma codec_ok_put:
  assumes "p \<noteq> Pop" and "\<And>f. p \<noteq> Push f" and "put_ok p" and "decodes m (put_bytes p) x"
  shows "codec_ok [p] m x"
  using assms by (intro codec_okI) (auto intro: emits_simple)

lemma codec_ok_Cons:
  assumes "codec_ok [p] m x" and "codec_ok ops (f x) y"
  shows "codec_ok (p # ops) (dbind m f) y"
  using codec_ok_append [of "[p]" m x ops f y] assms by simp

lemma codec_ok_Int8 [wire_intros]: "codec_ok ops (f w) y \<Longrightarrow> codec_ok (PutInt8 w # ops) (dbind dInt8 f) y"
  by (rule codec_ok_Cons [where p = "PutInt8 w" and x = w, OF codec_ok_put])
    (auto simp: decodes_Int8)

lemma codec_ok_Bool [wire_intros]: "codec_ok ops (f w) y \<Longrightarrow> codec_ok (PutBool w # ops) (dbind dBool f) y"
  by (rule codec_ok_Cons [where p = "PutBool w" and x = w, OF codec_ok_put])
    (auto simp: decodes_Bool [of w, simplified])

lemma codec_ok_Int16 [wire_intros]: "codec_ok ops (f w) y \<Longrightarrow> codec_ok (PutInt16 w # ops) (dbind dInt16 f) y"
  by (rule codec_ok_Cons [where p = "PutInt16 w" and x = w, OF codec_ok_put])
    (auto simp: decodes_Int16)

lemma codec_ok_Int32 [wire_intros]: "codec_ok ops (f w) y \<Longrightarrow> codec_ok (PutInt32 w # ops) (dbind dInt32 f) y"
  by (rule codec_ok_Cons [where p = "PutInt32 w" and x = w, OF codec_ok_put])
    (auto simp: decodes_Int32)

lemma codec_ok_Int64 [wire_intros]: "codec_ok ops (f w) y \<Longrightarrow> codec_ok (PutInt64 w # ops) (dbind dInt64 f) y"
  by (rule codec_ok_Cons [where p = "PutInt64 w" and x = w, OF codec_ok_put])
    (auto simp: decodes_Int64)

lemma codec_ok_String [wire_intros]:
  "length s \<le> MaxInt16 \<Longrightarrow> codec_ok ops (f s) y \<Longrightarrow> codec_ok (PutString s # ops) (dbind dString f) y"
  by (rule codec_ok_Cons [where p = "PutString s" and x = s, OF codec_ok_put])
    (auto simp: decodes_String)

lemma codec_ok_NullableString [wire_intros]:
  "put_ok (PutNullableString v) \<Longrightarrow> codec_ok ops (f v) y \<Longrightarrow>
   codec_ok (PutNullableString v # ops) (dbind dNullableString f) y"
  by (rule codec_ok_Cons [where p = "PutNullableString v" and x = v, OF codec_ok_put])
    (auto intro: decodes_NullableString simp del: put_ok.simps)

lemma codec_ok_Bytes [wire_intros]:
  "put_ok (PutBytes v) \<Longrightarrow> codec_ok ops (f v) y \<Longrightarrow> codec_ok (PutBytes v # ops) (dbind dBytes f) y"
  by (rule codec_ok_Cons [where p = "PutBytes v" and x = v, OF codec_ok_put])
    (auto intro: decodes_Bytes simp del: put_ok.simps)

lemma codec_ok_StringArray [wire_intros]:
  "put_ok (PutStringArray ss) \<Longrightarrow> codec_ok ops (f ss) y \<Longrightarrow>
   codec_ok (PutStringArray ss # ops) (dbind dStringArray f) y"
  by (rule codec_ok_Cons [where p = "PutStringArray ss" and x = ss, OF codec_ok_put])
    (auto intro: decodes_StringArray simp del: put_ok.simps put_bytes.simps)

lemma codec_ok_Int32Array [wire_intros]:
  "length xs \<le> MaxInt32 \<Longrightarrow> codec_ok ops (f xs) y \<Longrightarrow>
   codec_ok (PutInt32Array xs # ops) (dbind dInt32Array f) y"
  by (rule codec_ok_Cons [where p = "PutInt32Array xs" and x = xs, OF codec_ok_put])
    (auto intro: decodes_Int32Array simp del: put_bytes.simps)

lemma codec_ok_Int64Array [wire_intros]:
  "length xs \<le> MaxInt32 \<Longrightarrow> codec_ok ops (f xs) y \<Longrightarrow>
   codec_ok (PutInt64Array xs # ops) (dbind dInt64Array f) y"
  by (rule codec_ok_Cons [where p = "PutInt64Array xs" and x = xs, OF codec_ok_put])
    (auto intro: decodes_Int64Array simp del: put_bytes.simps)

lemma codec_ok_frame:
  assumes "codec_ok ops m x"
  shows "codec_ok (Push f # ops @ [Pop]) (dbind (dPush f) (\<lambda>_. dbind m (\<lambda>y. dbind dPop (\<lambda>_. dret y)))) x"
proof -
  obtain bs where "emits ops bs" "decodes m bs x" "\<forall>p\<in>set ops. put_ok p"
    using assms by (auto simp: codec_ok_def)
  then show ?thesis
    by (intro codec_okI [where bs = "frame f bs"]) (auto intro: emits_frame decodes_frame)
qed

text \<open>Arrays: every element must take at least one byte, or the decoder's length check refuses it.\<close>

lemma codec_ok_darray:
  assumes "\<forall>x\<in>set xs. codec_ok (enc x) m x \<and> 0 < sum_list (map put_size (enc x))"
    and "length xs \<le> 131070"
  shows "codec_ok (PutArrayLength (length xs) # concat (map enc xs)) (darray m) xs"
proof -
  have "\<forall>x\<in>set xs. \<exists>bs. emits (enc x) bs \<and> decodes m bs x"
    using assms(1) by (auto simp: codec_ok_def)
  then obtain g where g: "\<forall>x\<in>set xs. emits (enc x) (g x) \<and> decodes m (g x) x"
    by metis
  have "\<forall>x\<in>set xs. g x \<noteq> []"
    using g assms(1) by (metis emits_size length_0_conv less_nat_zero_code)
  with g have "decodes (darray m) (PutUint32 (word_of_nat (length xs)) @ concat (map g xs)) xs"
    by (intro decodes_array) (use assms in auto)
  moreover have "emits (PutArrayLength (length xs) # concat (map enc xs))
      (PutUint32 (word_of_nat (length xs)) @ concat (map g xs))"
    using emits_Cons [OF _ _ emits_concat [of xs enc g], of "PutArrayLength (length xs)"] g by simp
  ultimately show ?thesis
    using assms by (intro codec_okI) (auto simp: codec_ok_def)
qed

lemma codec_ok_array [wire_intros]:
  assumes "\<And>x. x \<in> set xs \<Longrightarrow> codec_ok (enc x) m x"
    and "\<And>x. x \<in> set xs \<Longrightarrow> 0 < sum_list (map put_size (enc x))"
    and "length xs \<le> 131070" and "codec_ok ops (f xs) y"
  shows "codec_ok (PutArrayLength (length xs) # concat (map enc xs) @ ops) (dbind (darray m) f) y"
  using codec_ok_append [of "PutArrayLength (length xs) # concat (map enc xs)" "darray m" xs ops f y]
    codec_ok_darray [of xs enc m] assms by simp

lemma codec_ok_array_last [wire_intros]:
  assumes "\<And>x. x \<in> set xs \<Longrightarrow> codec_ok (enc x) m x"
    and "\<And>x. x \<in> set xs \<Longrightarrow> 0 < sum_list (map put_size (enc x))"
    and "length xs \<le> 131070" and "codec_ok [] (f xs) y"
  shows "codec_ok (PutArrayLength (length xs) # concat (map enc xs)) (dbind (darray m) f) y"
  using codec_ok_array [of xs enc m "[]" f y] assms by simp

text \<open>A field that only some versions carry; elsewhere the decoder leaves the zero value \<open>z\<close>.\<close>

lemma codec_ok_if [wire_intros]:
  assumes "c \<Longrightarrow> codec_ok (xs @ ops) (dbind m f) y" and "\<not> c \<Longrightarrow> codec_ok ops (f z) y"
  shows "codec_ok ((if c then xs else []) @ ops) (dbind (if c then m else dret z) f) y"
proof (cases c)
  case False
  have "dbind (dret z) f = f z" by (rule ext) (simp add: dbind_def dret_def)
  with False assms(2) show ?thesis by simp
qed (use assms in simp)

lemma codec_ok_if_last [wire_intros]:
  assumes "c \<Longrightarrow> codec_ok xs (dbind m f) y" and "\<not> c \<Longrightarrow> codec_ok [] (f z) y"
  shows "codec_ok (if c then xs else []) (dbind (if c then m else dret z) f) y"
  using codec_ok_if [of c xs "[]" m f y z] assms by simp

lemma dbind_dret [simp]: "dbind (dret x) f = f x"
  by (rule ext) (simp add: dbind_def dret_def)

lemma dbind_assoc [simp]: "dbind (dbind m f) g = dbind m (\<lambda>x. dbind (f x) g)"
  by (rule ext) (simp add: dbind_def split: prod.splits outcome.splits)

text \<open>Ignoring the error of a call that does not fail changes nothing.\<close>

lemma wire_step_Unchecked:
  "p \<noteq> Pop \<Longrightarrow> (\<And>f. p \<noteq> Push f) \<Longrightarrow> wire_step (Unchecked p) s = wire_step p s"
  by (cases s; cases p) auto

lemma codec_ok_Unchecked:
  assumes "codec_ok (p # ops) m y" and "put_ok (Unchecked p)"
  shows "codec_ok (Unchecked p # ops) m y"
proof -
  have "p \<noteq> Pop" "\<And>f. p \<noteq> Push f" using assms(2) by auto
  then have "emits (Unchecked p # ops) bs = emits (p # ops) bs" for bs
    by (simp add: emits_def wire_step_Unchecked del: wire_step.simps)
  with assms show ?thesis by (auto simp: codec_ok_def)
qed

lemma codec_ok_Unchecked_ArrayLength [wire_intros]:
  "codec_ok (PutArrayLength n # ops) m y \<Longrightarrow> codec_ok (Unchecked (PutArrayLength n) # ops) m y"
  by (rule codec_ok_Unchecked) (auto simp: codec_ok_def)

lemma codec_ok_Unchecked_String [wire_intros]:
  "codec_ok (PutString s # ops) m y \<Longrightarrow> codec_ok (Unchecked (PutString s) # ops) m y"
  by (rule codec_ok_Unchecked) (auto simp: codec_ok_def)

lemma codec_ok_Int32Array_loop [wire_intros]:
  assumes "length xs \<le> 131070" and "codec_ok ops (f xs) y"
  shows "codec_ok (PutInt32Array xs # ops) (dbind (darray dInt32) f) y"
proof (rule codec_ok_Cons [where p = "PutInt32Array xs" and x = xs, OF codec_ok_put])
  show "decodes (darray dInt32) (put_bytes (PutInt32Array xs)) xs"
    using decodes_array [of xs dInt32 PutUint32] assms by (simp add: decodes_Int32 PutUint_neq_Nil)
qed (use assms in auto)

section \<open>Progress\<close>

text \<open>A decoder that returns a value has moved forward by at least \<open>k\<close> bytes of the same packet; the
  loops that run until the packet is empty end because of it.\<close>

definition progress :: "nat \<Rightarrow> 'a dec \<Rightarrow> bool" where
  "progress k m \<longleftrightarrow> (\<forall>d x d'. m d = (Ok x, d') \<longrightarrow> dec_b d' = dec_b d \<and> dec_off d + k \<le> dec_off d')"

lemma progressD:
  "progress k m \<Longrightarrow> m d = (Ok x, d') \<Longrightarrow> dec_b d' = dec_b d \<and> dec_off d + k \<le> dec_off d'"
  by (auto simp: progress_def)

lemma progress_ret [intro]: "progress 0 (dret x)"
  by (simp add: progress_def dret_def)

lemma progress_bind:
  assumes "progress k m" and "\<And>x. progress l (f x)"
  shows "progress (k + l) (dbind m f)"
  unfolding progress_def
proof (intro allI impI)
  fix d y d'
  assume "dbind m f d = (Ok y, d')"
  then obtain x d1 where "m d = (Ok x, d1)" "f x d1 = (Ok y, d')"
    by (auto simp: dbind_def split: prod.splits outcome.splits)
  with progressD [OF assms(1)] progressD [OF assms(2)]
  show "dec_b d' = dec_b d \<and> dec_off d + (k + l) \<le> dec_off d'"
    by (metis add.assoc add_le_mono1 le_trans)
qed

lemma progress_bind0: "progress k m \<Longrightarrow> (\<And>x. progress 0 (f x)) \<Longrightarrow> progress k (dbind m f)"
  using progress_bind [of k m 0 f] by simp

lemma progress_mono: "progress k m \<Longrightarrow> l \<le> k \<Longrightarrow> progress l m"
  by (fastforce simp: progress_def)

lemma progress_prims [intro]:
  "progress 0 dInt8" "progress 0 dInt16" "progress 0 dInt32" "progress 0 dInt64"
  "progress 0 (dTake n)" "progress 4 (dPush f)" "progress 0 dPop"
  by (auto simp: progress_def dInt8_def dInt16_def dInt32_def dInt64_def dTake_def dPush_def dPop_def
      advance_def skip_all_def Let_def split: if_splits option.splits list.splits)

lemma progress_Bytes [intro]: "progress 0 dBytes"
  unfolding dBytes_def
proof (rule progress_bind0)
  show "progress 0 (\<lambda>d. let n = sint x in
       if n < -1 then (Err ErrInvalidByteSliceLength, d)
       else if n = -1 then (Ok None, d)
       else if n = 0 then (Ok (Some []), d)
       else if n > remaining d then (Err ErrInsufficientData, skip_all d)
       else dbind (dTake (nat n)) (\<lambda>xs. dret (Some xs)) d)" for x :: int32
    using progressD [OF progress_bind0 [OF progress_prims(5) progress_ret],
        of "nat (sint x)" Some]
    by (auto simp: progress_def Let_def)
qed auto

section \<open>The interface of a message\<close>

text \<open>\<open>keep v x\<close> is what of \<open>x\<close> survives the wire at version \<open>v\<close>; most messages survive whole.\<close>

text \<open>What a sender writes with \<open>ops\<close> a receiver reads with \<open>m\<close> as \<open>x\<close>.\<close>

definition reads_back :: "put list \<Rightarrow> 'a dec \<Rightarrow> 'a \<Rightarrow> bool" where
  "reads_back ops m x \<longleftrightarrow> (\<exists>bs. Encode ops = Ok bs \<and> Decode m bs = Ok x)"

locale codec_upto =
  fixes enc :: "'a \<Rightarrow> put list"
    and dec :: "int16 \<Rightarrow> 'a dec"
    and valid :: "int16 \<Rightarrow> 'a \<Rightarrow> bool"
    and keep :: "int16 \<Rightarrow> 'a \<Rightarrow> 'a"
  assumes codec_upto_law: "valid v x \<Longrightarrow> codec_ok (enc x) (dec v) (keep v x)"
begin

lemma encodes_upto:
  "valid v x \<Longrightarrow> \<exists>bs. emits (enc x) bs \<and> Encode (enc x) = Ok bs \<and> decodes (dec v) bs (keep v x)"
  using codec_upto_law by (force simp: codec_ok_def intro: Encode_emits)

lemma roundtrip_upto: "valid v x \<Longrightarrow> reads_back (enc x) (dec v) (keep v x)"
  using encodes_upto unfolding reads_back_def by (blast intro: Decode_decodes)

end

locale codec =
  fixes enc :: "'a \<Rightarrow> put list"
    and dec :: "int16 \<Rightarrow> 'a dec"
    and valid :: "int16 \<Rightarrow> 'a \<Rightarrow> bool"
  assumes codec_law: "valid v x \<Longrightarrow> codec_ok (enc x) (dec v) x"

sublocale codec \<subseteq> codec_upto enc dec valid "\<lambda>_ x. x"
  by unfold_locales (rule codec_law)

context codec
begin

lemma encodes: "valid v x \<Longrightarrow> \<exists>bs. emits (enc x) bs \<and> Encode (enc x) = Ok bs \<and> decodes (dec v) bs x"
  by (rule encodes_upto)

lemma roundtrip: "valid v x \<Longrightarrow> reads_back (enc x) (dec v) x"
  by (rule roundtrip_upto)

lemma injective:
  assumes "valid v x" and "valid v y" and "Encode (enc x) = Encode (enc y)"
  shows "x = y"
  using roundtrip [OF assms(1)] roundtrip [OF assms(2)] assms(3) by (auto simp: reads_back_def)

end

end
