(* ===== verification/Proto_Core.thy ===== *)
theory Proto_Core
  imports Codec
begin

text \<open>
  The parts of \<^verbatim>\<open>protocol/\<close> every message shares: messages and message sets (\<^verbatim>\<open>message.go\<close>,
  \<^verbatim>\<open>message_set.go\<close>), the request header and the framing of requests and responses
  (\<^verbatim>\<open>request_header.go\<close>, \<^verbatim>\<open>request.go\<close>, \<^verbatim>\<open>response.go\<close>), the API keys and supported versions
  (\<^verbatim>\<open>api_key.go\<close>, \<^verbatim>\<open>api_versions.go\<close>) and the ApiVersions exchange.
\<close>

section \<open>Message\<close>

record Message =
  msg_Crc :: int32
  msg_MagicByte :: int8
  msg_Attributes :: int8
  msg_Timestamp :: go_time
  msg_Key :: "bytes option"
  msg_Value :: "bytes option"

definition Message_body :: "Message \<Rightarrow> put list" where
  "Message_body m =
     [PutInt8 (msg_MagicByte m), PutInt8 (msg_Attributes m)] @
     (if 0 < sint (msg_MagicByte m) then [PutInt64 (millis_of_time (msg_Timestamp m))] else []) @
     [PutBytes (msg_Key m), PutBytes (msg_Value m)]"

definition Message_Encode :: "Message \<Rightarrow> put list" where
  "Message_Encode m = Push CRCField # Message_body m @ [Pop]"

definition Message_body_Decode :: "Message dec" where
  "Message_body_Decode =
     dbind dInt8 (\<lambda>magic.
     dbind dInt8 (\<lambda>attributes.
     dbind (if 0 < sint magic then dbind dInt64 (\<lambda>t. dret (time_of_millis t)) else dret zero_time) (\<lambda>ts.
     dbind dBytes (\<lambda>key.
     dbind dBytes (\<lambda>val.
     dret \<lparr>msg_Crc = 0, msg_MagicByte = magic, msg_Attributes = attributes, msg_Timestamp = ts,
           msg_Key = key, msg_Value = val\<rparr>)))))"

definition Message_Decode :: "Message dec" where
  "Message_Decode =
     dbind (dPush CRCField) (\<lambda>_. dbind Message_body_Decode (\<lambda>m. dbind dPop (\<lambda>_. dret m)))"

text \<open>\<^verbatim>\<open>Crc\<close> is never filled by \<^verbatim>\<open>Decode\<close>, and times are kept to the millisecond.\<close>

definition Message_valid :: "Message \<Rightarrow> bool" where
  "Message_valid m \<longleftrightarrow> msg_Crc m = 0 \<and> put_ok (PutBytes (msg_Key m)) \<and> put_ok (PutBytes (msg_Value m)) \<and>
     (if 0 < sint (msg_MagicByte m) then whole_time (msg_Timestamp m)
      else msg_Timestamp m = zero_time)"

lemma Message_body_ok: "Message_valid m \<Longrightarrow> codec_ok (Message_body m) Message_body_Decode m"
  by (cases m) (auto simp: Message_valid_def Message_body_def Message_body_Decode_def whole_time_def
      simp del: put_ok.simps intro!: wire_intros)

lemma Message_codec_ok: "Message_valid m \<Longrightarrow> codec_ok (Message_Encode m) Message_Decode m"
  unfolding Message_Encode_def Message_Decode_def by (intro codec_ok_frame Message_body_ok)

interpretation message: codec Message_Encode "\<lambda>_. Message_Decode" "\<lambda>_. Message_valid"
  by unfold_locales (rule Message_codec_ok)

lemma progress_Message_Decode: "progress 4 Message_Decode"
  unfolding Message_Decode_def Message_body_Decode_def
  by (intro progress_bind0 progress_prims progress_Bytes progress_ret) (auto intro!: progress_bind0)

section \<open>MessageSet\<close>

record MessageSet =
  ms_Offset :: int64
  ms_Size :: int32
  ms_Messages :: "Message list"
  ms_PartialTrailingMessages :: bool

definition MessageSet_Encode :: "MessageSet \<Rightarrow> put list" where
  "MessageSet_Encode ms =
     PutInt64 (ms_Offset ms) # Push SizeField # concat (map Message_Encode (ms_Messages ms)) @ [Pop]"

text \<open>The loop \<^verbatim>\<open>for d.remaining() > 0\<close>: the messages read and whether the last one was cut short.\<close>

function decode_messages :: "(Message list \<times> bool) dec" where
  "decode_messages d =
     (if remaining d \<le> 0 then (Ok ([], False), d)
      else case Message_Decode d of
        (Ok m, d') \<Rightarrow>
          (case decode_messages d' of
             (Ok (ms, partial), d'') \<Rightarrow> (Ok (m # ms, partial), d'')
           | r \<Rightarrow> r)
      | (Err e, d') \<Rightarrow>
          if e = ErrInsufficientData then (Ok ([], True), d') else (Err e, d')
      | (Panic, d') \<Rightarrow> (Panic, d'))"
  by pat_completeness auto
termination
proof (relation "measure (\<lambda>d. nat (remaining d))")
  fix d r d' m
  assume "\<not> remaining d \<le> 0" and "(r, d') = Message_Decode d" and "r = Ok m"
  with progressD [OF progress_Message_Decode, of d m d']
  show "(d', d) \<in> measure (\<lambda>d. nat (remaining d))"
    by (auto simp: remaining_def)
qed simp

declare decode_messages.simps [simp del]

definition MessageSet_Decode :: "MessageSet dec" where
  "MessageSet_Decode =
     dbind dInt64 (\<lambda>off.
     dbind dInt32 (\<lambda>size.
     dbind decode_messages (\<lambda>(ms, partial).
     dret \<lparr>ms_Offset = off, ms_Size = size, ms_Messages = ms, ms_PartialTrailingMessages = partial\<rparr>)))"

definition MessageSet_valid :: "MessageSet \<Rightarrow> bool" where
  "MessageSet_valid ms \<longleftrightarrow> (\<forall>m\<in>set (ms_Messages ms). Message_valid m) \<and>
     \<not> ms_PartialTrailingMessages ms \<and>
     ms_Size ms = word_of_nat (sum_list (map put_size (concat (map Message_Encode (ms_Messages ms)))))"

lemma decode_messages_all:
  assumes "\<forall>m\<in>set ms. decodes Message_Decode (g m) m \<and> g m \<noteq> []"
  shows "decode_messages \<lparr>dec_b = pre @ concat (map g ms), dec_off = length pre, dec_stack = stk\<rparr>
    = (Ok (ms, False), \<lparr>dec_b = pre @ concat (map g ms),
         dec_off = length (pre @ concat (map g ms)), dec_stack = stk\<rparr>)"
  using assms
proof (induction ms arbitrary: pre)
  case (Cons m ms)
  have "remaining \<lparr>dec_b = pre @ concat (map g (m # ms)), dec_off = length pre, dec_stack = stk\<rparr> > 0"
    using Cons.prems by (simp add: remaining_def add_pos_nonneg)
  moreover have "Message_Decode \<lparr>dec_b = pre @ concat (map g (m # ms)), dec_off = length pre, dec_stack = stk\<rparr>
      = (Ok m, \<lparr>dec_b = (pre @ g m) @ concat (map g ms), dec_off = length (pre @ g m), dec_stack = stk\<rparr>)"
    using Cons.prems decodesD [of Message_Decode "g m" m pre "concat (map g ms)" stk] by simp
  ultimately show ?case
    using Cons.IH [of "pre @ g m"] Cons.prems by (subst decode_messages.simps) simp
qed (subst decode_messages.simps, simp add: remaining_def)

lemma Message_size_pos: "0 < sum_list (map put_size (Message_Encode m))"
  by (simp add: Message_Encode_def)

lemma MessageSet_emits:
  assumes "\<forall>m\<in>set (ms_Messages ms). Message_valid m"
  obtains g where "\<forall>m\<in>set (ms_Messages ms). decodes Message_Decode (g m) m \<and> g m \<noteq> []"
    and "emits (MessageSet_Encode ms)
          (PutUint64 (ms_Offset ms) @ frame SizeField (concat (map g (ms_Messages ms))))"
    and "length (concat (map g (ms_Messages ms)))
          = sum_list (map put_size (concat (map Message_Encode (ms_Messages ms))))"
proof -
  have "\<forall>m\<in>set (ms_Messages ms). \<exists>bs. emits (Message_Encode m) bs \<and> decodes Message_Decode bs m"
    using assms message.encodes by blast
  then obtain g where g: "\<forall>m\<in>set (ms_Messages ms). emits (Message_Encode m) (g m) \<and> decodes Message_Decode (g m) m"
    by metis
  then have body: "emits (concat (map Message_Encode (ms_Messages ms))) (concat (map g (ms_Messages ms)))"
    by (intro emits_concat) auto
  have "\<forall>m\<in>set (ms_Messages ms). g m \<noteq> []"
    using g Message_size_pos emits_size by (metis length_0_conv less_irrefl)
  moreover have "emits (MessageSet_Encode ms)
      (put_bytes (PutInt64 (ms_Offset ms)) @ frame SizeField (concat (map g (ms_Messages ms))))"
    unfolding MessageSet_Encode_def by (intro emits_Cons emits_frame body) auto
  ultimately show thesis using that g emits_size [OF body] by auto
qed

lemma MessageSet_put_ok:
  "\<forall>m\<in>set (ms_Messages ms). Message_valid m \<Longrightarrow> \<forall>p\<in>set (MessageSet_Encode ms). put_ok p"
  using Message_codec_ok by (fastforce simp: MessageSet_Encode_def codec_ok_def)

lemma MessageSet_Decode_all:
  assumes "MessageSet_valid ms" and "\<forall>m\<in>set (ms_Messages ms). decodes Message_Decode (g m) m \<and> g m \<noteq> []"
    and "length (concat (map g (ms_Messages ms)))
          = sum_list (map put_size (concat (map Message_Encode (ms_Messages ms))))"
  shows "Decode MessageSet_Decode
     (PutUint64 (ms_Offset ms) @ frame SizeField (concat (map g (ms_Messages ms)))) = Ok ms"
proof -
  let ?b = "concat (map g (ms_Messages ms))" and ?o = "PutUint64 (ms_Offset ms)"
  let ?s = "PutUint32 (word_of_nat (length ?b))"
  note decodesD [OF decodes_Int64, of "[]" "ms_Offset ms" "?s @ ?b" "[]"]
    decodesD [OF decodes_Int32, of "?o" "word_of_nat (length ?b)" ?b "[]"]
    decode_messages_all [OF assms(2), of "?o @ ?s" "[]"]
  with assms(1,3) show ?thesis
    by (cases ms) (simp add: Decode_def NewDecoder_def MessageSet_Decode_def dbind_def dret_def
        frame_def MessageSet_valid_def del: length_concat)
qed

section \<open>RequestHeader, Request and Response\<close>

record RequestHeader =
  rh_Size :: int32
  rh_APIKey :: int16
  rh_APIVersion :: int16
  rh_CorrelationID :: int32
  rh_ClientID :: string

text \<open>\<^verbatim>\<open>RequestHeader.Encode\<close> panics where \<^verbatim>\<open>PutString\<close> fails.\<close>

definition RequestHeader_Encode :: "RequestHeader \<Rightarrow> (proto_error, put list) outcome" where
  "RequestHeader_Encode r =
     (if MaxInt16 < length (rh_ClientID r) then Panic
      else Ok [PutInt32 (rh_Size r), PutInt16 (rh_APIKey r), PutInt16 (rh_APIVersion r),
               PutInt32 (rh_CorrelationID r), PutString (rh_ClientID r)])"

definition RequestHeader_Decode :: "RequestHeader dec" where
  "RequestHeader_Decode =
     dbind dInt32 (\<lambda>size.
     dbind dInt16 (\<lambda>key.
     dbind dInt16 (\<lambda>version.
     dbind dInt32 (\<lambda>cid.
     dbind dString (\<lambda>client.
     dret \<lparr>rh_Size = size, rh_APIKey = key, rh_APIVersion = version, rh_CorrelationID = cid,
           rh_ClientID = client\<rparr>)))))"

text \<open>The \<^verbatim>\<open>Body\<close> interface of a request: its \<^verbatim>\<open>Key()\<close>, \<^verbatim>\<open>Version()\<close> and \<^verbatim>\<open>Encode\<close>.\<close>

record Body =
  body_Key :: int16
  body_Version :: int16
  body_Encode :: "put list"

record Request =
  req_CorrelationID :: int32
  req_ClientID :: string
  req_Body :: Body

definition Request_Encode :: "Request \<Rightarrow> put list" where
  "Request_Encode r =
     Push SizeField #
     ([PutInt16 (body_Key (req_Body r)), PutInt16 (body_Version (req_Body r)),
       PutInt32 (req_CorrelationID r), PutString (req_ClientID r)] @
      body_Encode (req_Body r)) @ [Pop]"

record Response =
  resp_CorrelationID :: int32
  resp_Body :: "put list"

definition Response_Encode :: "Response \<Rightarrow> put list" where
  "Response_Encode r = Push SizeField # (PutInt32 (resp_CorrelationID r) # resp_Body r) @ [Pop]"

text \<open>\<^verbatim>\<open>Response.Decode\<close> has a value receiver: the size and correlation id it reads are lost, and
  what remains is the body decoded behind them.\<close>

definition Response_Decode :: "'a dec \<Rightarrow> 'a dec" where
  "Response_Decode body = dbind dInt32 (\<lambda>_. dbind dInt32 (\<lambda>_. body))"

definition header_of :: "Request \<Rightarrow> nat \<Rightarrow> RequestHeader" where
  "header_of r n = \<lparr>rh_Size = word_of_nat n, rh_APIKey = body_Key (req_Body r),
     rh_APIVersion = body_Version (req_Body r), rh_CorrelationID = req_CorrelationID r,
     rh_ClientID = req_ClientID r\<rparr>"

definition request_head :: "Request \<Rightarrow> bytes" where
  "request_head r = PutUint16 (body_Key (req_Body r)) @ PutUint16 (body_Version (req_Body r)) @
     PutUint32 (req_CorrelationID r) @ string_field (req_ClientID r)"

lemma Request_emits:
  assumes "emits (body_Encode (req_Body r)) bs"
  shows "emits (Request_Encode r) (frame SizeField (request_head r @ bs))"
proof -
  have "emits ([PutInt16 (body_Key (req_Body r)), PutInt16 (body_Version (req_Body r)),
       PutInt32 (req_CorrelationID r), PutString (req_ClientID r)] @ body_Encode (req_Body r))
     (put_bytes (PutInt16 (body_Key (req_Body r))) @ put_bytes (PutInt16 (body_Version (req_Body r))) @
      put_bytes (PutInt32 (req_CorrelationID r)) @ put_bytes (PutString (req_ClientID r)) @ bs)"
    unfolding append_Cons append_Nil by (intro emits_Cons assms) auto
  then show ?thesis
    unfolding Request_Encode_def request_head_def by (intro emits_frame) simp
qed

lemma RequestHeader_decodes:
  assumes "length (req_ClientID r) \<le> MaxInt16"
  shows "decodes RequestHeader_Decode (PutUint32 (word_of_nat n) @ request_head r) (header_of r n)"
  unfolding RequestHeader_Decode_def request_head_def header_of_def
  by (rule decodes_bind [OF decodes_Int32] decodes_bind [OF decodes_Int16]
      decodes_bind_ret [OF decodes_String] assms refl)+

section \<open>ApiVersions\<close>

record APIVersion =
  av_APIKey :: int16
  av_MinVersion :: int16
  av_MaxVersion :: int16

definition ProduceKey :: int16 where "ProduceKey = 0"
definition FetchKey :: int16 where "FetchKey = 1"
definition OffsetsKey :: int16 where "OffsetsKey = 2"
definition MetadataKey :: int16 where "MetadataKey = 3"
definition LeaderAndISRKey :: int16 where "LeaderAndISRKey = 4"
definition StopReplicaKey :: int16 where "StopReplicaKey = 5"
definition UpdateMetadataKey :: int16 where "UpdateMetadataKey = 6"
definition ControlledShutdownKey :: int16 where "ControlledShutdownKey = 7"
definition OffsetCommitKey :: int16 where "OffsetCommitKey = 8"
definition OffsetFetchKey :: int16 where "OffsetFetchKey = 9"
definition FindCoordinatorKey :: int16 where "FindCoordinatorKey = 10"
definition JoinGroupKey :: int16 where "JoinGroupKey = 11"
definition HeartbeatKey :: int16 where "HeartbeatKey = 12"
definition LeaveGroupKey :: int16 where "LeaveGroupKey = 13"
definition SyncGroupKey :: int16 where "SyncGroupKey = 14"
definition DescribeGroupsKey :: int16 where "DescribeGroupsKey = 15"
definition ListGroupsKey :: int16 where "ListGroupsKey = 16"
definition SaslHandshakeKey :: int16 where "SaslHandshakeKey = 17"
definition APIVersionsKey :: int16 where "APIVersionsKey = 18"
definition CreateTopicsKey :: int16 where "CreateTopicsKey = 19"
definition DeleteTopicsKey :: int16 where "DeleteTopicsKey = 20"
definition DescribeConfigsKey :: int16 where "DescribeConfigsKey = 32"
definition AlterConfigsKey :: int16 where "AlterConfigsKey = 33"

lemmas api_key_defs = ProduceKey_def FetchKey_def OffsetsKey_def MetadataKey_def LeaderAndISRKey_def
  StopReplicaKey_def UpdateMetadataKey_def ControlledShutdownKey_def OffsetCommitKey_def
  OffsetFetchKey_def FindCoordinatorKey_def JoinGroupKey_def HeartbeatKey_def LeaveGroupKey_def
  SyncGroupKey_def DescribeGroupsKey_def ListGroupsKey_def SaslHandshakeKey_def APIVersionsKey_def
  CreateTopicsKey_def DeleteTopicsKey_def DescribeConfigsKey_def AlterConfigsKey_def

definition api_version :: "int16 \<Rightarrow> int16 \<Rightarrow> int16 \<Rightarrow> APIVersion" where
  "api_version k lo hi = \<lparr>av_APIKey = k, av_MinVersion = lo, av_MaxVersion = hi\<rparr>"

definition APIVersions :: "APIVersion list" where
  "APIVersions =
     [api_version ProduceKey 0 5, api_version FetchKey 0 3, api_version OffsetsKey 0 2,
      api_version MetadataKey 0 1, api_version LeaderAndISRKey 0 1, api_version StopReplicaKey 0 0,
      api_version FindCoordinatorKey 0 1, api_version JoinGroupKey 0 1, api_version HeartbeatKey 0 1,
      api_version LeaveGroupKey 0 1, api_version SyncGroupKey 0 1, api_version DescribeGroupsKey 0 1,
      api_version ListGroupsKey 0 1, api_version APIVersionsKey 0 1, api_version CreateTopicsKey 0 1,
      api_version DeleteTopicsKey 0 1]"

record APIVersionsRequest =
  avreq_APIVersion :: int16

definition APIVersionsRequest_Encode :: "APIVersionsRequest \<Rightarrow> put list" where
  "APIVersionsRequest_Encode c = []"

definition APIVersionsRequest_Decode :: "int16 \<Rightarrow> APIVersionsRequest dec" where
  "APIVersionsRequest_Decode version = dret \<lparr>avreq_APIVersion = version\<rparr>"

interpretation api_versions_request: codec APIVersionsRequest_Encode APIVersionsRequest_Decode
  "\<lambda>v c. avreq_APIVersion c = v"
proof unfold_locales
  fix v and c :: APIVersionsRequest
  assume "avreq_APIVersion c = v"
  then show "codec_ok (APIVersionsRequest_Encode c) (APIVersionsRequest_Decode v) c"
    by (cases c) (auto simp: APIVersionsRequest_Encode_def APIVersionsRequest_Decode_def intro!: wire_intros)
qed

record APIVersionsResponse =
  avres_APIVersion :: int16
  avres_ErrorCode :: int16
  avres_APIVersions :: "APIVersion list"
  avres_ThrottleTime :: duration

definition APIVersion_Encode :: "APIVersion \<Rightarrow> put list" where
  "APIVersion_Encode av =
     [PutInt16 (av_APIKey av), PutInt16 (av_MinVersion av), PutInt16 (av_MaxVersion av)]"

definition APIVersion_Decode :: "APIVersion dec" where
  "APIVersion_Decode =
     dbind dInt16 (\<lambda>key. dbind dInt16 (\<lambda>minv. dbind dInt16 (\<lambda>maxv.
     dret \<lparr>av_APIKey = key, av_MinVersion = minv, av_MaxVersion = maxv\<rparr>)))"

definition APIVersionsResponse_Encode :: "APIVersionsResponse \<Rightarrow> put list" where
  "APIVersionsResponse_Encode c =
     [PutInt16 (avres_ErrorCode c)] @
     PutArrayLength (length (avres_APIVersions c)) #
     concat (map APIVersion_Encode (avres_APIVersions c)) @
     (if 1 \<le> sint (avres_APIVersion c)
      then [PutInt32 (millis_of_duration (avres_ThrottleTime c))] else [])"

text \<open>\<^verbatim>\<open>Decode\<close> starts at the array: it does not read the error code \<^verbatim>\<open>Encode\<close> writes first.\<close>

definition APIVersionsResponse_Decode :: "int16 \<Rightarrow> APIVersionsResponse dec" where
  "APIVersionsResponse_Decode version =
     dbind (darray APIVersion_Decode) (\<lambda>avs.
     dbind (if 1 \<le> sint version then dbind dInt32 (\<lambda>t. dret (duration_of_millis t)) else dret 0) (\<lambda>throttle.
     dret \<lparr>avres_APIVersion = version, avres_ErrorCode = 0, avres_APIVersions = avs,
           avres_ThrottleTime = throttle\<rparr>))"

lemma APIVersion_codec_ok: "codec_ok (APIVersion_Encode av) APIVersion_Decode av"
  by (cases av) (auto simp: APIVersion_Encode_def APIVersion_Decode_def intro!: wire_intros)

lemma APIVersion_size [simp]: "0 < sum_list (map put_size (APIVersion_Encode av))"
  by (simp add: APIVersion_Encode_def)

text \<open>Behind the error code, the rest of the response is read back as it was written.\<close>

lemma APIVersionsResponse_tail_ok:
  assumes "avres_APIVersion c = v" and "avres_ErrorCode c = 0" and "length (avres_APIVersions c) \<le> 131070"
    and "if 1 \<le> sint v then whole_millis (avres_ThrottleTime c) else avres_ThrottleTime c = 0"
  shows "codec_ok (tl (APIVersionsResponse_Encode c)) (APIVersionsResponse_Decode v) c"
  using assms
  by (cases c) (auto simp: APIVersionsResponse_Encode_def APIVersionsResponse_Decode_def whole_millis_def
      APIVersion_codec_ok intro!: wire_intros)

text \<open>
  With the error code in front the array length is read from the error code and the upper half of
  the length that was written.
\<close>

lemma be_enc_add: "be_enc (k + m) n = be_enc k (n div 256 ^ m) @ be_enc m n"
  by (induction m arbitrary: n) (simp_all add: div_mult2_eq)

lemma PutUint_upper_zero:
  assumes "n < 65536"
  shows "PutUint16 0 @ PutUint32 (word_of_nat n) = PutUint32 0 @ PutUint16 (word_of_nat n)"
proof -
  have "unat (word_of_nat n :: int32) = n" and "unat (word_of_nat n :: int16) = n"
    using assms by (simp_all add: unat_of_nat)
  with assms be_enc_add [of 2 2 n] be_enc_add [of 2 2 0] show ?thesis
    by (simp add: PutUint16_def PutUint32_def)
qed

lemma APIVersionsResponse_misread:
  assumes "avres_APIVersion c = 0" and "avres_ErrorCode c = 0" and "length (avres_APIVersions c) < 65536"
  shows "\<exists>bs. Encode (APIVersionsResponse_Encode c) = Ok bs \<and> Decode (APIVersionsResponse_Decode 0) bs =
    Ok \<lparr>avres_APIVersion = 0, avres_ErrorCode = 0, avres_APIVersions = [], avres_ThrottleTime = 0\<rparr>"
proof -
  let ?n = "word_of_nat (length (avres_APIVersions c))"
  define g where "g av = PutUint16 (av_APIKey av) @ PutUint16 (av_MinVersion av) @ PutUint16 (av_MaxVersion av)"
    for av :: APIVersion
  have av: "emits (APIVersion_Encode av) (g av)" for av
    by (simp add: APIVersion_Encode_def g_def emits_def)
  let ?bs = "PutUint16 0 @ PutUint32 ?n @ concat (map g (avres_APIVersions c))"
  have "emits (APIVersionsResponse_Encode c) ?bs"
    using assms(1,2) emits_concat [of "avres_APIVersions c" APIVersion_Encode g] av
      emits_append [of "[PutInt16 0, PutArrayLength (length (avres_APIVersions c))]" "PutUint16 0 @ PutUint32 ?n"]
    by (simp add: APIVersionsResponse_Encode_def emits_def)
  then have "Encode (APIVersionsResponse_Encode c) = Ok ?bs"
    using assms by (intro Encode_emits) (auto simp: APIVersionsResponse_Encode_def APIVersion_Encode_def)
  moreover have "?bs = PutUint32 0 @ PutUint16 ?n @ concat (map g (avres_APIVersions c))"
    using PutUint_upper_zero [OF assms(3)] by (metis append.assoc)
  ultimately show ?thesis
    by (simp add: Decode_def APIVersionsResponse_Decode_def darray_def dbind_def dArrayLength_def NewDecoder_def
        remaining_def advance_def dret_def Let_def)
qed

end
