(* ===== verification/Proto_Data.thy ===== *)
theory Proto_Data
  imports Proto_Core
begin

text \<open>
  The data-plane messages: Produce, Fetch, Offsets and Metadata (\<^verbatim>\<open>protocol/produce_*.go\<close>,
  \<^verbatim>\<open>fetch_*.go\<close>, \<^verbatim>\<open>offsets_*.go\<close>, \<^verbatim>\<open>metadata_*.go\<close>).  Each has its record, its \<^verbatim>\<open>Encode\<close> as a call
  list, its \<^verbatim>\<open>Decode\<close>, a \<open>valid\<close> predicate (lengths the wire can carry, the fields the version has,
  times in whole milliseconds) and an interpretation of the codec contract.
\<close>

abbreviation ver_ge :: "int16 \<Rightarrow> int \<Rightarrow> bool" where
  "ver_ge v n \<equiv> n \<le> sint v"

definition dDuration :: "duration dec" where
  "dDuration = dbind dInt32 (\<lambda>t. dret (duration_of_millis t))"

definition dTime :: "go_time dec" where
  "dTime = dbind dInt64 (\<lambda>t. dret (time_of_millis t))"

lemma codec_ok_Duration [wire_intros]:
  "whole_millis t \<Longrightarrow> codec_ok ops (f t) y \<Longrightarrow>
   codec_ok (PutInt32 (millis_of_duration t) # ops) (dbind dDuration f) y"
  unfolding dDuration_def dbind_assoc dbind_dret
  by (rule codec_ok_Int32) (simp add: whole_millis_def)

lemma codec_ok_Time [wire_intros]:
  "whole_time t \<Longrightarrow> codec_ok ops (f t) y \<Longrightarrow>
   codec_ok (PutInt64 (millis_of_time t) # ops) (dbind dTime f) y"
  unfolding dTime_def dbind_assoc dbind_dret
  by (rule codec_ok_Int64) (simp add: whole_time_def)

section \<open>Produce\<close>

record Data =
  data_Partition :: int32
  data_RecordSet :: "bytes option"

record TopicData =
  td_Topic :: string
  td_Data :: "Data list"

record ProduceRequest =
  preq_APIVersion :: int16
  preq_TransactionalID :: "string option"
  preq_Acks :: int16
  preq_Timeout :: duration
  preq_TopicData :: "TopicData list"

definition Data_Encode :: "Data \<Rightarrow> put list" where
  "Data_Encode d = [PutInt32 (data_Partition d), PutBytes (data_RecordSet d)]"

definition TopicData_Encode :: "TopicData \<Rightarrow> put list" where
  "TopicData_Encode td =
     PutString (td_Topic td) # PutArrayLength (length (td_Data td)) # concat (map Data_Encode (td_Data td))"

definition ProduceRequest_Encode :: "ProduceRequest \<Rightarrow> put list" where
  "ProduceRequest_Encode r =
     (if ver_ge (preq_APIVersion r) 3 then [PutNullableString (preq_TransactionalID r)] else []) @
     [PutInt16 (preq_Acks r), PutInt32 (millis_of_duration (preq_Timeout r)),
      PutArrayLength (length (preq_TopicData r))] @
     concat (map TopicData_Encode (preq_TopicData r))"

definition Data_Decode :: "Data dec" where
  "Data_Decode =
     dbind dInt32 (\<lambda>p. dbind dBytes (\<lambda>rs. dret \<lparr>data_Partition = p, data_RecordSet = rs\<rparr>))"

definition TopicData_Decode :: "TopicData dec" where
  "TopicData_Decode =
     dbind dString (\<lambda>t. dbind (darray Data_Decode) (\<lambda>ds. dret \<lparr>td_Topic = t, td_Data = ds\<rparr>))"

definition ProduceRequest_Decode :: "int16 \<Rightarrow> ProduceRequest dec" where
  "ProduceRequest_Decode version =
     dbind (if ver_ge version 3 then dNullableString else dret None) (\<lambda>tid.
     dbind dInt16 (\<lambda>acks.
     dbind dDuration (\<lambda>timeout.
     dbind (darray TopicData_Decode) (\<lambda>tds.
     dret \<lparr>preq_APIVersion = version, preq_TransactionalID = tid, preq_Acks = acks,
           preq_Timeout = timeout, preq_TopicData = tds\<rparr>))))"

definition TopicData_valid :: "TopicData \<Rightarrow> bool" where
  "TopicData_valid td \<longleftrightarrow> length (td_Topic td) \<le> MaxInt16 \<and> length (td_Data td) \<le> 131070 \<and>
     (\<forall>d\<in>set (td_Data td). put_ok (PutBytes (data_RecordSet d)))"

definition ProduceRequest_valid :: "int16 \<Rightarrow> ProduceRequest \<Rightarrow> bool" where
  "ProduceRequest_valid v r \<longleftrightarrow> preq_APIVersion r = v \<and>
     put_ok (PutNullableString (preq_TransactionalID r)) \<and>
     (ver_ge v 3 \<or> preq_TransactionalID r = None) \<and> whole_millis (preq_Timeout r) \<and>
     length (preq_TopicData r) \<le> 131070 \<and> (\<forall>td\<in>set (preq_TopicData r). TopicData_valid td)"

lemma Data_size [simp]: "0 < sum_list (map put_size (Data_Encode d))"
  by (simp add: Data_Encode_def)

lemma TopicData_size [simp]: "0 < sum_list (map put_size (TopicData_Encode d))"
  by (simp add: TopicData_Encode_def)

lemma Data_codec_ok: "put_ok (PutBytes (data_RecordSet d)) \<Longrightarrow> codec_ok (Data_Encode d) Data_Decode d"
  by (cases d) (auto simp: Data_Encode_def Data_Decode_def simp del: put_ok.simps intro!: wire_intros)

lemma TopicData_codec_ok: "TopicData_valid td \<Longrightarrow> codec_ok (TopicData_Encode td) TopicData_Decode td"
  by (cases td) (auto simp: TopicData_valid_def TopicData_Encode_def TopicData_Decode_def
      simp del: put_ok.simps intro!: wire_intros Data_codec_ok)

interpretation produce_request: codec ProduceRequest_Encode ProduceRequest_Decode ProduceRequest_valid
proof unfold_locales
  fix v and r :: ProduceRequest
  assume "ProduceRequest_valid v r"
  then show "codec_ok (ProduceRequest_Encode r) (ProduceRequest_Decode v) r"
    by (cases r) (auto simp: ProduceRequest_valid_def ProduceRequest_Encode_def ProduceRequest_Decode_def
      simp del: put_ok.simps intro!: wire_intros TopicData_codec_ok)
qed

record ProducePartitionResponse =
  ppr_Partition :: int32
  ppr_ErrorCode :: int16
  ppr_BaseOffset :: int64
  ppr_LogAppendTime :: go_time
  ppr_LogStartOffset :: int64

record ProduceTopicResponse =
  ptr_Topic :: string
  ptr_PartitionResponses :: "ProducePartitionResponse list"

record ProduceResponse =
  pres_APIVersion :: int16
  pres_Responses :: "ProduceTopicResponse list"
  pres_ThrottleTime :: duration

definition ProducePartitionResponse_Encode :: "int16 \<Rightarrow> ProducePartitionResponse \<Rightarrow> put list" where
  "ProducePartitionResponse_Encode v p =
     [PutInt32 (ppr_Partition p), PutInt16 (ppr_ErrorCode p)] @
     (if ver_ge v 2
      then [PutInt64 (ppr_BaseOffset p), PutInt64 (millis_of_time (ppr_LogAppendTime p))] else []) @
     (if ver_ge v 5 then [PutInt64 (ppr_LogStartOffset p)] else [])"

definition ProduceTopicResponse_Encode :: "int16 \<Rightarrow> ProduceTopicResponse \<Rightarrow> put list" where
  "ProduceTopicResponse_Encode v r =
     PutString (ptr_Topic r) # PutArrayLength (length (ptr_PartitionResponses r)) #
     concat (map (ProducePartitionResponse_Encode v) (ptr_PartitionResponses r))"

definition ProduceResponse_Encode :: "ProduceResponse \<Rightarrow> put list" where
  "ProduceResponse_Encode r =
     PutArrayLength (length (pres_Responses r)) #
     concat (map (ProduceTopicResponse_Encode (pres_APIVersion r)) (pres_Responses r)) @
     (if ver_ge (pres_APIVersion r) 1
      then [PutInt32 (millis_of_duration (pres_ThrottleTime r))] else [])"

definition ProducePartitionResponse_Decode :: "int16 \<Rightarrow> ProducePartitionResponse dec" where
  "ProducePartitionResponse_Decode version =
     dbind dInt32 (\<lambda>p.
     dbind dInt16 (\<lambda>ec.
     dbind dInt64 (\<lambda>base.
     dbind (if ver_ge version 2 then dTime else dret zero_time) (\<lambda>lat.
     dbind (if ver_ge version 5 then dInt64 else dret 0) (\<lambda>lso.
     dret \<lparr>ppr_Partition = p, ppr_ErrorCode = ec, ppr_BaseOffset = base, ppr_LogAppendTime = lat,
           ppr_LogStartOffset = lso\<rparr>)))))"

definition ProduceTopicResponse_Decode :: "int16 \<Rightarrow> ProduceTopicResponse dec" where
  "ProduceTopicResponse_Decode version =
     dbind dString (\<lambda>t.
     dbind (darray (ProducePartitionResponse_Decode version)) (\<lambda>ps.
     dret \<lparr>ptr_Topic = t, ptr_PartitionResponses = ps\<rparr>))"

definition ProduceResponse_Decode :: "int16 \<Rightarrow> ProduceResponse dec" where
  "ProduceResponse_Decode version =
     dbind (darray (ProduceTopicResponse_Decode version)) (\<lambda>rs.
     dbind (if ver_ge version 1 then dDuration else dret 0) (\<lambda>throttle.
     dret \<lparr>pres_APIVersion = version, pres_Responses = rs, pres_ThrottleTime = throttle\<rparr>))"

text \<open>Below version 2 \<^verbatim>\<open>Encode\<close> leaves out the base offset that \<^verbatim>\<open>Decode\<close> always reads.\<close>

definition ProducePartitionResponse_valid :: "int16 \<Rightarrow> ProducePartitionResponse \<Rightarrow> bool" where
  "ProducePartitionResponse_valid v p \<longleftrightarrow> ver_ge v 2 \<and> whole_time (ppr_LogAppendTime p) \<and>
     (ver_ge v 5 \<or> ppr_LogStartOffset p = 0)"

definition ProduceTopicResponse_valid :: "int16 \<Rightarrow> ProduceTopicResponse \<Rightarrow> bool" where
  "ProduceTopicResponse_valid v r \<longleftrightarrow> length (ptr_Topic r) \<le> MaxInt16 \<and>
     length (ptr_PartitionResponses r) \<le> 131070 \<and>
     (\<forall>p\<in>set (ptr_PartitionResponses r). ProducePartitionResponse_valid v p)"

definition ProduceResponse_valid :: "int16 \<Rightarrow> ProduceResponse \<Rightarrow> bool" where
  "ProduceResponse_valid v r \<longleftrightarrow> pres_APIVersion r = v \<and> length (pres_Responses r) \<le> 131070 \<and>
     (\<forall>t\<in>set (pres_Responses r). ProduceTopicResponse_valid v t) \<and>
     (if ver_ge v 1 then whole_millis (pres_ThrottleTime r) else pres_ThrottleTime r = 0)"

lemma ProducePartitionResponse_size [simp]:
  "0 < sum_list (map put_size (ProducePartitionResponse_Encode v p))"
  by (simp add: ProducePartitionResponse_Encode_def)

lemma ProduceTopicResponse_size [simp]: "0 < sum_list (map put_size (ProduceTopicResponse_Encode v p))"
  by (simp add: ProduceTopicResponse_Encode_def)

lemma ProducePartitionResponse_codec_ok:
  "ProducePartitionResponse_valid v p \<Longrightarrow>
   codec_ok (ProducePartitionResponse_Encode v p) (ProducePartitionResponse_Decode v) p"
  by (cases p) (auto simp: ProducePartitionResponse_valid_def ProducePartitionResponse_Encode_def
      ProducePartitionResponse_Decode_def intro!: wire_intros)

lemma ProduceTopicResponse_codec_ok:
  "ProduceTopicResponse_valid v r \<Longrightarrow>
   codec_ok (ProduceTopicResponse_Encode v r) (ProduceTopicResponse_Decode v) r"
  by (cases r) (auto simp: ProduceTopicResponse_valid_def ProduceTopicResponse_Encode_def
      ProduceTopicResponse_Decode_def intro!: wire_intros ProducePartitionResponse_codec_ok)

interpretation produce_response: codec ProduceResponse_Encode ProduceResponse_Decode ProduceResponse_valid
proof unfold_locales
  fix v and r :: ProduceResponse
  assume "ProduceResponse_valid v r"
  then show "codec_ok (ProduceResponse_Encode r) (ProduceResponse_Decode v) r"
    by (cases r) (auto simp: ProduceResponse_valid_def ProduceResponse_Encode_def ProduceResponse_Decode_def
      split: if_splits intro!: wire_intros ProduceTopicResponse_codec_ok)
qed

section \<open>Fetch\<close>

record FetchPartition =
  fp_Partition :: int32
  fp_FetchOffset :: int64
  fp_MaxBytes :: int32

record FetchTopic =
  ft_Topic :: string
  ft_Partitions :: "FetchPartition list"

record FetchRequest =
  freq_APIVersion :: int16
  freq_ReplicaID :: int32
  freq_MaxWaitTime :: duration
  freq_MinBytes :: int32
  freq_MaxBytes :: int32
  freq_IsolationLevel :: int8
  freq_Topics :: "FetchTopic list"

definition FetchPartition_Encode :: "FetchPartition \<Rightarrow> put list" where
  "FetchPartition_Encode p =
     [PutInt32 (fp_Partition p), PutInt64 (fp_FetchOffset p), PutInt32 (fp_MaxBytes p)]"

definition FetchTopic_Encode :: "FetchTopic \<Rightarrow> put list" where
  "FetchTopic_Encode t =
     PutString (ft_Topic t) # PutArrayLength (length (ft_Partitions t)) #
     concat (map FetchPartition_Encode (ft_Partitions t))"

definition FetchRequest_Encode :: "FetchRequest \<Rightarrow> put list" where
  "FetchRequest_Encode r =
     (if freq_ReplicaID r = 0 then [PutInt32 (-1)] else [PutInt32 (freq_ReplicaID r)]) @
     [PutInt32 (millis_of_duration (freq_MaxWaitTime r)), PutInt32 (freq_MinBytes r)] @
     (if ver_ge (freq_APIVersion r) 3 then [PutInt32 (freq_MaxBytes r)] else []) @
     (if ver_ge (freq_APIVersion r) 4 then [PutInt8 (freq_IsolationLevel r)] else []) @
     [PutArrayLength (length (freq_Topics r))] @
     concat (map FetchTopic_Encode (freq_Topics r))"

definition FetchPartition_Decode :: "FetchPartition dec" where
  "FetchPartition_Decode =
     dbind dInt32 (\<lambda>p. dbind dInt64 (\<lambda>off. dbind dInt32 (\<lambda>mx.
     dret \<lparr>fp_Partition = p, fp_FetchOffset = off, fp_MaxBytes = mx\<rparr>)))"

definition FetchTopic_Decode :: "FetchTopic dec" where
  "FetchTopic_Decode =
     dbind dString (\<lambda>t. dbind (darray FetchPartition_Decode) (\<lambda>ps.
     dret \<lparr>ft_Topic = t, ft_Partitions = ps\<rparr>))"

definition FetchRequest_Decode :: "int16 \<Rightarrow> FetchRequest dec" where
  "FetchRequest_Decode version =
     dbind dInt32 (\<lambda>replica.
     dbind dDuration (\<lambda>wait.
     dbind dInt32 (\<lambda>minb.
     dbind (if ver_ge version 3 then dInt32 else dret 0) (\<lambda>maxb.
     dbind (if ver_ge version 4 then dInt8 else dret 0) (\<lambda>iso.
     dbind (darray FetchTopic_Decode) (\<lambda>ts.
     dret \<lparr>freq_APIVersion = version, freq_ReplicaID = replica, freq_MaxWaitTime = wait,
           freq_MinBytes = minb, freq_MaxBytes = maxb, freq_IsolationLevel = iso, freq_Topics = ts\<rparr>))))))"

definition FetchTopic_valid :: "FetchTopic \<Rightarrow> bool" where
  "FetchTopic_valid t \<longleftrightarrow> length (ft_Topic t) \<le> MaxInt16 \<and> length (ft_Partitions t) \<le> 131070"

definition FetchRequest_valid :: "int16 \<Rightarrow> FetchRequest \<Rightarrow> bool" where
  "FetchRequest_valid v r \<longleftrightarrow> freq_APIVersion r = v \<and> whole_millis (freq_MaxWaitTime r) \<and>
     (ver_ge v 3 \<or> freq_MaxBytes r = 0) \<and> (ver_ge v 4 \<or> freq_IsolationLevel r = 0) \<and>
     length (freq_Topics r) \<le> 131070 \<and> (\<forall>t\<in>set (freq_Topics r). FetchTopic_valid t)"

text \<open>Replica 0 is sent as -1, the id of a client.\<close>

definition FetchRequest_keep :: "FetchRequest \<Rightarrow> FetchRequest" where
  "FetchRequest_keep r = (if freq_ReplicaID r = 0 then r\<lparr>freq_ReplicaID := -1\<rparr> else r)"

lemma FetchPartition_size [simp]: "0 < sum_list (map put_size (FetchPartition_Encode p))"
  by (simp add: FetchPartition_Encode_def)

lemma FetchTopic_size [simp]: "0 < sum_list (map put_size (FetchTopic_Encode p))"
  by (simp add: FetchTopic_Encode_def)

lemma FetchPartition_codec_ok: "codec_ok (FetchPartition_Encode p) FetchPartition_Decode p"
  by (cases p) (auto simp: FetchPartition_Encode_def FetchPartition_Decode_def intro!: wire_intros)

lemma FetchTopic_codec_ok: "FetchTopic_valid t \<Longrightarrow> codec_ok (FetchTopic_Encode t) FetchTopic_Decode t"
  by (cases t) (auto simp: FetchTopic_valid_def FetchTopic_Encode_def FetchTopic_Decode_def
      intro!: wire_intros FetchPartition_codec_ok)

interpretation fetch_request: codec_upto FetchRequest_Encode FetchRequest_Decode FetchRequest_valid
  "\<lambda>_. FetchRequest_keep"
proof unfold_locales
  fix v and r :: FetchRequest
  assume "FetchRequest_valid v r"
  then show "codec_ok (FetchRequest_Encode r) (FetchRequest_Decode v) (FetchRequest_keep r)"
    by (cases r) (auto simp: FetchRequest_valid_def FetchRequest_Encode_def FetchRequest_Decode_def
      FetchRequest_keep_def intro!: wire_intros FetchTopic_codec_ok)
qed

record AbortedTransaction =
  at_ProducerID :: int64
  at_FirstOffset :: int64

record FetchPartitionResponse =
  fpr_Partition :: int32
  fpr_ErrorCode :: int16
  fpr_HighWatermark :: int64
  fpr_LastStableOffset :: int64
  fpr_AbortedTransactions :: "AbortedTransaction list"
  fpr_RecordSet :: "bytes option"

record FetchTopicResponse =
  ftr_Topic :: string
  ftr_PartitionResponses :: "FetchPartitionResponse list"

record FetchResponse =
  fres_APIVersion :: int16
  fres_ThrottleTime :: duration
  fres_Responses :: "FetchTopicResponse list"

definition AbortedTransaction_Encode :: "AbortedTransaction \<Rightarrow> put list" where
  "AbortedTransaction_Encode t = [PutInt64 (at_ProducerID t), PutInt64 (at_FirstOffset t)]"

definition AbortedTransaction_Decode :: "AbortedTransaction dec" where
  "AbortedTransaction_Decode =
     dbind dInt64 (\<lambda>p. dbind dInt64 (\<lambda>off. dret \<lparr>at_ProducerID = p, at_FirstOffset = off\<rparr>))"

definition FetchPartitionResponse_Encode :: "int16 \<Rightarrow> FetchPartitionResponse \<Rightarrow> put list" where
  "FetchPartitionResponse_Encode version r =
     [PutInt32 (fpr_Partition r), PutInt16 (fpr_ErrorCode r), PutInt64 (fpr_HighWatermark r)] @
     (if ver_ge version 4
      then PutInt64 (fpr_LastStableOffset r) # PutArrayLength (length (fpr_AbortedTransactions r)) #
           concat (map AbortedTransaction_Encode (fpr_AbortedTransactions r)) else []) @
     [PutBytes (fpr_RecordSet r)]"

definition FetchPartitionResponse_Decode :: "int16 \<Rightarrow> FetchPartitionResponse dec" where
  "FetchPartitionResponse_Decode version =
     dbind dInt32 (\<lambda>p.
     dbind dInt16 (\<lambda>ec.
     dbind dInt64 (\<lambda>hw.
     dbind (if ver_ge version 4
            then dbind dInt64 (\<lambda>lso. dbind (darray AbortedTransaction_Decode) (\<lambda>ts. dret (lso, ts)))
            else dret (0, [])) (\<lambda>(lso, ts).
     dbind dBytes (\<lambda>rs.
     dret \<lparr>fpr_Partition = p, fpr_ErrorCode = ec, fpr_HighWatermark = hw, fpr_LastStableOffset = lso,
           fpr_AbortedTransactions = ts, fpr_RecordSet = rs\<rparr>)))))"

definition FetchTopicResponse_Encode :: "int16 \<Rightarrow> FetchTopicResponse \<Rightarrow> put list" where
  "FetchTopicResponse_Encode version r =
     PutString (ftr_Topic r) # PutArrayLength (length (ftr_PartitionResponses r)) #
     concat (map (FetchPartitionResponse_Encode version) (ftr_PartitionResponses r))"

definition FetchTopicResponse_Decode :: "int16 \<Rightarrow> FetchTopicResponse dec" where
  "FetchTopicResponse_Decode version =
     dbind dString (\<lambda>t. dbind (darray (FetchPartitionResponse_Decode version)) (\<lambda>ps.
     dret \<lparr>ftr_Topic = t, ftr_PartitionResponses = ps\<rparr>))"

definition FetchResponse_Encode :: "FetchResponse \<Rightarrow> put list" where
  "FetchResponse_Encode r =
     (if ver_ge (fres_APIVersion r) 1
      then [PutInt32 (millis_of_duration (fres_ThrottleTime r))] else []) @
     [PutArrayLength (length (fres_Responses r))] @
     concat (map (FetchTopicResponse_Encode (fres_APIVersion r)) (fres_Responses r))"

definition FetchResponse_Decode :: "int16 \<Rightarrow> FetchResponse dec" where
  "FetchResponse_Decode version =
     dbind (if ver_ge version 1 then dDuration else dret 0) (\<lambda>throttle.
     dbind (darray (FetchTopicResponse_Decode version)) (\<lambda>rs.
     dret \<lparr>fres_APIVersion = version, fres_ThrottleTime = throttle, fres_Responses = rs\<rparr>))"

definition FetchPartitionResponse_valid :: "int16 \<Rightarrow> FetchPartitionResponse \<Rightarrow> bool" where
  "FetchPartitionResponse_valid v r \<longleftrightarrow> put_ok (PutBytes (fpr_RecordSet r)) \<and>
     length (fpr_AbortedTransactions r) \<le> 131070 \<and>
     (ver_ge v 4 \<or> fpr_LastStableOffset r = 0 \<and> fpr_AbortedTransactions r = [])"

definition FetchTopicResponse_valid :: "int16 \<Rightarrow> FetchTopicResponse \<Rightarrow> bool" where
  "FetchTopicResponse_valid v r \<longleftrightarrow> length (ftr_Topic r) \<le> MaxInt16 \<and>
     length (ftr_PartitionResponses r) \<le> 131070 \<and>
     (\<forall>p\<in>set (ftr_PartitionResponses r). FetchPartitionResponse_valid v p)"

definition FetchResponse_valid :: "int16 \<Rightarrow> FetchResponse \<Rightarrow> bool" where
  "FetchResponse_valid v r \<longleftrightarrow> fres_APIVersion r = v \<and> length (fres_Responses r) \<le> 131070 \<and>
     (\<forall>t\<in>set (fres_Responses r). FetchTopicResponse_valid v t) \<and>
     (if ver_ge v 1 then whole_millis (fres_ThrottleTime r) else fres_ThrottleTime r = 0)"

lemma AbortedTransaction_size [simp]: "0 < sum_list (map put_size (AbortedTransaction_Encode p))"
  by (simp add: AbortedTransaction_Encode_def)

lemma FetchPartitionResponse_size [simp]:
  "0 < sum_list (map put_size (FetchPartitionResponse_Encode v p))"
  by (simp add: FetchPartitionResponse_Encode_def)

lemma FetchTopicResponse_size [simp]: "0 < sum_list (map put_size (FetchTopicResponse_Encode v p))"
  by (simp add: FetchTopicResponse_Encode_def)

lemma AbortedTransaction_codec_ok: "codec_ok (AbortedTransaction_Encode t) AbortedTransaction_Decode t"
  by (cases t) (auto simp: AbortedTransaction_Encode_def AbortedTransaction_Decode_def intro!: wire_intros)

lemma FetchPartitionResponse_codec_ok:
  "FetchPartitionResponse_valid v r \<Longrightarrow>
   codec_ok (FetchPartitionResponse_Encode v r) (FetchPartitionResponse_Decode v) r"
  by (cases r) (auto simp: FetchPartitionResponse_valid_def FetchPartitionResponse_Encode_def
      FetchPartitionResponse_Decode_def simp del: put_ok.simps
      intro!: wire_intros AbortedTransaction_codec_ok)

lemma FetchTopicResponse_codec_ok:
  "FetchTopicResponse_valid v r \<Longrightarrow>
   codec_ok (FetchTopicResponse_Encode v r) (FetchTopicResponse_Decode v) r"
  by (cases r) (auto simp: FetchTopicResponse_valid_def FetchTopicResponse_Encode_def
      FetchTopicResponse_Decode_def intro!: wire_intros FetchPartitionResponse_codec_ok)

interpretation fetch_response: codec FetchResponse_Encode FetchResponse_Decode FetchResponse_valid
proof unfold_locales
  fix v and r :: FetchResponse
  assume "FetchResponse_valid v r"
  then show "codec_ok (FetchResponse_Encode r) (FetchResponse_Decode v) r"
    by (cases r) (auto simp: FetchResponse_valid_def FetchResponse_Encode_def FetchResponse_Decode_def
      split: if_splits intro!: wire_intros FetchTopicResponse_codec_ok)
qed

section \<open>Offsets\<close>

record OffsetsPartition =
  op_Partition :: int32
  op_Timestamp :: int64
  op_MaxNumOffsets :: int32

record OffsetsTopic =
  ot_Topic :: string
  ot_Partitions :: "OffsetsPartition list"

record OffsetsRequest =
  oreq_APIVersion :: int16
  oreq_ReplicaID :: int32
  oreq_IsolationLevel :: int8
  oreq_Topics :: "OffsetsTopic list"

definition OffsetsPartition_Encode :: "int16 \<Rightarrow> OffsetsPartition \<Rightarrow> put list" where
  "OffsetsPartition_Encode v p =
     [PutInt32 (op_Partition p), PutInt64 (op_Timestamp p)] @
     (if v = 0 then [PutInt32 (op_MaxNumOffsets p)] else [])"

definition OffsetsTopic_Encode :: "int16 \<Rightarrow> OffsetsTopic \<Rightarrow> put list" where
  "OffsetsTopic_Encode v t =
     PutString (ot_Topic t) # PutArrayLength (length (ot_Partitions t)) #
     concat (map (OffsetsPartition_Encode v) (ot_Partitions t))"

definition OffsetsRequest_Encode :: "OffsetsRequest \<Rightarrow> put list" where
  "OffsetsRequest_Encode r =
     [PutInt32 (-1)] @
     (if ver_ge (oreq_APIVersion r) 2 then [PutInt8 (oreq_IsolationLevel r)] else []) @
     [PutArrayLength (length (oreq_Topics r))] @
     concat (map (OffsetsTopic_Encode (oreq_APIVersion r)) (oreq_Topics r))"

definition OffsetsPartition_Decode :: "int16 \<Rightarrow> OffsetsPartition dec" where
  "OffsetsPartition_Decode version =
     dbind dInt32 (\<lambda>p. dbind dInt64 (\<lambda>ts.
     dbind (if version = 0 then dInt32 else dret 0) (\<lambda>mx.
     dret \<lparr>op_Partition = p, op_Timestamp = ts, op_MaxNumOffsets = mx\<rparr>)))"

definition OffsetsTopic_Decode :: "int16 \<Rightarrow> OffsetsTopic dec" where
  "OffsetsTopic_Decode version =
     dbind dString (\<lambda>t. dbind (darray (OffsetsPartition_Decode version)) (\<lambda>ps.
     dret \<lparr>ot_Topic = t, ot_Partitions = ps\<rparr>))"

definition OffsetsRequest_Decode :: "int16 \<Rightarrow> OffsetsRequest dec" where
  "OffsetsRequest_Decode version =
     dbind dInt32 (\<lambda>replica.
     dbind (if ver_ge version 2 then dInt8 else dret 0) (\<lambda>iso.
     dbind (darray (OffsetsTopic_Decode version)) (\<lambda>ts.
     dret \<lparr>oreq_APIVersion = version, oreq_ReplicaID = replica, oreq_IsolationLevel = iso,
           oreq_Topics = ts\<rparr>)))"

definition OffsetsTopic_valid :: "int16 \<Rightarrow> OffsetsTopic \<Rightarrow> bool" where
  "OffsetsTopic_valid v t \<longleftrightarrow> length (ot_Topic t) \<le> MaxInt16 \<and> length (ot_Partitions t) \<le> 131070 \<and>
     (v = 0 \<or> (\<forall>p\<in>set (ot_Partitions t). op_MaxNumOffsets p = 0))"

definition OffsetsRequest_valid :: "int16 \<Rightarrow> OffsetsRequest \<Rightarrow> bool" where
  "OffsetsRequest_valid v r \<longleftrightarrow> oreq_APIVersion r = v \<and> (ver_ge v 2 \<or> oreq_IsolationLevel r = 0) \<and>
     length (oreq_Topics r) \<le> 131070 \<and> (\<forall>t\<in>set (oreq_Topics r). OffsetsTopic_valid v t)"

lemma OffsetsPartition_size [simp]: "0 < sum_list (map put_size (OffsetsPartition_Encode v p))"
  by (simp add: OffsetsPartition_Encode_def)

lemma OffsetsTopic_size [simp]: "0 < sum_list (map put_size (OffsetsTopic_Encode v p))"
  by (simp add: OffsetsTopic_Encode_def)

lemma OffsetsPartition_codec_ok:
  "v = 0 \<or> op_MaxNumOffsets p = 0 \<Longrightarrow> codec_ok (OffsetsPartition_Encode v p) (OffsetsPartition_Decode v) p"
  by (cases p) (auto simp: OffsetsPartition_Encode_def OffsetsPartition_Decode_def intro!: wire_intros)

lemma OffsetsTopic_codec_ok:
  "OffsetsTopic_valid v t \<Longrightarrow> codec_ok (OffsetsTopic_Encode v t) (OffsetsTopic_Decode v) t"
  by (cases t) (auto simp: OffsetsTopic_valid_def OffsetsTopic_Encode_def OffsetsTopic_Decode_def
      intro!: wire_intros OffsetsPartition_codec_ok)

text \<open>The replica id of an offsets request is always sent as -1.\<close>

interpretation offsets_request: codec_upto OffsetsRequest_Encode OffsetsRequest_Decode OffsetsRequest_valid
  "\<lambda>_ r. r\<lparr>oreq_ReplicaID := -1\<rparr>"
proof unfold_locales
  fix v and r :: OffsetsRequest
  assume "OffsetsRequest_valid v r"
  then show "codec_ok (OffsetsRequest_Encode r) (OffsetsRequest_Decode v) (r\<lparr>oreq_ReplicaID := -1\<rparr>)"
    by (cases r) (auto simp: OffsetsRequest_valid_def OffsetsRequest_Encode_def OffsetsRequest_Decode_def
      intro!: wire_intros OffsetsTopic_codec_ok)
qed

record PartitionResponse =
  opr_Partition :: int32
  opr_ErrorCode :: int16
  opr_Timestamp :: go_time
  opr_Offsets :: "int64 list"
  opr_Offset :: int64

record OffsetResponse =
  ors_Topic :: string
  ors_PartitionResponses :: "PartitionResponse list"

record OffsetsResponse =
  ores_APIVersion :: int16
  ores_ThrottleTime :: duration
  ores_Responses :: "OffsetResponse list"

definition PartitionResponse_Encode :: "int16 \<Rightarrow> PartitionResponse \<Rightarrow> put list" where
  "PartitionResponse_Encode v p =
     [PutInt32 (opr_Partition p), PutInt16 (opr_ErrorCode p)] @
     (if v = 0 then [PutInt64Array (opr_Offsets p)] else []) @
     (if ver_ge v 1
      then [PutInt64 (millis_of_time (opr_Timestamp p)), PutInt64 (opr_Offset p)] else [])"

definition OffsetResponse_Encode :: "int16 \<Rightarrow> OffsetResponse \<Rightarrow> put list" where
  "OffsetResponse_Encode v r =
     PutString (ors_Topic r) # PutArrayLength (length (ors_PartitionResponses r)) #
     concat (map (PartitionResponse_Encode v) (ors_PartitionResponses r))"

definition OffsetsResponse_Encode :: "OffsetsResponse \<Rightarrow> put list" where
  "OffsetsResponse_Encode r =
     (if ver_ge (ores_APIVersion r) 2
      then [PutInt32 (millis_of_duration (ores_ThrottleTime r))] else []) @
     [PutArrayLength (length (ores_Responses r))] @
     concat (map (OffsetResponse_Encode (ores_APIVersion r)) (ores_Responses r))"

definition PartitionResponse_Decode :: "int16 \<Rightarrow> PartitionResponse dec" where
  "PartitionResponse_Decode version =
     dbind dInt32 (\<lambda>p. dbind dInt16 (\<lambda>ec.
     dbind (if version = 0 then dInt64Array else dret []) (\<lambda>offs.
     dbind (if ver_ge version 1 then dbind dTime (\<lambda>t. dbind dInt64 (\<lambda>off. dret (t, off)))
            else dret (zero_time, 0)) (\<lambda>(t, off).
     dret \<lparr>opr_Partition = p, opr_ErrorCode = ec, opr_Timestamp = t, opr_Offsets = offs,
           opr_Offset = off\<rparr>))))"

definition OffsetResponse_Decode :: "int16 \<Rightarrow> OffsetResponse dec" where
  "OffsetResponse_Decode version =
     dbind dString (\<lambda>t. dbind (darray (PartitionResponse_Decode version)) (\<lambda>ps.
     dret \<lparr>ors_Topic = t, ors_PartitionResponses = ps\<rparr>))"

text \<open>\<^verbatim>\<open>OffsetsResponse.Decode\<close> does not store the version it is given.\<close>

definition OffsetsResponse_Decode :: "int16 \<Rightarrow> OffsetsResponse dec" where
  "OffsetsResponse_Decode version =
     dbind (if ver_ge version 2 then dDuration else dret 0) (\<lambda>throttle.
     dbind (darray (OffsetResponse_Decode version)) (\<lambda>rs.
     dret \<lparr>ores_APIVersion = 0, ores_ThrottleTime = throttle, ores_Responses = rs\<rparr>))"

definition PartitionResponse_valid :: "int16 \<Rightarrow> PartitionResponse \<Rightarrow> bool" where
  "PartitionResponse_valid v p \<longleftrightarrow>
     (if v = 0 then length (opr_Offsets p) \<le> MaxInt32 else opr_Offsets p = []) \<and>
     (if ver_ge v 1 then whole_time (opr_Timestamp p)
      else opr_Timestamp p = zero_time \<and> opr_Offset p = 0)"

definition OffsetResponse_valid :: "int16 \<Rightarrow> OffsetResponse \<Rightarrow> bool" where
  "OffsetResponse_valid v r \<longleftrightarrow> length (ors_Topic r) \<le> MaxInt16 \<and>
     length (ors_PartitionResponses r) \<le> 131070 \<and>
     (\<forall>p\<in>set (ors_PartitionResponses r). PartitionResponse_valid v p)"

definition OffsetsResponse_valid :: "int16 \<Rightarrow> OffsetsResponse \<Rightarrow> bool" where
  "OffsetsResponse_valid v r \<longleftrightarrow> ores_APIVersion r = v \<and> length (ores_Responses r) \<le> 131070 \<and>
     (\<forall>t\<in>set (ores_Responses r). OffsetResponse_valid v t) \<and>
     (if ver_ge v 2 then whole_millis (ores_ThrottleTime r) else ores_ThrottleTime r = 0)"

lemma PartitionResponse_size [simp]: "0 < sum_list (map put_size (PartitionResponse_Encode v p))"
  by (simp add: PartitionResponse_Encode_def)

lemma OffsetResponse_size [simp]: "0 < sum_list (map put_size (OffsetResponse_Encode v p))"
  by (simp add: OffsetResponse_Encode_def)

lemma PartitionResponse_codec_ok:
  "PartitionResponse_valid v p \<Longrightarrow> codec_ok (PartitionResponse_Encode v p) (PartitionResponse_Decode v) p"
  by (cases p) (auto simp: PartitionResponse_valid_def PartitionResponse_Encode_def
      PartitionResponse_Decode_def split: if_splits intro!: wire_intros)

lemma OffsetResponse_codec_ok:
  "OffsetResponse_valid v r \<Longrightarrow> codec_ok (OffsetResponse_Encode v r) (OffsetResponse_Decode v) r"
  by (cases r) (auto simp: OffsetResponse_valid_def OffsetResponse_Encode_def OffsetResponse_Decode_def
      intro!: wire_intros PartitionResponse_codec_ok)

interpretation offsets_response: codec_upto OffsetsResponse_Encode OffsetsResponse_Decode
  OffsetsResponse_valid "\<lambda>_ r. r\<lparr>ores_APIVersion := 0\<rparr>"
proof unfold_locales
  fix v and r :: OffsetsResponse
  assume "OffsetsResponse_valid v r"
  then show "codec_ok (OffsetsResponse_Encode r) (OffsetsResponse_Decode v) (r\<lparr>ores_APIVersion := 0\<rparr>)"
    by (cases r) (auto simp: OffsetsResponse_valid_def OffsetsResponse_Encode_def OffsetsResponse_Decode_def
      split: if_splits intro!: wire_intros OffsetResponse_codec_ok)
qed

section \<open>Metadata\<close>

record MetadataRequest =
  mreq_APIVersion :: int16
  mreq_Topics :: "string list"
  mreq_AllowAutoTopicCreation :: bool

definition MetadataRequest_Encode :: "MetadataRequest \<Rightarrow> put list" where
  "MetadataRequest_Encode r =
     [PutStringArray (mreq_Topics r)] @
     (if ver_ge (mreq_APIVersion r) 4 then [PutBool (mreq_AllowAutoTopicCreation r)] else [])"

definition MetadataRequest_Decode :: "int16 \<Rightarrow> MetadataRequest dec" where
  "MetadataRequest_Decode version =
     dbind dStringArray (\<lambda>ts.
     dbind (if ver_ge version 4 then dBool else dret False) (\<lambda>auto.
     dret \<lparr>mreq_APIVersion = version, mreq_Topics = ts, mreq_AllowAutoTopicCreation = auto\<rparr>))"

definition MetadataRequest_valid :: "int16 \<Rightarrow> MetadataRequest \<Rightarrow> bool" where
  "MetadataRequest_valid v r \<longleftrightarrow> mreq_APIVersion r = v \<and> put_ok (PutStringArray (mreq_Topics r)) \<and>
     (ver_ge v 4 \<or> \<not> mreq_AllowAutoTopicCreation r)"

interpretation metadata_request: codec MetadataRequest_Encode MetadataRequest_Decode MetadataRequest_valid
proof unfold_locales
  fix v and r :: MetadataRequest
  assume "MetadataRequest_valid v r"
  then show "codec_ok (MetadataRequest_Encode r) (MetadataRequest_Decode v) r"
    by (cases r) (auto simp: MetadataRequest_valid_def MetadataRequest_Encode_def MetadataRequest_Decode_def
      simp del: put_ok.simps intro!: wire_intros)
qed

record Broker =
  brk_NodeID :: int32
  brk_Host :: string
  brk_Port :: int32

record PartitionMetadata =
  pm_PartitionErrorCode :: int16
  pm_PartitionID :: int32
  pm_Leader :: int32
  pm_Replicas :: "int32 list"
  pm_ISR :: "int32 list"

record TopicMetadata =
  tm_TopicErrorCode :: int16
  tm_Topic :: string
  tm_PartitionMetadata :: "PartitionMetadata list"

record MetadataResponse =
  mres_APIVersion :: int16
  mres_Brokers :: "Broker list"
  mres_ControllerID :: int32
  mres_TopicMetadata :: "TopicMetadata list"

definition Broker_Encode :: "Broker \<Rightarrow> put list" where
  "Broker_Encode b = [PutInt32 (brk_NodeID b), PutString (brk_Host b), PutInt32 (brk_Port b)]"

definition PartitionMetadata_Encode :: "PartitionMetadata \<Rightarrow> put list" where
  "PartitionMetadata_Encode p =
     [PutInt16 (pm_PartitionErrorCode p), PutInt32 (pm_PartitionID p), PutInt32 (pm_Leader p),
      PutInt32Array (pm_Replicas p), PutInt32Array (pm_ISR p)]"

definition TopicMetadata_Encode :: "TopicMetadata \<Rightarrow> put list" where
  "TopicMetadata_Encode t =
     [PutInt16 (tm_TopicErrorCode t), PutString (tm_Topic t),
      PutArrayLength (length (tm_PartitionMetadata t))] @
     concat (map PartitionMetadata_Encode (tm_PartitionMetadata t))"

definition MetadataResponse_Encode :: "MetadataResponse \<Rightarrow> put list" where
  "MetadataResponse_Encode r =
     PutArrayLength (length (mres_Brokers r)) # concat (map Broker_Encode (mres_Brokers r)) @
     (if ver_ge (mres_APIVersion r) 1 then [PutInt32 (mres_ControllerID r)] else []) @
     [PutArrayLength (length (mres_TopicMetadata r))] @
     concat (map TopicMetadata_Encode (mres_TopicMetadata r))"

definition Broker_Decode :: "Broker dec" where
  "Broker_Decode =
     dbind dInt32 (\<lambda>n. dbind dString (\<lambda>h. dbind dInt32 (\<lambda>p.
     dret \<lparr>brk_NodeID = n, brk_Host = h, brk_Port = p\<rparr>)))"

text \<open>The error of the last array, the ISR, is dropped.\<close>

definition PartitionMetadata_Decode :: "PartitionMetadata dec" where
  "PartitionMetadata_Decode =
     dbind dInt16 (\<lambda>ec. dbind dInt32 (\<lambda>pid. dbind dInt32 (\<lambda>leader.
     dbind dInt32Array (\<lambda>rs. dbind (dignore dInt32Array []) (\<lambda>isr.
     dret \<lparr>pm_PartitionErrorCode = ec, pm_PartitionID = pid, pm_Leader = leader, pm_Replicas = rs,
           pm_ISR = isr\<rparr>)))))"

definition TopicMetadata_Decode :: "TopicMetadata dec" where
  "TopicMetadata_Decode =
     dbind dInt16 (\<lambda>ec. dbind dString (\<lambda>t. dbind (darray PartitionMetadata_Decode) (\<lambda>ps.
     dret \<lparr>tm_TopicErrorCode = ec, tm_Topic = t, tm_PartitionMetadata = ps\<rparr>)))"

definition MetadataResponse_Decode :: "int16 \<Rightarrow> MetadataResponse dec" where
  "MetadataResponse_Decode version =
     dbind (darray Broker_Decode) (\<lambda>bs.
     dbind (if ver_ge version 1 then dInt32 else dret 0) (\<lambda>c.
     dbind (darray TopicMetadata_Decode) (\<lambda>ts.
     dret \<lparr>mres_APIVersion = version, mres_Brokers = bs, mres_ControllerID = c,
           mres_TopicMetadata = ts\<rparr>)))"

definition PartitionMetadata_valid :: "PartitionMetadata \<Rightarrow> bool" where
  "PartitionMetadata_valid p \<longleftrightarrow> length (pm_Replicas p) \<le> MaxInt32 \<and> length (pm_ISR p) \<le> MaxInt32"

definition TopicMetadata_valid :: "TopicMetadata \<Rightarrow> bool" where
  "TopicMetadata_valid t \<longleftrightarrow> length (tm_Topic t) \<le> MaxInt16 \<and>
     length (tm_PartitionMetadata t) \<le> 131070 \<and> (\<forall>p\<in>set (tm_PartitionMetadata t). PartitionMetadata_valid p)"

definition MetadataResponse_valid :: "int16 \<Rightarrow> MetadataResponse \<Rightarrow> bool" where
  "MetadataResponse_valid v r \<longleftrightarrow> mres_APIVersion r = v \<and> (ver_ge v 1 \<or> mres_ControllerID r = 0) \<and>
     length (mres_Brokers r) \<le> 131070 \<and> (\<forall>b\<in>set (mres_Brokers r). length (brk_Host b) \<le> MaxInt16) \<and>
     length (mres_TopicMetadata r) \<le> 131070 \<and> (\<forall>t\<in>set (mres_TopicMetadata r). TopicMetadata_valid t)"

lemma decodes_ignore: "decodes m bs x \<Longrightarrow> decodes (dignore m z) bs x"
  by (simp add: decodes_def dignore_def)

lemma codec_ok_Int32Array_ignore [wire_intros]:
  "length xs \<le> MaxInt32 \<Longrightarrow> codec_ok ops (f xs) y \<Longrightarrow>
   codec_ok (PutInt32Array xs # ops) (dbind (dignore dInt32Array []) f) y"
  by (rule codec_ok_Cons [where p = "PutInt32Array xs" and x = xs, OF codec_ok_put])
    (auto intro: decodes_ignore decodes_Int32Array simp del: put_bytes.simps)

lemma Broker_size [simp]: "0 < sum_list (map put_size (Broker_Encode p))"
  by (simp add: Broker_Encode_def)

lemma PartitionMetadata_size [simp]: "0 < sum_list (map put_size (PartitionMetadata_Encode p))"
  by (simp add: PartitionMetadata_Encode_def)

lemma TopicMetadata_size [simp]: "0 < sum_list (map put_size (TopicMetadata_Encode p))"
  by (simp add: TopicMetadata_Encode_def)

lemma Broker_codec_ok: "length (brk_Host b) \<le> MaxInt16 \<Longrightarrow> codec_ok (Broker_Encode b) Broker_Decode b"
  by (cases b) (auto simp: Broker_Encode_def Broker_Decode_def intro!: wire_intros)

lemma PartitionMetadata_codec_ok:
  "PartitionMetadata_valid p \<Longrightarrow> codec_ok (PartitionMetadata_Encode p) PartitionMetadata_Decode p"
  by (cases p) (auto simp: PartitionMetadata_valid_def PartitionMetadata_Encode_def
      PartitionMetadata_Decode_def intro!: wire_intros)

lemma TopicMetadata_codec_ok:
  "TopicMetadata_valid t \<Longrightarrow> codec_ok (TopicMetadata_Encode t) TopicMetadata_Decode t"
  by (cases t) (auto simp: TopicMetadata_valid_def TopicMetadata_Encode_def TopicMetadata_Decode_def
      intro!: wire_intros PartitionMetadata_codec_ok)

interpretation metadata_response: codec MetadataResponse_Encode MetadataResponse_Decode
  MetadataResponse_valid
proof unfold_locales
  fix v and r :: MetadataResponse
  assume "MetadataResponse_valid v r"
  then show "codec_ok (MetadataResponse_Encode r) (MetadataResponse_Decode v) r"
    by (cases r) (auto simp: MetadataResponse_valid_def MetadataResponse_Encode_def
      MetadataResponse_Decode_def intro!: wire_intros Broker_codec_ok TopicMetadata_codec_ok)
qed

end
