(* ===== verification/Proto_Topics.thy ===== *)
theory Proto_Topics
  imports Proto_Data "HOL-Library.AList"
begin

text \<open>
  The control-plane messages on topics, replicas and configurations: CreateTopics, DeleteTopics,
  LeaderAndISR, StopReplica, AlterConfigs and DescribeConfigs.  A Go map is an association list in
  the order the encoder iterates over it.
\<close>

text \<open>\<^verbatim>\<open>m[k] = v\<close> for each pair in turn, starting from an empty map.\<close>

definition map_puts :: "('k \<times> 'v) list \<Rightarrow> ('k \<times> 'v) list" where
  "map_puts kvs = fold (\<lambda>(k, v). AList.update k v) kvs []"

lemma update_new: "k \<notin> fst ` set m \<Longrightarrow> AList.update k v m = m @ [(k, v)]"
  by (induction m) auto

lemma fold_update_new:
  "distinct (map fst (m @ kvs)) \<Longrightarrow> fold (\<lambda>(k, v). AList.update k v) kvs m = m @ kvs"
proof (induction kvs arbitrary: m)
  case (Cons kv kvs)
  obtain k v where kv: "kv = (k, v)" by (cases kv)
  with Cons.prems have "k \<notin> fst ` set m" by auto
  with Cons.IH [of "m @ [(k, v)]"] Cons.prems kv show ?case by (simp add: update_new)
qed simp

lemma map_puts_distinct [simp]: "distinct (map fst kvs) \<Longrightarrow> map_puts kvs = kvs"
  using fold_update_new [of "[]" kvs] by (simp add: map_puts_def)

definition dpanic :: "'a dec" where
  "dpanic d = (Panic, d)"

section \<open>CreateTopics\<close>

record CreateTopicRequest =
  ctr_Topic :: string
  ctr_NumPartitions :: int32
  ctr_ReplicationFactor :: int16
  ctr_ReplicaAssignment :: "(int32 \<times> int32 list) list"
  ctr_Configs :: "(string \<times> string option) list"

record CreateTopicRequests =
  ctrs_APIVersion :: int16
  ctrs_Requests :: "CreateTopicRequest list"
  ctrs_Timeout :: duration
  ctrs_ValidateOnly :: bool

definition Assignment_Encode :: "int32 \<times> int32 list \<Rightarrow> put list" where
  "Assignment_Encode a = [PutInt32 (fst a), PutInt32Array (snd a)]"

definition Config_Encode :: "string \<times> string option \<Rightarrow> put list" where
  "Config_Encode c = [PutString (fst c), PutNullableString (snd c)]"

definition CreateTopicRequest_Encode :: "CreateTopicRequest \<Rightarrow> put list" where
  "CreateTopicRequest_Encode r =
     [PutString (ctr_Topic r), PutInt32 (ctr_NumPartitions r), PutInt16 (ctr_ReplicationFactor r)] @
     PutArrayLength (length (ctr_ReplicaAssignment r)) #
     concat (map Assignment_Encode (ctr_ReplicaAssignment r)) @
     PutArrayLength (length (ctr_Configs r)) # concat (map Config_Encode (ctr_Configs r))"

definition CreateTopicRequests_Encode :: "CreateTopicRequests \<Rightarrow> put list" where
  "CreateTopicRequests_Encode r =
     PutArrayLength (length (ctrs_Requests r)) #
     concat (map CreateTopicRequest_Encode (ctrs_Requests r)) @
     [PutInt32 (millis_of_duration (ctrs_Timeout r))] @
     (if ver_ge (ctrs_APIVersion r) 1 then [PutBool (ctrs_ValidateOnly r)] else [])"

definition Assignment_Decode :: "(int32 \<times> int32 list) dec" where
  "Assignment_Decode = dbind dInt32 (\<lambda>pid. dbind (darray dInt32) (\<lambda>reps. dret (pid, reps)))"

definition Config_Decode :: "(string \<times> string option) dec" where
  "Config_Decode = dbind dString (\<lambda>k. dbind dNullableString (\<lambda>v. dret (k, v)))"

definition CreateTopicRequest_Decode :: "CreateTopicRequest dec" where
  "CreateTopicRequest_Decode =
     dbind dString (\<lambda>t. dbind dInt32 (\<lambda>np. dbind dInt16 (\<lambda>rf.
     dbind (darray Assignment_Decode) (\<lambda>ra.
     dbind (darray Config_Decode) (\<lambda>cs.
     dret \<lparr>ctr_Topic = t, ctr_NumPartitions = np, ctr_ReplicationFactor = rf,
           ctr_ReplicaAssignment = map_puts ra, ctr_Configs = map_puts cs\<rparr>)))))"

text \<open>\<^verbatim>\<open>Decode\<close> does not store the version.\<close>

definition CreateTopicRequests_Decode :: "int16 \<Rightarrow> CreateTopicRequests dec" where
  "CreateTopicRequests_Decode version =
     dbind (darray CreateTopicRequest_Decode) (\<lambda>rs.
     dbind dDuration (\<lambda>timeout.
     dbind (if ver_ge version 1 then dignore dBool False else dret False) (\<lambda>vo.
     dret \<lparr>ctrs_APIVersion = 0, ctrs_Requests = rs, ctrs_Timeout = timeout, ctrs_ValidateOnly = vo\<rparr>)))"

definition CreateTopicRequest_valid :: "CreateTopicRequest \<Rightarrow> bool" where
  "CreateTopicRequest_valid r \<longleftrightarrow> length (ctr_Topic r) \<le> MaxInt16 \<and>
     length (ctr_ReplicaAssignment r) \<le> 131070 \<and> distinct (map fst (ctr_ReplicaAssignment r)) \<and>
     (\<forall>a\<in>set (ctr_ReplicaAssignment r). length (snd a) \<le> 131070) \<and>
     length (ctr_Configs r) \<le> 131070 \<and> distinct (map fst (ctr_Configs r)) \<and>
     (\<forall>c\<in>set (ctr_Configs r). length (fst c) \<le> MaxInt16 \<and> put_ok (PutNullableString (snd c)))"

definition CreateTopicRequests_valid :: "int16 \<Rightarrow> CreateTopicRequests \<Rightarrow> bool" where
  "CreateTopicRequests_valid v r \<longleftrightarrow> ctrs_APIVersion r = v \<and> length (ctrs_Requests r) \<le> 131070 \<and>
     (\<forall>t\<in>set (ctrs_Requests r). CreateTopicRequest_valid t) \<and> whole_millis (ctrs_Timeout r) \<and>
     (ver_ge v 1 \<or> \<not> ctrs_ValidateOnly r)"

lemma codec_ok_Bool_ignore [wire_intros]:
  "codec_ok ops (f w) y \<Longrightarrow> codec_ok (PutBool w # ops) (dbind (dignore dBool False) f) y"
  by (rule codec_ok_Cons [where p = "PutBool w" and x = w, OF codec_ok_put])
    (use decodes_ignore [OF decodes_Bool [of w]] in auto)

lemma Assignment_size [simp]: "0 < sum_list (map put_size (Assignment_Encode a))"
  by (simp add: Assignment_Encode_def)

lemma Config_size [simp]: "0 < sum_list (map put_size (Config_Encode a))"
  by (simp add: Config_Encode_def)

lemma CreateTopicRequest_size [simp]: "0 < sum_list (map put_size (CreateTopicRequest_Encode a))"
  by (simp add: CreateTopicRequest_Encode_def)

lemma Assignment_codec_ok: "length (snd a) \<le> 131070 \<Longrightarrow> codec_ok (Assignment_Encode a) Assignment_Decode a"
  by (auto simp: Assignment_Encode_def Assignment_Decode_def intro!: wire_intros)

lemma Config_codec_ok:
  "length (fst c) \<le> MaxInt16 \<Longrightarrow> put_ok (PutNullableString (snd c)) \<Longrightarrow> codec_ok (Config_Encode c) Config_Decode c"
  by (auto simp: Config_Encode_def Config_Decode_def simp del: put_ok.simps intro!: wire_intros)

lemma CreateTopicRequest_codec_ok:
  "CreateTopicRequest_valid r \<Longrightarrow> codec_ok (CreateTopicRequest_Encode r) CreateTopicRequest_Decode r"
  by (cases r) (auto simp: CreateTopicRequest_valid_def CreateTopicRequest_Encode_def
      CreateTopicRequest_Decode_def simp del: put_ok.simps
      intro!: wire_intros Assignment_codec_ok Config_codec_ok)

interpretation create_topics_request: codec_upto CreateTopicRequests_Encode CreateTopicRequests_Decode
  CreateTopicRequests_valid "\<lambda>_ r. r\<lparr>ctrs_APIVersion := 0\<rparr>"
proof unfold_locales
  fix v and r :: CreateTopicRequests
  assume "CreateTopicRequests_valid v r"
  then show "codec_ok (CreateTopicRequests_Encode r) (CreateTopicRequests_Decode v) (r\<lparr>ctrs_APIVersion := 0\<rparr>)"
    by (cases r) (auto simp: CreateTopicRequests_valid_def CreateTopicRequests_Encode_def
      CreateTopicRequests_Decode_def intro!: wire_intros CreateTopicRequest_codec_ok)
qed

record TopicErrorCode =
  tec_Topic :: string
  tec_ErrorCode :: int16
  tec_ErrorMessage :: "string option"

record CreateTopicsResponse =
  ctres_APIVersion :: int16
  ctres_ThrottleTime :: duration
  ctres_TopicErrorCodes :: "TopicErrorCode list"

definition TopicErrorCode_Encode :: "int16 \<Rightarrow> TopicErrorCode \<Rightarrow> put list" where
  "TopicErrorCode_Encode v t =
     [PutString (tec_Topic t), PutInt16 (tec_ErrorCode t)] @
     (if ver_ge v 1 then [PutNullableString (tec_ErrorMessage t)] else [])"

definition CreateTopicsResponse_Encode :: "CreateTopicsResponse \<Rightarrow> put list" where
  "CreateTopicsResponse_Encode c =
     (if ver_ge (ctres_APIVersion c) 2
      then [PutInt32 (millis_of_duration (ctres_ThrottleTime c))] else []) @
     PutArrayLength (length (ctres_TopicErrorCodes c)) #
     concat (map (TopicErrorCode_Encode (ctres_APIVersion c)) (ctres_TopicErrorCodes c))"

definition TopicErrorCode_Decode :: "int16 \<Rightarrow> TopicErrorCode dec" where
  "TopicErrorCode_Decode version =
     dbind dString (\<lambda>t. dbind dInt16 (\<lambda>ec.
     dbind (if ver_ge version 1 then dNullableString else dret None) (\<lambda>m.
     dret \<lparr>tec_Topic = t, tec_ErrorCode = ec, tec_ErrorMessage = m\<rparr>)))"

definition CreateTopicsResponse_Decode :: "int16 \<Rightarrow> CreateTopicsResponse dec" where
  "CreateTopicsResponse_Decode version =
     dbind (if ver_ge version 2 then dDuration else dret 0) (\<lambda>throttle.
     dbind (darray (TopicErrorCode_Decode version)) (\<lambda>ts.
     dret \<lparr>ctres_APIVersion = version, ctres_ThrottleTime = throttle, ctres_TopicErrorCodes = ts\<rparr>))"

definition TopicErrorCode_valid :: "int16 \<Rightarrow> TopicErrorCode \<Rightarrow> bool" where
  "TopicErrorCode_valid v t \<longleftrightarrow> length (tec_Topic t) \<le> MaxInt16 \<and>
     (if ver_ge v 1 then put_ok (PutNullableString (tec_ErrorMessage t)) else tec_ErrorMessage t = None)"

definition CreateTopicsResponse_valid :: "int16 \<Rightarrow> CreateTopicsResponse \<Rightarrow> bool" where
  "CreateTopicsResponse_valid v c \<longleftrightarrow> ctres_APIVersion c = v \<and> length (ctres_TopicErrorCodes c) \<le> 131070 \<and>
     (\<forall>t\<in>set (ctres_TopicErrorCodes c). TopicErrorCode_valid v t) \<and>
     (if ver_ge v 2 then whole_millis (ctres_ThrottleTime c) else ctres_ThrottleTime c = 0)"

lemma TopicErrorCode_size [simp]: "0 < sum_list (map put_size (TopicErrorCode_Encode v a))"
  by (simp add: TopicErrorCode_Encode_def)

lemma TopicErrorCode_codec_ok:
  "TopicErrorCode_valid v t \<Longrightarrow> codec_ok (TopicErrorCode_Encode v t) (TopicErrorCode_Decode v) t"
  by (cases t) (auto simp: TopicErrorCode_valid_def TopicErrorCode_Encode_def TopicErrorCode_Decode_def
      simp del: put_ok.simps split: if_splits intro!: wire_intros)

interpretation create_topics_response: codec CreateTopicsResponse_Encode CreateTopicsResponse_Decode
  CreateTopicsResponse_valid
proof unfold_locales
  fix v and r :: CreateTopicsResponse
  assume "CreateTopicsResponse_valid v r"
  then show "codec_ok (CreateTopicsResponse_Encode r) (CreateTopicsResponse_Decode v) r"
    by (cases r) (auto simp: CreateTopicsResponse_valid_def CreateTopicsResponse_Encode_def
      CreateTopicsResponse_Decode_def split: if_splits intro!: wire_intros TopicErrorCode_codec_ok)
qed

section \<open>DeleteTopics\<close>

record DeleteTopicsRequest =
  dtreq_APIVersion :: int16
  dtreq_Topics :: "string list"
  dtreq_Timeout :: duration

definition DeleteTopicsRequest_Encode :: "DeleteTopicsRequest \<Rightarrow> put list" where
  "DeleteTopicsRequest_Encode r =
     [PutStringArray (dtreq_Topics r), PutInt32 (millis_of_duration (dtreq_Timeout r))]"

definition DeleteTopicsRequest_Decode :: "int16 \<Rightarrow> DeleteTopicsRequest dec" where
  "DeleteTopicsRequest_Decode version =
     dbind dStringArray (\<lambda>ts. dbind dDuration (\<lambda>timeout.
     dret \<lparr>dtreq_APIVersion = version, dtreq_Topics = ts, dtreq_Timeout = timeout\<rparr>))"

definition DeleteTopicsRequest_valid :: "int16 \<Rightarrow> DeleteTopicsRequest \<Rightarrow> bool" where
  "DeleteTopicsRequest_valid v r \<longleftrightarrow> dtreq_APIVersion r = v \<and>
     put_ok (PutStringArray (dtreq_Topics r)) \<and> whole_millis (dtreq_Timeout r)"

interpretation delete_topics_request: codec DeleteTopicsRequest_Encode DeleteTopicsRequest_Decode
  DeleteTopicsRequest_valid
proof unfold_locales
  fix v and r :: DeleteTopicsRequest
  assume "DeleteTopicsRequest_valid v r"
  then show "codec_ok (DeleteTopicsRequest_Encode r) (DeleteTopicsRequest_Decode v) r"
    by (cases r) (auto simp: DeleteTopicsRequest_valid_def DeleteTopicsRequest_Encode_def
      DeleteTopicsRequest_Decode_def simp del: put_ok.simps intro!: wire_intros)
qed

record DeleteTopicsResponse =
  dtres_APIVersion :: int16
  dtres_ThrottleTime :: duration
  dtres_TopicErrorCodes :: "TopicErrorCode list"

text \<open>The errors of the array length and of the topic names are not looked at.\<close>

definition DeletedTopic_Encode :: "TopicErrorCode \<Rightarrow> put list" where
  "DeletedTopic_Encode t = [Unchecked (PutString (tec_Topic t)), PutInt16 (tec_ErrorCode t)]"

definition DeleteTopicsResponse_Encode :: "DeleteTopicsResponse \<Rightarrow> put list" where
  "DeleteTopicsResponse_Encode c =
     (if ver_ge (dtres_APIVersion c) 1
      then [PutInt32 (millis_of_duration (dtres_ThrottleTime c))] else []) @
     Unchecked (PutArrayLength (length (dtres_TopicErrorCodes c))) #
     concat (map DeletedTopic_Encode (dtres_TopicErrorCodes c))"

definition DeletedTopic_Decode :: "TopicErrorCode dec" where
  "DeletedTopic_Decode =
     dbind dString (\<lambda>t. dbind dInt16 (\<lambda>ec.
     dret \<lparr>tec_Topic = t, tec_ErrorCode = ec, tec_ErrorMessage = None\<rparr>))"

definition DeleteTopicsResponse_Decode :: "int16 \<Rightarrow> DeleteTopicsResponse dec" where
  "DeleteTopicsResponse_Decode version =
     dbind (if ver_ge version 1 then dDuration else dret 0) (\<lambda>throttle.
     dbind (darray DeletedTopic_Decode) (\<lambda>ts.
     dret \<lparr>dtres_APIVersion = version, dtres_ThrottleTime = throttle, dtres_TopicErrorCodes = ts\<rparr>))"

definition DeleteTopicsResponse_valid :: "int16 \<Rightarrow> DeleteTopicsResponse \<Rightarrow> bool" where
  "DeleteTopicsResponse_valid v c \<longleftrightarrow> dtres_APIVersion c = v \<and> length (dtres_TopicErrorCodes c) \<le> 131070 \<and>
     (\<forall>t\<in>set (dtres_TopicErrorCodes c). length (tec_Topic t) \<le> MaxInt16 \<and> tec_ErrorMessage t = None) \<and>
     (if ver_ge v 1 then whole_millis (dtres_ThrottleTime c) else dtres_ThrottleTime c = 0)"

lemma DeletedTopic_size [simp]: "0 < sum_list (map put_size (DeletedTopic_Encode a))"
  by (simp add: DeletedTopic_Encode_def)

lemma DeletedTopic_codec_ok:
  "length (tec_Topic t) \<le> MaxInt16 \<Longrightarrow> tec_ErrorMessage t = None \<Longrightarrow>
   codec_ok (DeletedTopic_Encode t) DeletedTopic_Decode t"
  by (cases t) (auto simp: DeletedTopic_Encode_def DeletedTopic_Decode_def intro!: wire_intros)

interpretation delete_topics_response: codec DeleteTopicsResponse_Encode DeleteTopicsResponse_Decode
  DeleteTopicsResponse_valid
proof unfold_locales
  fix v and r :: DeleteTopicsResponse
  assume "DeleteTopicsResponse_valid v r"
  then show "codec_ok (DeleteTopicsResponse_Encode r) (DeleteTopicsResponse_Decode v) r"
    by (cases r) (auto simp: DeleteTopicsResponse_valid_def DeleteTopicsResponse_Encode_def
      DeleteTopicsResponse_Decode_def split: if_splits intro!: wire_intros DeletedTopic_codec_ok)
qed

section \<open>LeaderAndISR\<close>

record PartitionState =
  ps_Topic :: string
  ps_Partition :: int32
  ps_ControllerEpoch :: int32
  ps_Leader :: int32
  ps_LeaderEpoch :: int32
  ps_ISR :: "int32 list"
  ps_ZKVersion :: int32
  ps_Replicas :: "int32 list"
  ps_IsNew :: bool

record LiveLeader =
  ll_ID :: int32
  ll_Host :: string
  ll_Port :: int32

record LeaderAndISRRequest =
  lireq_APIVersion :: int16
  lireq_ControllerID :: int32
  lireq_ControllerEpoch :: int32
  lireq_PartitionStates :: "PartitionState list"
  lireq_LiveLeaders :: "LiveLeader list"

definition PartitionState_Encode :: "int16 \<Rightarrow> PartitionState \<Rightarrow> put list" where
  "PartitionState_Encode v p =
     [PutString (ps_Topic p), PutInt32 (ps_Partition p), PutInt32 (ps_ControllerEpoch p),
      PutInt32 (ps_Leader p), PutInt32 (ps_LeaderEpoch p), PutInt32Array (ps_ISR p),
      PutInt32 (ps_ZKVersion p), PutInt32Array (ps_Replicas p)] @
     (if ver_ge v 1 then [PutBool (ps_IsNew p)] else [])"

definition LiveLeader_Encode :: "LiveLeader \<Rightarrow> put list" where
  "LiveLeader_Encode l = [PutInt32 (ll_ID l), PutString (ll_Host l), PutInt32 (ll_Port l)]"

definition LeaderAndISRRequest_Encode :: "LeaderAndISRRequest \<Rightarrow> put list" where
  "LeaderAndISRRequest_Encode r =
     [PutInt32 (lireq_ControllerID r), PutInt32 (lireq_ControllerEpoch r)] @
     PutArrayLength (length (lireq_PartitionStates r)) #
     concat (map (PartitionState_Encode (lireq_APIVersion r)) (lireq_PartitionStates r)) @
     PutArrayLength (length (lireq_LiveLeaders r)) #
     concat (map LiveLeader_Encode (lireq_LiveLeaders r))"

text \<open>\<^verbatim>\<open>Decode\<close> never reads \<^verbatim>\<open>IsNew\<close>, which \<^verbatim>\<open>Encode\<close> writes from version 1 on.\<close>

definition PartitionState_Decode :: "PartitionState dec" where
  "PartitionState_Decode =
     dbind dString (\<lambda>t. dbind dInt32 (\<lambda>p. dbind dInt32 (\<lambda>ce. dbind dInt32 (\<lambda>l. dbind dInt32 (\<lambda>le.
     dbind dInt32Array (\<lambda>isr. dbind dInt32 (\<lambda>zk. dbind dInt32Array (\<lambda>rs.
     dret \<lparr>ps_Topic = t, ps_Partition = p, ps_ControllerEpoch = ce, ps_Leader = l, ps_LeaderEpoch = le,
           ps_ISR = isr, ps_ZKVersion = zk, ps_Replicas = rs, ps_IsNew = False\<rparr>))))))))"

definition LiveLeader_Decode :: "LiveLeader dec" where
  "LiveLeader_Decode =
     dbind dInt32 (\<lambda>i. dbind dString (\<lambda>h. dbind dInt32 (\<lambda>p.
     dret \<lparr>ll_ID = i, ll_Host = h, ll_Port = p\<rparr>)))"

definition LeaderAndISRRequest_Decode :: "int16 \<Rightarrow> LeaderAndISRRequest dec" where
  "LeaderAndISRRequest_Decode version =
     dbind dInt32 (\<lambda>cid. dbind dInt32 (\<lambda>ce.
     dbind (darray PartitionState_Decode) (\<lambda>ps.
     dbind (darray LiveLeader_Decode) (\<lambda>ls.
     dret \<lparr>lireq_APIVersion = version, lireq_ControllerID = cid, lireq_ControllerEpoch = ce,
           lireq_PartitionStates = ps, lireq_LiveLeaders = ls\<rparr>))))"

definition PartitionState_valid :: "PartitionState \<Rightarrow> bool" where
  "PartitionState_valid p \<longleftrightarrow> length (ps_Topic p) \<le> MaxInt16 \<and> length (ps_ISR p) \<le> MaxInt32 \<and>
     length (ps_Replicas p) \<le> MaxInt32 \<and> \<not> ps_IsNew p"

definition LeaderAndISRRequest_valid :: "int16 \<Rightarrow> LeaderAndISRRequest \<Rightarrow> bool" where
  "LeaderAndISRRequest_valid v r \<longleftrightarrow> lireq_APIVersion r = v \<and> \<not> ver_ge v 1 \<and>
     length (lireq_PartitionStates r) \<le> 131070 \<and> (\<forall>p\<in>set (lireq_PartitionStates r). PartitionState_valid p) \<and>
     length (lireq_LiveLeaders r) \<le> 131070 \<and> (\<forall>l\<in>set (lireq_LiveLeaders r). length (ll_Host l) \<le> MaxInt16)"

lemma PartitionState_size [simp]: "0 < sum_list (map put_size (PartitionState_Encode v a))"
  by (simp add: PartitionState_Encode_def)

lemma LiveLeader_size [simp]: "0 < sum_list (map put_size (LiveLeader_Encode a))"
  by (simp add: LiveLeader_Encode_def)

lemma PartitionState_codec_ok:
  "PartitionState_valid p \<Longrightarrow> \<not> ver_ge v 1 \<Longrightarrow> codec_ok (PartitionState_Encode v p) PartitionState_Decode p"
  by (cases p) (auto simp: PartitionState_valid_def PartitionState_Encode_def PartitionState_Decode_def
      intro!: wire_intros)

lemma LiveLeader_codec_ok: "length (ll_Host l) \<le> MaxInt16 \<Longrightarrow> codec_ok (LiveLeader_Encode l) LiveLeader_Decode l"
  by (cases l) (auto simp: LiveLeader_Encode_def LiveLeader_Decode_def intro!: wire_intros)

interpretation leader_and_isr_request: codec LeaderAndISRRequest_Encode LeaderAndISRRequest_Decode
  LeaderAndISRRequest_valid
proof unfold_locales
  fix v and r :: LeaderAndISRRequest
  assume "LeaderAndISRRequest_valid v r"
  then show "codec_ok (LeaderAndISRRequest_Encode r) (LeaderAndISRRequest_Decode v) r"
    by (cases r) (auto simp: LeaderAndISRRequest_valid_def LeaderAndISRRequest_Encode_def
      LeaderAndISRRequest_Decode_def intro!: wire_intros PartitionState_codec_ok LiveLeader_codec_ok)
qed

record LeaderAndISRPartition =
  lip_Topic :: string
  lip_Partition :: int32
  lip_ErrorCode :: int16

record LeaderAndISRResponse =
  lires_APIVersion :: int16
  lires_ErrorCode :: int16
  lires_Partitions :: "LeaderAndISRPartition list"

definition LeaderAndISRPartition_Encode :: "LeaderAndISRPartition \<Rightarrow> put list" where
  "LeaderAndISRPartition_Encode p =
     [PutString (lip_Topic p), PutInt32 (lip_Partition p), PutInt16 (lip_ErrorCode p)]"

definition LeaderAndISRResponse_Encode :: "LeaderAndISRResponse \<Rightarrow> put list" where
  "LeaderAndISRResponse_Encode r =
     [PutInt16 (lires_ErrorCode r)] @
     PutArrayLength (length (lires_Partitions r)) #
     concat (map LeaderAndISRPartition_Encode (lires_Partitions r))"

definition LeaderAndISRPartition_Decode :: "LeaderAndISRPartition dec" where
  "LeaderAndISRPartition_Decode =
     dbind dString (\<lambda>t. dbind dInt32 (\<lambda>p. dbind dInt16 (\<lambda>ec.
     dret \<lparr>lip_Topic = t, lip_Partition = p, lip_ErrorCode = ec\<rparr>)))"

definition LeaderAndISRResponse_Decode :: "int16 \<Rightarrow> LeaderAndISRResponse dec" where
  "LeaderAndISRResponse_Decode version =
     dbind dInt16 (\<lambda>ec. dbind (darray LeaderAndISRPartition_Decode) (\<lambda>ps.
     dret \<lparr>lires_APIVersion = version, lires_ErrorCode = ec, lires_Partitions = ps\<rparr>))"

definition LeaderAndISRResponse_valid :: "int16 \<Rightarrow> LeaderAndISRResponse \<Rightarrow> bool" where
  "LeaderAndISRResponse_valid v r \<longleftrightarrow> lires_APIVersion r = v \<and> length (lires_Partitions r) \<le> 131070 \<and>
     (\<forall>p\<in>set (lires_Partitions r). length (lip_Topic p) \<le> MaxInt16)"

lemma LeaderAndISRPartition_size [simp]: "0 < sum_list (map put_size (LeaderAndISRPartition_Encode a))"
  by (simp add: LeaderAndISRPartition_Encode_def)

lemma LeaderAndISRPartition_codec_ok:
  "length (lip_Topic p) \<le> MaxInt16 \<Longrightarrow>
   codec_ok (LeaderAndISRPartition_Encode p) LeaderAndISRPartition_Decode p"
  by (cases p) (auto simp: LeaderAndISRPartition_Encode_def LeaderAndISRPartition_Decode_def
      intro!: wire_intros)

interpretation leader_and_isr_response: codec LeaderAndISRResponse_Encode LeaderAndISRResponse_Decode
  LeaderAndISRResponse_valid
proof unfold_locales
  fix v and r :: LeaderAndISRResponse
  assume "LeaderAndISRResponse_valid v r"
  then show "codec_ok (LeaderAndISRResponse_Encode r) (LeaderAndISRResponse_Decode v) r"
    by (cases r) (auto simp: LeaderAndISRResponse_valid_def LeaderAndISRResponse_Encode_def
      LeaderAndISRResponse_Decode_def intro!: wire_intros LeaderAndISRPartition_codec_ok)
qed

section \<open>StopReplica\<close>

record StopReplicaPartition =
  srp_Topic :: string
  srp_Partition :: int32

record StopReplicaRequest =
  srreq_APIVersion :: int16
  srreq_ControllerID :: int32
  srreq_ControllerEpoch :: int32
  srreq_DeletePartitions :: bool
  srreq_Partitions :: "StopReplicaPartition list"

definition StopReplicaPartition_Encode :: "StopReplicaPartition \<Rightarrow> put list" where
  "StopReplicaPartition_Encode p = [PutString (srp_Topic p), PutInt32 (srp_Partition p)]"

definition StopReplicaRequest_Encode :: "StopReplicaRequest \<Rightarrow> put list" where
  "StopReplicaRequest_Encode r =
     [PutInt32 (srreq_ControllerID r), PutInt32 (srreq_ControllerEpoch r),
      PutInt8 (if srreq_DeletePartitions r then 1 else 0)] @
     PutArrayLength (length (srreq_Partitions r)) #
     concat (map StopReplicaPartition_Encode (srreq_Partitions r))"

definition StopReplicaPartition_Decode :: "StopReplicaPartition dec" where
  "StopReplicaPartition_Decode =
     dbind dString (\<lambda>t. dbind dInt32 (\<lambda>p. dret \<lparr>srp_Topic = t, srp_Partition = p\<rparr>))"

definition StopReplicaRequest_Decode :: "int16 \<Rightarrow> StopReplicaRequest dec" where
  "StopReplicaRequest_Decode version =
     dbind dInt32 (\<lambda>cid. dbind dInt32 (\<lambda>ce. dbind dBool (\<lambda>del.
     dbind (darray StopReplicaPartition_Decode) (\<lambda>ps.
     dret \<lparr>srreq_APIVersion = version, srreq_ControllerID = cid, srreq_ControllerEpoch = ce,
           srreq_DeletePartitions = del, srreq_Partitions = ps\<rparr>))))"

definition StopReplicaRequest_valid :: "int16 \<Rightarrow> StopReplicaRequest \<Rightarrow> bool" where
  "StopReplicaRequest_valid v r \<longleftrightarrow> srreq_APIVersion r = v \<and> length (srreq_Partitions r) \<le> 131070 \<and>
     (\<forall>p\<in>set (srreq_Partitions r). length (srp_Topic p) \<le> MaxInt16)"

lemma StopReplicaPartition_size [simp]: "0 < sum_list (map put_size (StopReplicaPartition_Encode a))"
  by (simp add: StopReplicaPartition_Encode_def)

lemma StopReplicaPartition_codec_ok:
  "length (srp_Topic p) \<le> MaxInt16 \<Longrightarrow> codec_ok (StopReplicaPartition_Encode p) StopReplicaPartition_Decode p"
  by (cases p) (auto simp: StopReplicaPartition_Encode_def StopReplicaPartition_Decode_def
      intro!: wire_intros)

lemma codec_ok_Int8_Bool [wire_intros]:
  "codec_ok ops (f b) y \<Longrightarrow> codec_ok (PutInt8 (if b then 1 else 0) # ops) (dbind dBool f) y"
  unfolding dBool_def dbind_assoc dbind_dret by (rule codec_ok_Int8) (cases b; simp)

interpretation stop_replica_request: codec StopReplicaRequest_Encode StopReplicaRequest_Decode
  StopReplicaRequest_valid
proof unfold_locales
  fix v and r :: StopReplicaRequest
  assume "StopReplicaRequest_valid v r"
  then show "codec_ok (StopReplicaRequest_Encode r) (StopReplicaRequest_Decode v) r"
    by (cases r) (auto simp: StopReplicaRequest_valid_def StopReplicaRequest_Encode_def
      StopReplicaRequest_Decode_def simp del: if_split if_cancel split del: if_split
      intro!: wire_intros StopReplicaPartition_codec_ok)
qed

record StopReplicaResponsePartition =
  srrp_Topic :: string
  srrp_Partition :: int32
  srrp_ErrorCode :: int16

record StopReplicaResponse =
  srres_ErrorCode :: int16
  srres_Partitions :: "StopReplicaResponsePartition list"

definition StopReplicaResponsePartition_Encode :: "StopReplicaResponsePartition \<Rightarrow> put list" where
  "StopReplicaResponsePartition_Encode p =
     [PutString (srrp_Topic p), PutInt32 (srrp_Partition p), PutInt16 (srrp_ErrorCode p)]"

definition StopReplicaResponse_Encode :: "StopReplicaResponse \<Rightarrow> put list" where
  "StopReplicaResponse_Encode r =
     [PutInt16 (srres_ErrorCode r)] @
     PutArrayLength (length (srres_Partitions r)) #
     concat (map StopReplicaResponsePartition_Encode (srres_Partitions r))"

text \<open>\<^verbatim>\<open>Decode\<close> makes a slice of nil pointers and assigns through the first one.\<close>

definition StopReplicaResponse_Decode :: "int16 \<Rightarrow> StopReplicaResponse dec" where
  "StopReplicaResponse_Decode version =
     dbind dInt16 (\<lambda>ec. dbind dArrayLength (\<lambda>n.
     if n = 0 then dret \<lparr>srres_ErrorCode = ec, srres_Partitions = []\<rparr> else dpanic))"

lemma StopReplicaResponse_outcome:
  assumes "length (srres_Partitions r) \<le> 131070"
    and "\<forall>p\<in>set (srres_Partitions r). length (srrp_Topic p) \<le> MaxInt16"
  shows "\<exists>bs. Encode (StopReplicaResponse_Encode r) = Ok bs \<and> Decode (StopReplicaResponse_Decode v) bs =
    (if srres_Partitions r = [] then Ok r else Panic)"
proof -
  let ?ps = "srres_Partitions r" and ?n = "word_of_nat (length (srres_Partitions r)) :: int32"
  define g where "g p = string_field (srrp_Topic p) @ PutUint32 (srrp_Partition p) @ PutUint16 (srrp_ErrorCode p)"
    for p :: StopReplicaResponsePartition
  have "emits (StopReplicaResponsePartition_Encode p) (g p)" for p
    by (simp add: StopReplicaResponsePartition_Encode_def g_def emits_def)
  then have body: "emits (concat (map StopReplicaResponsePartition_Encode ?ps)) (concat (map g ?ps))"
    by (simp add: emits_concat)
  let ?bs = "PutUint16 (srres_ErrorCode r) @ PutUint32 ?n @ concat (map g ?ps)"
  have "emits (StopReplicaResponse_Encode r) ?bs"
    using emits_append [OF _ body, of "[PutInt16 (srres_ErrorCode r), PutArrayLength (length ?ps)]"
        "PutUint16 (srres_ErrorCode r) @ PutUint32 ?n"]
    by (simp add: StopReplicaResponse_Encode_def emits_def)
  then have "Encode (StopReplicaResponse_Encode r) = Ok ?bs"
    using assms by (intro Encode_emits)
      (auto simp: StopReplicaResponse_Encode_def StopReplicaResponsePartition_Encode_def)
  moreover have "length ps \<le> length (concat (map g ps))" for ps
    by (induction ps) (simp_all add: g_def)
  then have "\<not> length (concat (map g ?ps)) < length ?ps" by (simp add: not_less)
  moreover have "unat ?n = length ?ps"
    using assms(1) by (simp add: unat_of_nat)
  ultimately show ?thesis
    using assms(1)
    by (cases r) (auto simp: Decode_def StopReplicaResponse_Decode_def dbind_def dArrayLength_def dInt16_def
        NewDecoder_def remaining_def advance_def dret_def dpanic_def Let_def)
qed

section \<open>AlterConfigs\<close>

record AlterConfigsEntry =
  ace_Name :: string
  ace_Value :: "string option"

record AlterConfigsResource =
  acr_Type :: int8
  acr_Name :: string
  acr_Entries :: "AlterConfigsEntry list"

record AlterConfigsRequest =
  acreq_APIVersion :: int16
  acreq_Resources :: "AlterConfigsResource list"
  acreq_ValidateOnly :: bool

definition AlterConfigsEntry_Encode :: "AlterConfigsEntry \<Rightarrow> put list" where
  "AlterConfigsEntry_Encode e = [PutString (ace_Name e), PutNullableString (ace_Value e)]"

definition AlterConfigsResource_Encode :: "AlterConfigsResource \<Rightarrow> put list" where
  "AlterConfigsResource_Encode r =
     [PutInt8 (acr_Type r), PutString (acr_Name r)] @
     PutArrayLength (length (acr_Entries r)) # concat (map AlterConfigsEntry_Encode (acr_Entries r))"

definition AlterConfigsRequest_Encode :: "AlterConfigsRequest \<Rightarrow> put list" where
  "AlterConfigsRequest_Encode r =
     PutArrayLength (length (acreq_Resources r)) #
     concat (map AlterConfigsResource_Encode (acreq_Resources r)) @ [PutBool (acreq_ValidateOnly r)]"

definition AlterConfigsEntry_Decode :: "AlterConfigsEntry dec" where
  "AlterConfigsEntry_Decode =
     dbind dString (\<lambda>n. dbind dNullableString (\<lambda>v. dret \<lparr>ace_Name = n, ace_Value = v\<rparr>))"

definition AlterConfigsResource_Decode :: "AlterConfigsResource dec" where
  "AlterConfigsResource_Decode =
     dbind dInt8 (\<lambda>t. dbind dString (\<lambda>n. dbind (darray AlterConfigsEntry_Decode) (\<lambda>es.
     dret \<lparr>acr_Type = t, acr_Name = n, acr_Entries = es\<rparr>)))"

definition AlterConfigsRequest_Decode :: "int16 \<Rightarrow> AlterConfigsRequest dec" where
  "AlterConfigsRequest_Decode version =
     dbind (darray AlterConfigsResource_Decode) (\<lambda>rs. dbind dBool (\<lambda>vo.
     dret \<lparr>acreq_APIVersion = version, acreq_Resources = rs, acreq_ValidateOnly = vo\<rparr>))"

definition AlterConfigsResource_valid :: "AlterConfigsResource \<Rightarrow> bool" where
  "AlterConfigsResource_valid r \<longleftrightarrow> length (acr_Name r) \<le> MaxInt16 \<and> length (acr_Entries r) \<le> 131070 \<and>
     (\<forall>e\<in>set (acr_Entries r). length (ace_Name e) \<le> MaxInt16 \<and> put_ok (PutNullableString (ace_Value e)))"

definition AlterConfigsRequest_valid :: "int16 \<Rightarrow> AlterConfigsRequest \<Rightarrow> bool" where
  "AlterConfigsRequest_valid v r \<longleftrightarrow> acreq_APIVersion r = v \<and> length (acreq_Resources r) \<le> 131070 \<and>
     (\<forall>s\<in>set (acreq_Resources r). AlterConfigsResource_valid s)"

lemma AlterConfigsEntry_size [simp]: "0 < sum_list (map put_size (AlterConfigsEntry_Encode a))"
  by (simp add: AlterConfigsEntry_Encode_def)

lemma AlterConfigsResource_size [simp]: "0 < sum_list (map put_size (AlterConfigsResource_Encode a))"
  by (simp add: AlterConfigsResource_Encode_def)

lemma AlterConfigsEntry_codec_ok:
  "length (ace_Name e) \<le> MaxInt16 \<Longrightarrow> put_ok (PutNullableString (ace_Value e)) \<Longrightarrow>
   codec_ok (AlterConfigsEntry_Encode e) AlterConfigsEntry_Decode e"
  by (cases e) (auto simp: AlterConfigsEntry_Encode_def AlterConfigsEntry_Decode_def
      simp del: put_ok.simps intro!: wire_intros)

lemma AlterConfigsResource_codec_ok:
  "AlterConfigsResource_valid r \<Longrightarrow> codec_ok (AlterConfigsResource_Encode r) AlterConfigsResource_Decode r"
  by (cases r) (auto simp: AlterConfigsResource_valid_def AlterConfigsResource_Encode_def
      AlterConfigsResource_Decode_def simp del: put_ok.simps intro!: wire_intros AlterConfigsEntry_codec_ok)

interpretation alter_configs_request: codec AlterConfigsRequest_Encode AlterConfigsRequest_Decode
  AlterConfigsRequest_valid
proof unfold_locales
  fix v and r :: AlterConfigsRequest
  assume "AlterConfigsRequest_valid v r"
  then show "codec_ok (AlterConfigsRequest_Encode r) (AlterConfigsRequest_Decode v) r"
    by (cases r) (auto simp: AlterConfigsRequest_valid_def AlterConfigsRequest_Encode_def
      AlterConfigsRequest_Decode_def intro!: wire_intros AlterConfigsResource_codec_ok)
qed

record AlterConfigResourceResponse =
  acrr_ErrorCode :: int16
  acrr_ErrorMessage :: "string option"
  acrr_Type :: int8
  acrr_Name :: string

record AlterConfigsResponse =
  acres_APIVersion :: int16
  acres_ThrottleTime :: duration
  acres_Resources :: "AlterConfigResourceResponse list"

definition AlterConfigResourceResponse_Encode :: "AlterConfigResourceResponse \<Rightarrow> put list" where
  "AlterConfigResourceResponse_Encode r =
     [PutInt16 (acrr_ErrorCode r), PutNullableString (acrr_ErrorMessage r), PutInt8 (acrr_Type r),
      PutString (acrr_Name r)]"

definition AlterConfigsResponse_Encode :: "AlterConfigsResponse \<Rightarrow> put list" where
  "AlterConfigsResponse_Encode r =
     [PutInt32 (millis_of_duration (acres_ThrottleTime r))] @
     Unchecked (PutArrayLength (length (acres_Resources r))) #
     concat (map AlterConfigResourceResponse_Encode (acres_Resources r))"

definition AlterConfigResourceResponse_Decode :: "AlterConfigResourceResponse dec" where
  "AlterConfigResourceResponse_Decode =
     dbind dInt16 (\<lambda>ec. dbind dNullableString (\<lambda>m. dbind dInt8 (\<lambda>t. dbind dString (\<lambda>n.
     dret \<lparr>acrr_ErrorCode = ec, acrr_ErrorMessage = m, acrr_Type = t, acrr_Name = n\<rparr>))))"

definition AlterConfigsResponse_Decode :: "int16 \<Rightarrow> AlterConfigsResponse dec" where
  "AlterConfigsResponse_Decode version =
     dbind dDuration (\<lambda>throttle. dbind (darray AlterConfigResourceResponse_Decode) (\<lambda>rs.
     dret \<lparr>acres_APIVersion = version, acres_ThrottleTime = throttle, acres_Resources = rs\<rparr>))"

definition AlterConfigsResponse_valid :: "int16 \<Rightarrow> AlterConfigsResponse \<Rightarrow> bool" where
  "AlterConfigsResponse_valid v r \<longleftrightarrow> acres_APIVersion r = v \<and> whole_millis (acres_ThrottleTime r) \<and>
     length (acres_Resources r) \<le> 131070 \<and>
     (\<forall>s\<in>set (acres_Resources r). length (acrr_Name s) \<le> MaxInt16 \<and>
        put_ok (PutNullableString (acrr_ErrorMessage s)))"

lemma AlterConfigResourceResponse_size [simp]:
  "0 < sum_list (map put_size (AlterConfigResourceResponse_Encode a))"
  by (simp add: AlterConfigResourceResponse_Encode_def)

lemma AlterConfigResourceResponse_codec_ok:
  "length (acrr_Name r) \<le> MaxInt16 \<Longrightarrow> put_ok (PutNullableString (acrr_ErrorMessage r)) \<Longrightarrow>
   codec_ok (AlterConfigResourceResponse_Encode r) AlterConfigResourceResponse_Decode r"
  by (cases r) (auto simp: AlterConfigResourceResponse_Encode_def AlterConfigResourceResponse_Decode_def
      simp del: put_ok.simps intro!: wire_intros)

interpretation alter_configs_response: codec AlterConfigsResponse_Encode AlterConfigsResponse_Decode
  AlterConfigsResponse_valid
proof unfold_locales
  fix v and r :: AlterConfigsResponse
  assume "AlterConfigsResponse_valid v r"
  then show "codec_ok (AlterConfigsResponse_Encode r) (AlterConfigsResponse_Decode v) r"
    by (cases r) (auto simp: AlterConfigsResponse_valid_def AlterConfigsResponse_Encode_def
      AlterConfigsResponse_Decode_def simp del: put_ok.simps
      intro!: wire_intros AlterConfigResourceResponse_codec_ok)
qed

section \<open>DescribeConfigs\<close>

record DescribeConfigsResource =
  dcr_Type :: int8
  dcr_Name :: string
  dcr_ConfigNames :: "string list"

record DescribeConfigsRequest =
  dcreq_APIVersion :: int16
  dcreq_Resources :: "DescribeConfigsResource list"
  dcreq_IncludeSynonyms :: bool

definition DescribeConfigsResource_Encode :: "DescribeConfigsResource \<Rightarrow> put list" where
  "DescribeConfigsResource_Encode r =
     [PutInt8 (dcr_Type r), PutString (dcr_Name r), PutStringArray (dcr_ConfigNames r)]"

definition DescribeConfigsRequest_Encode :: "DescribeConfigsRequest \<Rightarrow> put list" where
  "DescribeConfigsRequest_Encode r =
     PutArrayLength (length (dcreq_Resources r)) #
     concat (map DescribeConfigsResource_Encode (dcreq_Resources r)) @
     (if ver_ge (dcreq_APIVersion r) 1 then [PutBool (dcreq_IncludeSynonyms r)] else [])"

definition DescribeConfigsResource_Decode :: "DescribeConfigsResource dec" where
  "DescribeConfigsResource_Decode =
     dbind dInt8 (\<lambda>t. dbind dString (\<lambda>n. dbind dStringArray (\<lambda>cs.
     dret \<lparr>dcr_Type = t, dcr_Name = n, dcr_ConfigNames = cs\<rparr>)))"

definition DescribeConfigsRequest_Decode :: "int16 \<Rightarrow> DescribeConfigsRequest dec" where
  "DescribeConfigsRequest_Decode version =
     dbind (darray DescribeConfigsResource_Decode) (\<lambda>rs.
     dbind (if ver_ge version 1 then dBool else dret False) (\<lambda>syn.
     dret \<lparr>dcreq_APIVersion = version, dcreq_Resources = rs, dcreq_IncludeSynonyms = syn\<rparr>))"

definition DescribeConfigsRequest_valid :: "int16 \<Rightarrow> DescribeConfigsRequest \<Rightarrow> bool" where
  "DescribeConfigsRequest_valid v r \<longleftrightarrow> dcreq_APIVersion r = v \<and> length (dcreq_Resources r) \<le> 131070 \<and>
     (\<forall>s\<in>set (dcreq_Resources r). length (dcr_Name s) \<le> MaxInt16 \<and>
        put_ok (PutStringArray (dcr_ConfigNames s))) \<and> (ver_ge v 1 \<or> \<not> dcreq_IncludeSynonyms r)"

lemma DescribeConfigsResource_size [simp]: "0 < sum_list (map put_size (DescribeConfigsResource_Encode a))"
  by (simp add: DescribeConfigsResource_Encode_def)

lemma DescribeConfigsResource_codec_ok:
  "length (dcr_Name r) \<le> MaxInt16 \<Longrightarrow> put_ok (PutStringArray (dcr_ConfigNames r)) \<Longrightarrow>
   codec_ok (DescribeConfigsResource_Encode r) DescribeConfigsResource_Decode r"
  by (cases r) (auto simp: DescribeConfigsResource_Encode_def DescribeConfigsResource_Decode_def
      simp del: put_ok.simps intro!: wire_intros)

interpretation describe_configs_request: codec DescribeConfigsRequest_Encode DescribeConfigsRequest_Decode
  DescribeConfigsRequest_valid
proof unfold_locales
  fix v and r :: DescribeConfigsRequest
  assume "DescribeConfigsRequest_valid v r"
  then show "codec_ok (DescribeConfigsRequest_Encode r) (DescribeConfigsRequest_Decode v) r"
    by (cases r) (auto simp: DescribeConfigsRequest_valid_def DescribeConfigsRequest_Encode_def
      DescribeConfigsRequest_Decode_def simp del: put_ok.simps
      intro!: wire_intros DescribeConfigsResource_codec_ok)
qed

record DescribeConfigsSynonym =
  dcs_Name :: string
  dcs_Value :: "string option"
  dcs_Source :: int8

record DescribeConfigsEntry =
  dce_Name :: string
  dce_Value :: "string option"
  dce_ReadOnly :: bool
  dce_IsDefault :: bool
  dce_IsSensitive :: bool
  dce_Synonyms :: "DescribeConfigsSynonym list"

record DescribeConfigsResourceResponse =
  dcrr_ErrorCode :: int16
  dcrr_ErrorMessage :: "string option"
  dcrr_Type :: int8
  dcrr_Name :: string
  dcrr_ConfigEntries :: "DescribeConfigsEntry list"

record DescribeConfigsResponse =
  dcres_APIVersion :: int16
  dcres_ThrottleTime :: duration
  dcres_Resources :: "DescribeConfigsResourceResponse list"

definition DescribeConfigsSynonym_Encode :: "DescribeConfigsSynonym \<Rightarrow> put list" where
  "DescribeConfigsSynonym_Encode s =
     [PutString (dcs_Name s), PutNullableString (dcs_Value s), PutInt8 (dcs_Source s)]"

definition DescribeConfigsEntry_Encode :: "int16 \<Rightarrow> DescribeConfigsEntry \<Rightarrow> put list" where
  "DescribeConfigsEntry_Encode v e =
     [PutString (dce_Name e), PutNullableString (dce_Value e), PutBool (dce_ReadOnly e),
      PutBool (dce_IsDefault e), PutBool (dce_IsSensitive e)] @
     (if ver_ge v 1 then PutArrayLength (length (dce_Synonyms e)) #
        concat (map DescribeConfigsSynonym_Encode (dce_Synonyms e)) else [])"

definition DescribeConfigsResourceResponse_Encode :: "int16 \<Rightarrow> DescribeConfigsResourceResponse \<Rightarrow> put list" where
  "DescribeConfigsResourceResponse_Encode v r =
     [PutInt16 (dcrr_ErrorCode r), PutNullableString (dcrr_ErrorMessage r), PutInt8 (dcrr_Type r),
      PutString (dcrr_Name r)] @
     PutArrayLength (length (dcrr_ConfigEntries r)) #
     concat (map (DescribeConfigsEntry_Encode v) (dcrr_ConfigEntries r))"

definition DescribeConfigsResponse_Encode :: "DescribeConfigsResponse \<Rightarrow> put list" where
  "DescribeConfigsResponse_Encode r =
     [PutInt32 (millis_of_duration (dcres_ThrottleTime r))] @
     PutArrayLength (length (dcres_Resources r)) #
     concat (map (DescribeConfigsResourceResponse_Encode (dcres_APIVersion r)) (dcres_Resources r))"

definition DescribeConfigsSynonym_Decode :: "DescribeConfigsSynonym dec" where
  "DescribeConfigsSynonym_Decode =
     dbind dString (\<lambda>n. dbind dNullableString (\<lambda>v. dbind dInt8 (\<lambda>s.
     dret \<lparr>dcs_Name = n, dcs_Value = v, dcs_Source = s\<rparr>)))"

definition DescribeConfigsEntry_Decode :: "int16 \<Rightarrow> DescribeConfigsEntry dec" where
  "DescribeConfigsEntry_Decode version =
     dbind dString (\<lambda>n. dbind dNullableString (\<lambda>v. dbind dBool (\<lambda>ro. dbind dBool (\<lambda>df. dbind dBool (\<lambda>se.
     dbind (if ver_ge version 1 then darray DescribeConfigsSynonym_Decode else dret []) (\<lambda>ss.
     dret \<lparr>dce_Name = n, dce_Value = v, dce_ReadOnly = ro, dce_IsDefault = df, dce_IsSensitive = se,
           dce_Synonyms = ss\<rparr>))))))"

definition DescribeConfigsResourceResponse_Decode :: "int16 \<Rightarrow> DescribeConfigsResourceResponse dec" where
  "DescribeConfigsResourceResponse_Decode version =
     dbind dInt16 (\<lambda>ec. dbind dNullableString (\<lambda>m. dbind dInt8 (\<lambda>t. dbind dString (\<lambda>n.
     dbind (darray (DescribeConfigsEntry_Decode version)) (\<lambda>es.
     dret \<lparr>dcrr_ErrorCode = ec, dcrr_ErrorMessage = m, dcrr_Type = t, dcrr_Name = n,
           dcrr_ConfigEntries = es\<rparr>)))))"

definition DescribeConfigsResponse_Decode :: "int16 \<Rightarrow> DescribeConfigsResponse dec" where
  "DescribeConfigsResponse_Decode version =
     dbind dDuration (\<lambda>throttle.
     dbind (darray (DescribeConfigsResourceResponse_Decode version)) (\<lambda>rs.
     dret \<lparr>dcres_APIVersion = version, dcres_ThrottleTime = throttle, dcres_Resources = rs\<rparr>))"

definition DescribeConfigsEntry_valid :: "int16 \<Rightarrow> DescribeConfigsEntry \<Rightarrow> bool" where
  "DescribeConfigsEntry_valid v e \<longleftrightarrow> length (dce_Name e) \<le> MaxInt16 \<and>
     put_ok (PutNullableString (dce_Value e)) \<and> length (dce_Synonyms e) \<le> 131070 \<and>
     (\<forall>s\<in>set (dce_Synonyms e). length (dcs_Name s) \<le> MaxInt16 \<and> put_ok (PutNullableString (dcs_Value s))) \<and>
     (ver_ge v 1 \<or> dce_Synonyms e = [])"

definition DescribeConfigsResourceResponse_valid :: "int16 \<Rightarrow> DescribeConfigsResourceResponse \<Rightarrow> bool" where
  "DescribeConfigsResourceResponse_valid v r \<longleftrightarrow> length (dcrr_Name r) \<le> MaxInt16 \<and>
     put_ok (PutNullableString (dcrr_ErrorMessage r)) \<and> length (dcrr_ConfigEntries r) \<le> 131070 \<and>
     (\<forall>e\<in>set (dcrr_ConfigEntries r). DescribeConfigsEntry_valid v e)"

definition DescribeConfigsResponse_valid :: "int16 \<Rightarrow> DescribeConfigsResponse \<Rightarrow> bool" where
  "DescribeConfigsResponse_valid v r \<longleftrightarrow> dcres_APIVersion r = v \<and> whole_millis (dcres_ThrottleTime r) \<and>
     length (dcres_Resources r) \<le> 131070 \<and>
     (\<forall>s\<in>set (dcres_Resources r). DescribeConfigsResourceResponse_valid v s)"

lemma DescribeConfigsSynonym_size [simp]: "0 < sum_list (map put_size (DescribeConfigsSynonym_Encode a))"
  by (simp add: DescribeConfigsSynonym_Encode_def)

lemma DescribeConfigsEntry_size [simp]: "0 < sum_list (map put_size (DescribeConfigsEntry_Encode v a))"
  by (simp add: DescribeConfigsEntry_Encode_def)

lemma DescribeConfigsResourceResponse_size [simp]:
  "0 < sum_list (map put_size (DescribeConfigsResourceResponse_Encode v a))"
  by (simp add: DescribeConfigsResourceResponse_Encode_def)

lemma DescribeConfigsSynonym_codec_ok:
  "length (dcs_Name s) \<le> MaxInt16 \<Longrightarrow> put_ok (PutNullableString (dcs_Value s)) \<Longrightarrow>
   codec_ok (DescribeConfigsSynonym_Encode s) DescribeConfigsSynonym_Decode s"
  by (cases s) (auto simp: DescribeConfigsSynonym_Encode_def DescribeConfigsSynonym_Decode_def
      simp del: put_ok.simps intro!: wire_intros)

lemma DescribeConfigsEntry_codec_ok:
  "DescribeConfigsEntry_valid v e \<Longrightarrow> codec_ok (DescribeConfigsEntry_Encode v e) (DescribeConfigsEntry_Decode v) e"
  by (cases e) (auto simp: DescribeConfigsEntry_valid_def DescribeConfigsEntry_Encode_def
      DescribeConfigsEntry_Decode_def simp del: put_ok.simps
      intro!: wire_intros DescribeConfigsSynonym_codec_ok)

lemma DescribeConfigsResourceResponse_codec_ok:
  "DescribeConfigsResourceResponse_valid v r \<Longrightarrow>
   codec_ok (DescribeConfigsResourceResponse_Encode v r) (DescribeConfigsResourceResponse_Decode v) r"
  by (cases r) (auto simp: DescribeConfigsResourceResponse_valid_def DescribeConfigsResourceResponse_Encode_def
      DescribeConfigsResourceResponse_Decode_def simp del: put_ok.simps
      intro!: wire_intros DescribeConfigsEntry_codec_ok)

interpretation describe_configs_response: codec DescribeConfigsResponse_Encode
  DescribeConfigsResponse_Decode DescribeConfigsResponse_valid
proof unfold_locales
  fix v and r :: DescribeConfigsResponse
  assume "DescribeConfigsResponse_valid v r"
  then show "codec_ok (DescribeConfigsResponse_Encode r) (DescribeConfigsResponse_Decode v) r"
    by (cases r) (auto simp: DescribeConfigsResponse_valid_def DescribeConfigsResponse_Encode_def
      DescribeConfigsResponse_Decode_def intro!: wire_intros DescribeConfigsResourceResponse_codec_ok)
qed

end
