(* ===== verification/Proto_Groups.thy ===== *)
theory Proto_Groups
  imports Proto_Topics
begin

text \<open>
  The group and coordinator messages: FindCoordinator, JoinGroup, SyncGroup, Heartbeat, LeaveGroup,
  ListGroups, DescribeGroups, OffsetCommit, OffsetFetch, and the three requests without fields
  (SaslHandshake, UpdateMetadata, ControlledShutdown).
\<close>

section \<open>FindCoordinator\<close>

record FindCoordinatorRequest =
  fcreq_APIVersion :: int16
  fcreq_CoordinatorKey :: string
  fcreq_CoordinatorType :: int8

definition FindCoordinatorRequest_Encode :: "FindCoordinatorRequest \<Rightarrow> put list" where
  "FindCoordinatorRequest_Encode r =
     [PutString (fcreq_CoordinatorKey r)] @
     (if ver_ge (fcreq_APIVersion r) 1 then [PutInt8 (fcreq_CoordinatorType r)] else [])"

definition FindCoordinatorRequest_Decode :: "int16 \<Rightarrow> FindCoordinatorRequest dec" where
  "FindCoordinatorRequest_Decode version =
     dbind dString (\<lambda>k. dbind (if ver_ge version 1 then dInt8 else dret 0) (\<lambda>t.
     dret \<lparr>fcreq_APIVersion = version, fcreq_CoordinatorKey = k, fcreq_CoordinatorType = t\<rparr>))"

definition FindCoordinatorRequest_valid :: "int16 \<Rightarrow> FindCoordinatorRequest \<Rightarrow> bool" where
  "FindCoordinatorRequest_valid v r \<longleftrightarrow> fcreq_APIVersion r = v \<and>
     length (fcreq_CoordinatorKey r) \<le> MaxInt16 \<and> (ver_ge v 1 \<or> fcreq_CoordinatorType r = 0)"

interpretation find_coordinator_request: codec FindCoordinatorRequest_Encode
  FindCoordinatorRequest_Decode FindCoordinatorRequest_valid
proof unfold_locales
  fix v and r :: FindCoordinatorRequest
  assume "FindCoordinatorRequest_valid v r"
  then show "codec_ok (FindCoordinatorRequest_Encode r) (FindCoordinatorRequest_Decode v) r"
    by (cases r) (auto simp: FindCoordinatorRequest_valid_def FindCoordinatorRequest_Encode_def
      FindCoordinatorRequest_Decode_def intro!: wire_intros)
qed

record Coordinator =
  coo_NodeID :: int32
  coo_Host :: string
  coo_Port :: int32

record FindCoordinatorResponse =
  fcres_APIVersion :: int16
  fcres_ThrottleTime :: duration
  fcres_ErrorCode :: int16
  fcres_ErrorMessage :: "string option"
  fcres_Coordinator :: Coordinator

definition FindCoordinatorResponse_Encode :: "FindCoordinatorResponse \<Rightarrow> put list" where
  "FindCoordinatorResponse_Encode r =
     (if ver_ge (fcres_APIVersion r) 1
      then [PutInt32 (millis_of_duration (fcres_ThrottleTime r))] else []) @
     [PutInt16 (fcres_ErrorCode r)] @
     (if ver_ge (fcres_APIVersion r) 1 then [PutNullableString (fcres_ErrorMessage r)] else []) @
     [PutInt32 (coo_NodeID (fcres_Coordinator r)), PutString (coo_Host (fcres_Coordinator r)),
      PutInt32 (coo_Port (fcres_Coordinator r))]"

definition FindCoordinatorResponse_Decode :: "int16 \<Rightarrow> FindCoordinatorResponse dec" where
  "FindCoordinatorResponse_Decode version =
     dbind (if ver_ge version 1 then dDuration else dret 0) (\<lambda>throttle.
     dbind dInt16 (\<lambda>ec.
     dbind (if ver_ge version 1 then dNullableString else dret None) (\<lambda>m.
     dbind dInt32 (\<lambda>n. dbind dString (\<lambda>h. dbind dInt32 (\<lambda>p.
     dret \<lparr>fcres_APIVersion = version, fcres_ThrottleTime = throttle, fcres_ErrorCode = ec,
           fcres_ErrorMessage = m,
           fcres_Coordinator = \<lparr>coo_NodeID = n, coo_Host = h, coo_Port = p\<rparr>\<rparr>))))))"

definition FindCoordinatorResponse_valid :: "int16 \<Rightarrow> FindCoordinatorResponse \<Rightarrow> bool" where
  "FindCoordinatorResponse_valid v r \<longleftrightarrow> fcres_APIVersion r = v \<and>
     length (coo_Host (fcres_Coordinator r)) \<le> MaxInt16 \<and>
     (if ver_ge v 1 then whole_millis (fcres_ThrottleTime r) \<and> put_ok (PutNullableString (fcres_ErrorMessage r))
      else fcres_ThrottleTime r = 0 \<and> fcres_ErrorMessage r = None)"

interpretation find_coordinator_response: codec FindCoordinatorResponse_Encode
  FindCoordinatorResponse_Decode FindCoordinatorResponse_valid
proof unfold_locales
  fix v and r :: FindCoordinatorResponse
  assume "FindCoordinatorResponse_valid v r"
  then show "codec_ok (FindCoordinatorResponse_Encode r) (FindCoordinatorResponse_Decode v) r"
    by (cases r; cases "fcres_Coordinator r") (auto simp: FindCoordinatorResponse_valid_def
      FindCoordinatorResponse_Encode_def FindCoordinatorResponse_Decode_def
      simp del: put_ok.simps split: if_splits intro!: wire_intros)
qed

section \<open>JoinGroup\<close>

record GroupProtocol =
  gp_ProtocolName :: string
  gp_ProtocolMetadata :: "bytes option"

record JoinGroupRequest =
  jreq_APIVersion :: int16
  jreq_GroupID :: string
  jreq_SessionTimeout :: int32
  jreq_RebalanceTimeout :: int32
  jreq_MemberID :: string
  jreq_ProtocolType :: string
  jreq_GroupProtocols :: "GroupProtocol list"

definition GroupProtocol_Encode :: "GroupProtocol \<Rightarrow> put list" where
  "GroupProtocol_Encode g = [PutString (gp_ProtocolName g), PutBytes (gp_ProtocolMetadata g)]"

text \<open>\<^verbatim>\<open>Encode\<close> writes the group protocols without their number; \<^verbatim>\<open>Decode\<close> expects it.\<close>

definition JoinGroupRequest_Encode :: "JoinGroupRequest \<Rightarrow> put list" where
  "JoinGroupRequest_Encode r =
     [PutString (jreq_GroupID r), PutInt32 (jreq_SessionTimeout r)] @
     (if ver_ge (jreq_APIVersion r) 1 then [PutInt32 (jreq_RebalanceTimeout r)] else []) @
     [PutString (jreq_MemberID r), PutString (jreq_ProtocolType r)] @
     concat (map GroupProtocol_Encode (jreq_GroupProtocols r))"

definition GroupProtocol_Decode :: "GroupProtocol dec" where
  "GroupProtocol_Decode =
     dbind dString (\<lambda>n. dbind dBytes (\<lambda>m. dret \<lparr>gp_ProtocolName = n, gp_ProtocolMetadata = m\<rparr>))"

definition JoinGroupRequest_Decode :: "int16 \<Rightarrow> JoinGroupRequest dec" where
  "JoinGroupRequest_Decode version =
     dbind dString (\<lambda>g. dbind dInt32 (\<lambda>st.
     dbind (if ver_ge version 1 then dInt32 else dret 0) (\<lambda>rt.
     dbind dString (\<lambda>m. dbind dString (\<lambda>pt.
     dbind (darray GroupProtocol_Decode) (\<lambda>gps.
     dret \<lparr>jreq_APIVersion = version, jreq_GroupID = g, jreq_SessionTimeout = st,
           jreq_RebalanceTimeout = rt, jreq_MemberID = m, jreq_ProtocolType = pt,
           jreq_GroupProtocols = gps\<rparr>))))))"

record Member =
  mem_MemberID :: string
  mem_MemberMetadata :: "bytes option"

record JoinGroupResponse =
  jres_APIVersion :: int16
  jres_ThrottleTime :: duration
  jres_ErrorCode :: int16
  jres_GenerationID :: int32
  jres_GroupProtocol :: string
  jres_LeaderID :: string
  jres_MemberID :: string
  jres_Members :: "Member list"

definition Member_Encode :: "Member \<Rightarrow> put list" where
  "Member_Encode m = [PutString (mem_MemberID m), PutBytes (mem_MemberMetadata m)]"

definition JoinGroupResponse_Encode :: "JoinGroupResponse \<Rightarrow> put list" where
  "JoinGroupResponse_Encode r =
     (if ver_ge (jres_APIVersion r) 1
      then [PutInt32 (millis_of_duration (jres_ThrottleTime r))] else []) @
     [PutInt16 (jres_ErrorCode r), PutInt32 (jres_GenerationID r), PutString (jres_GroupProtocol r),
      PutString (jres_LeaderID r), PutString (jres_MemberID r)] @
     PutArrayLength (length (jres_Members r)) # concat (map Member_Encode (jres_Members r))"

definition Member_Decode :: "Member dec" where
  "Member_Decode =
     dbind dString (\<lambda>i. dbind dBytes (\<lambda>m. dret \<lparr>mem_MemberID = i, mem_MemberMetadata = m\<rparr>))"

text \<open>The throttle time is written from version 1 on and read from version 2 on.\<close>

definition JoinGroupResponse_Decode :: "int16 \<Rightarrow> JoinGroupResponse dec" where
  "JoinGroupResponse_Decode version =
     dbind (if ver_ge version 2 then dDuration else dret 0) (\<lambda>throttle.
     dbind dInt16 (\<lambda>ec. dbind dInt32 (\<lambda>g. dbind dString (\<lambda>p. dbind dString (\<lambda>l. dbind dString (\<lambda>m.
     dbind (darray Member_Decode) (\<lambda>ms.
     dret \<lparr>jres_APIVersion = version, jres_ThrottleTime = throttle, jres_ErrorCode = ec,
           jres_GenerationID = g, jres_GroupProtocol = p, jres_LeaderID = l, jres_MemberID = m,
           jres_Members = ms\<rparr>)))))))"

definition JoinGroupResponse_valid :: "int16 \<Rightarrow> JoinGroupResponse \<Rightarrow> bool" where
  "JoinGroupResponse_valid v r \<longleftrightarrow> jres_APIVersion r = v \<and> sint v \<noteq> 1 \<and>
     (if ver_ge v 1 then whole_millis (jres_ThrottleTime r) else jres_ThrottleTime r = 0) \<and>
     length (jres_GroupProtocol r) \<le> MaxInt16 \<and> length (jres_LeaderID r) \<le> MaxInt16 \<and>
     length (jres_MemberID r) \<le> MaxInt16 \<and> length (jres_Members r) \<le> 131070 \<and>
     (\<forall>m\<in>set (jres_Members r). length (mem_MemberID m) \<le> MaxInt16 \<and> put_ok (PutBytes (mem_MemberMetadata m)))"

lemma Member_size [simp]: "0 < sum_list (map put_size (Member_Encode m))"
  by (simp add: Member_Encode_def)

lemma Member_codec_ok:
  "length (mem_MemberID m) \<le> MaxInt16 \<Longrightarrow> put_ok (PutBytes (mem_MemberMetadata m)) \<Longrightarrow>
   codec_ok (Member_Encode m) Member_Decode m"
  by (cases m) (auto simp: Member_Encode_def Member_Decode_def simp del: put_ok.simps intro!: wire_intros)

interpretation join_group_response: codec JoinGroupResponse_Encode JoinGroupResponse_Decode
  JoinGroupResponse_valid
proof unfold_locales
  fix v and r :: JoinGroupResponse
  assume v: "JoinGroupResponse_valid v r"
  then have "ver_ge v 1 \<longleftrightarrow> ver_ge v 2" by (auto simp: JoinGroupResponse_valid_def)
  with v show "codec_ok (JoinGroupResponse_Encode r) (JoinGroupResponse_Decode v) r"
    by (cases r) (auto simp: JoinGroupResponse_valid_def JoinGroupResponse_Encode_def
      JoinGroupResponse_Decode_def simp del: put_ok.simps split: if_splits
      intro!: wire_intros Member_codec_ok)
qed

section \<open>SyncGroup\<close>

record GroupAssignment =
  ga_MemberID :: string
  ga_MemberAssignment :: "bytes option"

record SyncGroupRequest =
  sreq_APIVersion :: int16
  sreq_GroupID :: string
  sreq_GenerationID :: int32
  sreq_MemberID :: string
  sreq_GroupAssignments :: "GroupAssignment list"

definition GroupAssignment_Encode :: "GroupAssignment \<Rightarrow> put list" where
  "GroupAssignment_Encode a = [PutString (ga_MemberID a), PutBytes (ga_MemberAssignment a)]"

definition SyncGroupRequest_Encode :: "SyncGroupRequest \<Rightarrow> put list" where
  "SyncGroupRequest_Encode r =
     [PutString (sreq_GroupID r), PutInt32 (sreq_GenerationID r), PutString (sreq_MemberID r)] @
     PutArrayLength (length (sreq_GroupAssignments r)) #
     concat (map GroupAssignment_Encode (sreq_GroupAssignments r))"

definition GroupAssignment_Decode :: "GroupAssignment dec" where
  "GroupAssignment_Decode =
     dbind dString (\<lambda>i. dbind dBytes (\<lambda>a. dret \<lparr>ga_MemberID = i, ga_MemberAssignment = a\<rparr>))"

definition SyncGroupRequest_Decode :: "int16 \<Rightarrow> SyncGroupRequest dec" where
  "SyncGroupRequest_Decode version =
     dbind dString (\<lambda>g. dbind dInt32 (\<lambda>gen. dbind dString (\<lambda>m.
     dbind (darray GroupAssignment_Decode) (\<lambda>as.
     dret \<lparr>sreq_APIVersion = version, sreq_GroupID = g, sreq_GenerationID = gen, sreq_MemberID = m,
           sreq_GroupAssignments = as\<rparr>))))"

definition SyncGroupRequest_valid :: "int16 \<Rightarrow> SyncGroupRequest \<Rightarrow> bool" where
  "SyncGroupRequest_valid v r \<longleftrightarrow> sreq_APIVersion r = v \<and> length (sreq_GroupID r) \<le> MaxInt16 \<and>
     length (sreq_MemberID r) \<le> MaxInt16 \<and> length (sreq_GroupAssignments r) \<le> 131070 \<and>
     (\<forall>a\<in>set (sreq_GroupAssignments r). length (ga_MemberID a) \<le> MaxInt16 \<and>
        put_ok (PutBytes (ga_MemberAssignment a)))"

lemma GroupAssignment_size [simp]: "0 < sum_list (map put_size (GroupAssignment_Encode m))"
  by (simp add: GroupAssignment_Encode_def)

lemma GroupAssignment_codec_ok:
  "length (ga_MemberID a) \<le> MaxInt16 \<Longrightarrow> put_ok (PutBytes (ga_MemberAssignment a)) \<Longrightarrow>
   codec_ok (GroupAssignment_Encode a) GroupAssignment_Decode a"
  by (cases a) (auto simp: GroupAssignment_Encode_def GroupAssignment_Decode_def
      simp del: put_ok.simps intro!: wire_intros)

interpretation sync_group_request: codec SyncGroupRequest_Encode SyncGroupRequest_Decode
  SyncGroupRequest_valid
proof unfold_locales
  fix v and r :: SyncGroupRequest
  assume "SyncGroupRequest_valid v r"
  then show "codec_ok (SyncGroupRequest_Encode r) (SyncGroupRequest_Decode v) r"
    by (cases r) (auto simp: SyncGroupRequest_valid_def SyncGroupRequest_Encode_def
      SyncGroupRequest_Decode_def simp del: put_ok.simps intro!: wire_intros GroupAssignment_codec_ok)
qed

record SyncGroupResponse =
  sres_APIVersion :: int16
  sres_ThrottleTime :: duration
  sres_ErrorCode :: int16
  sres_MemberAssignment :: "bytes option"

definition SyncGroupResponse_Encode :: "SyncGroupResponse \<Rightarrow> put list" where
  "SyncGroupResponse_Encode r =
     (if ver_ge (sres_APIVersion r) 1
      then [PutInt32 (millis_of_duration (sres_ThrottleTime r))] else []) @
     [PutInt16 (sres_ErrorCode r), PutBytes (sres_MemberAssignment r)]"

definition SyncGroupResponse_Decode :: "int16 \<Rightarrow> SyncGroupResponse dec" where
  "SyncGroupResponse_Decode version =
     dbind (if ver_ge version 1 then dDuration else dret 0) (\<lambda>throttle.
     dbind dInt16 (\<lambda>ec. dbind dBytes (\<lambda>a.
     dret \<lparr>sres_APIVersion = version, sres_ThrottleTime = throttle, sres_ErrorCode = ec,
           sres_MemberAssignment = a\<rparr>)))"

definition SyncGroupResponse_valid :: "int16 \<Rightarrow> SyncGroupResponse \<Rightarrow> bool" where
  "SyncGroupResponse_valid v r \<longleftrightarrow> sres_APIVersion r = v \<and> put_ok (PutBytes (sres_MemberAssignment r)) \<and>
     (if ver_ge v 1 then whole_millis (sres_ThrottleTime r) else sres_ThrottleTime r = 0)"

interpretation sync_group_response: codec SyncGroupResponse_Encode SyncGroupResponse_Decode
  SyncGroupResponse_valid
proof unfold_locales
  fix v and r :: SyncGroupResponse
  assume "SyncGroupResponse_valid v r"
  then show "codec_ok (SyncGroupResponse_Encode r) (SyncGroupResponse_Decode v) r"
    by (cases r) (auto simp: SyncGroupResponse_valid_def SyncGroupResponse_Encode_def
      SyncGroupResponse_Decode_def simp del: put_ok.simps split: if_splits intro!: wire_intros)
qed

section \<open>Heartbeat and LeaveGroup\<close>

record HeartbeatRequest =
  hreq_APIVersion :: int16
  hreq_GroupID :: string
  hreq_GroupGenerationID :: int32
  hreq_MemberID :: string

definition HeartbeatRequest_Encode :: "HeartbeatRequest \<Rightarrow> put list" where
  "HeartbeatRequest_Encode r =
     [PutString (hreq_GroupID r), PutInt32 (hreq_GroupGenerationID r), PutString (hreq_MemberID r)]"

definition HeartbeatRequest_Decode :: "int16 \<Rightarrow> HeartbeatRequest dec" where
  "HeartbeatRequest_Decode version =
     dbind dString (\<lambda>g. dbind dInt32 (\<lambda>gen. dbind dString (\<lambda>m.
     dret \<lparr>hreq_APIVersion = version, hreq_GroupID = g, hreq_GroupGenerationID = gen,
           hreq_MemberID = m\<rparr>)))"

definition HeartbeatRequest_valid :: "int16 \<Rightarrow> HeartbeatRequest \<Rightarrow> bool" where
  "HeartbeatRequest_valid v r \<longleftrightarrow> hreq_APIVersion r = v \<and> length (hreq_GroupID r) \<le> MaxInt16 \<and>
     length (hreq_MemberID r) \<le> MaxInt16"

interpretation heartbeat_request: codec HeartbeatRequest_Encode HeartbeatRequest_Decode
  HeartbeatRequest_valid
proof unfold_locales
  fix v and r :: HeartbeatRequest
  assume "HeartbeatRequest_valid v r"
  then show "codec_ok (HeartbeatRequest_Encode r) (HeartbeatRequest_Decode v) r"
    by (cases r) (auto simp: HeartbeatRequest_valid_def HeartbeatRequest_Encode_def
      HeartbeatRequest_Decode_def intro!: wire_intros)
qed

record HeartbeatResponse =
  hres_APIVersion :: int16
  hres_ThrottleTime :: duration
  hres_ErrorCode :: int16

text \<open>\<^verbatim>\<open>Encode\<close> never writes the throttle time; \<^verbatim>\<open>Decode\<close> reads it from version 1 on, and divides it.\<close>

definition HeartbeatResponse_Encode :: "HeartbeatResponse \<Rightarrow> put list" where
  "HeartbeatResponse_Encode r = [PutInt16 (hres_ErrorCode r)]"

definition HeartbeatResponse_Decode :: "int16 \<Rightarrow> HeartbeatResponse dec" where
  "HeartbeatResponse_Decode version =
     dbind (if ver_ge version 1 then dbind dInt32 (\<lambda>t. dret (word_of_int (sint t sdiv 1000000))) else dret 0)
       (\<lambda>throttle. dbind dInt16 (\<lambda>ec.
     dret \<lparr>hres_APIVersion = version, hres_ThrottleTime = throttle, hres_ErrorCode = ec\<rparr>))"

definition HeartbeatResponse_valid :: "int16 \<Rightarrow> HeartbeatResponse \<Rightarrow> bool" where
  "HeartbeatResponse_valid v r \<longleftrightarrow> hres_APIVersion r = v \<and> \<not> ver_ge v 1 \<and> hres_ThrottleTime r = 0"

interpretation heartbeat_response: codec HeartbeatResponse_Encode HeartbeatResponse_Decode
  HeartbeatResponse_valid
proof unfold_locales
  fix v and r :: HeartbeatResponse
  assume "HeartbeatResponse_valid v r"
  then show "codec_ok (HeartbeatResponse_Encode r) (HeartbeatResponse_Decode v) r"
    by (cases r) (auto simp: HeartbeatResponse_valid_def HeartbeatResponse_Encode_def
      HeartbeatResponse_Decode_def intro!: wire_intros)
qed

record LeaveGroupRequest =
  lgreq_APIVersion :: int16
  lgreq_GroupID :: string
  lgreq_MemberID :: string

definition LeaveGroupRequest_Encode :: "LeaveGroupRequest \<Rightarrow> put list" where
  "LeaveGroupRequest_Encode r = [PutString (lgreq_GroupID r), PutString (lgreq_MemberID r)]"

definition LeaveGroupRequest_Decode :: "int16 \<Rightarrow> LeaveGroupRequest dec" where
  "LeaveGroupRequest_Decode version =
     dbind dString (\<lambda>g. dbind dString (\<lambda>m.
     dret \<lparr>lgreq_APIVersion = version, lgreq_GroupID = g, lgreq_MemberID = m\<rparr>))"

definition LeaveGroupRequest_valid :: "int16 \<Rightarrow> LeaveGroupRequest \<Rightarrow> bool" where
  "LeaveGroupRequest_valid v r \<longleftrightarrow> lgreq_APIVersion r = v \<and> length (lgreq_GroupID r) \<le> MaxInt16 \<and>
     length (lgreq_MemberID r) \<le> MaxInt16"

interpretation leave_group_request: codec LeaveGroupRequest_Encode LeaveGroupRequest_Decode
  LeaveGroupRequest_valid
proof unfold_locales
  fix v and r :: LeaveGroupRequest
  assume "LeaveGroupRequest_valid v r"
  then show "codec_ok (LeaveGroupRequest_Encode r) (LeaveGroupRequest_Decode v) r"
    by (cases r) (auto simp: LeaveGroupRequest_valid_def LeaveGroupRequest_Encode_def
      LeaveGroupRequest_Decode_def intro!: wire_intros)
qed

record LeaveGroupResponse =
  lgres_APIVersion :: int16
  lgres_ThrottleTime :: duration
  lgres_ErrorCode :: int16

definition LeaveGroupResponse_Encode :: "LeaveGroupResponse \<Rightarrow> put list" where
  "LeaveGroupResponse_Encode r =
     (if ver_ge (lgres_APIVersion r) 1
      then [PutInt32 (millis_of_duration (lgres_ThrottleTime r))] else []) @
     [PutInt16 (lgres_ErrorCode r)]"

definition LeaveGroupResponse_Decode :: "int16 \<Rightarrow> LeaveGroupResponse dec" where
  "LeaveGroupResponse_Decode version =
     dbind (if ver_ge version 1 then dDuration else dret 0) (\<lambda>throttle. dbind dInt16 (\<lambda>ec.
     dret \<lparr>lgres_APIVersion = version, lgres_ThrottleTime = throttle, lgres_ErrorCode = ec\<rparr>))"

definition LeaveGroupResponse_valid :: "int16 \<Rightarrow> LeaveGroupResponse \<Rightarrow> bool" where
  "LeaveGroupResponse_valid v r \<longleftrightarrow> lgres_APIVersion r = v \<and>
     (if ver_ge v 1 then whole_millis (lgres_ThrottleTime r) else lgres_ThrottleTime r = 0)"

interpretation leave_group_response: codec LeaveGroupResponse_Encode LeaveGroupResponse_Decode
  LeaveGroupResponse_valid
proof unfold_locales
  fix v and r :: LeaveGroupResponse
  assume "LeaveGroupResponse_valid v r"
  then show "codec_ok (LeaveGroupResponse_Encode r) (LeaveGroupResponse_Decode v) r"
    by (cases r) (auto simp: LeaveGroupResponse_valid_def LeaveGroupResponse_Encode_def
      LeaveGroupResponse_Decode_def split: if_splits intro!: wire_intros)
qed

section \<open>ListGroups and DescribeGroups\<close>

record ListGroupsRequest =
  lsreq_APIVersion :: int16

definition ListGroupsRequest_Encode :: "ListGroupsRequest \<Rightarrow> put list" where
  "ListGroupsRequest_Encode r = []"

definition ListGroupsRequest_Decode :: "int16 \<Rightarrow> ListGroupsRequest dec" where
  "ListGroupsRequest_Decode version = dret \<lparr>lsreq_APIVersion = version\<rparr>"

interpretation list_groups_request: codec ListGroupsRequest_Encode ListGroupsRequest_Decode
  "\<lambda>v r. lsreq_APIVersion r = v"
proof unfold_locales
  fix v and r :: ListGroupsRequest
  assume "lsreq_APIVersion r = v"
  then show "codec_ok (ListGroupsRequest_Encode r) (ListGroupsRequest_Decode v) r"
    by (cases r) (auto simp: ListGroupsRequest_Encode_def ListGroupsRequest_Decode_def intro!: wire_intros)
qed

record ListGroup =
  lsg_GroupID :: string
  lsg_ProtocolType :: string

record ListGroupsResponse =
  lsres_APIVersion :: int16
  lsres_ThrottleTime :: duration
  lsres_ErrorCode :: int16
  lsres_Groups :: "ListGroup list"

definition ListGroup_Encode :: "ListGroup \<Rightarrow> put list" where
  "ListGroup_Encode g = [PutString (lsg_GroupID g), PutString (lsg_ProtocolType g)]"

definition ListGroupsResponse_Encode :: "ListGroupsResponse \<Rightarrow> put list" where
  "ListGroupsResponse_Encode r =
     (if ver_ge (lsres_APIVersion r) 1
      then [PutInt32 (millis_of_duration (lsres_ThrottleTime r))] else []) @
     [PutInt16 (lsres_ErrorCode r)] @
     PutArrayLength (length (lsres_Groups r)) # concat (map ListGroup_Encode (lsres_Groups r))"

definition ListGroup_Decode :: "ListGroup dec" where
  "ListGroup_Decode =
     dbind dString (\<lambda>g. dbind dString (\<lambda>p. dret \<lparr>lsg_GroupID = g, lsg_ProtocolType = p\<rparr>))"

definition ListGroupsResponse_Decode :: "int16 \<Rightarrow> ListGroupsResponse dec" where
  "ListGroupsResponse_Decode version =
     dbind (if ver_ge version 1 then dDuration else dret 0) (\<lambda>throttle. dbind dInt16 (\<lambda>ec.
     dbind (darray ListGroup_Decode) (\<lambda>gs.
     dret \<lparr>lsres_APIVersion = version, lsres_ThrottleTime = throttle, lsres_ErrorCode = ec,
           lsres_Groups = gs\<rparr>)))"

definition ListGroupsResponse_valid :: "int16 \<Rightarrow> ListGroupsResponse \<Rightarrow> bool" where
  "ListGroupsResponse_valid v r \<longleftrightarrow> lsres_APIVersion r = v \<and> length (lsres_Groups r) \<le> 131070 \<and>
     (\<forall>g\<in>set (lsres_Groups r). length (lsg_GroupID g) \<le> MaxInt16 \<and> length (lsg_ProtocolType g) \<le> MaxInt16) \<and>
     (if ver_ge v 1 then whole_millis (lsres_ThrottleTime r) else lsres_ThrottleTime r = 0)"

lemma ListGroup_size [simp]: "0 < sum_list (map put_size (ListGroup_Encode m))"
  by (simp add: ListGroup_Encode_def)

lemma ListGroup_codec_ok:
  "length (lsg_GroupID g) \<le> MaxInt16 \<Longrightarrow> length (lsg_ProtocolType g) \<le> MaxInt16 \<Longrightarrow>
   codec_ok (ListGroup_Encode g) ListGroup_Decode g"
  by (cases g) (auto simp: ListGroup_Encode_def ListGroup_Decode_def intro!: wire_intros)

interpretation list_groups_response: codec ListGroupsResponse_Encode ListGroupsResponse_Decode
  ListGroupsResponse_valid
proof unfold_locales
  fix v and r :: ListGroupsResponse
  assume "ListGroupsResponse_valid v r"
  then show "codec_ok (ListGroupsResponse_Encode r) (ListGroupsResponse_Decode v) r"
    by (cases r) (auto simp: ListGroupsResponse_valid_def ListGroupsResponse_Encode_def
      ListGroupsResponse_Decode_def split: if_splits intro!: wire_intros ListGroup_codec_ok)
qed

record DescribeGroupsRequest =
  dgreq_APIVersion :: int16
  dgreq_GroupIDs :: "string list"

definition DescribeGroupsRequest_Encode :: "DescribeGroupsRequest \<Rightarrow> put list" where
  "DescribeGroupsRequest_Encode r = [PutStringArray (dgreq_GroupIDs r)]"

definition DescribeGroupsRequest_Decode :: "int16 \<Rightarrow> DescribeGroupsRequest dec" where
  "DescribeGroupsRequest_Decode version =
     dbind dStringArray (\<lambda>gs. dret \<lparr>dgreq_APIVersion = version, dgreq_GroupIDs = gs\<rparr>)"

interpretation describe_groups_request: codec DescribeGroupsRequest_Encode DescribeGroupsRequest_Decode
  "\<lambda>v r. dgreq_APIVersion r = v \<and> put_ok (PutStringArray (dgreq_GroupIDs r))"
proof unfold_locales
  fix v and r :: DescribeGroupsRequest
  assume "dgreq_APIVersion r = v \<and> put_ok (PutStringArray (dgreq_GroupIDs r))"
  then show "codec_ok (DescribeGroupsRequest_Encode r) (DescribeGroupsRequest_Decode v) r"
    by (cases r) (auto simp: DescribeGroupsRequest_Encode_def DescribeGroupsRequest_Decode_def
      simp del: put_ok.simps intro!: wire_intros)
qed

record GroupMember =
  gm_ClientID :: string
  gm_ClientHost :: string
  gm_GroupMemberMetadata :: "bytes option"
  gm_GroupMemberAssignment :: "bytes option"

record Group =
  grp_ErrorCode :: int16
  grp_GroupID :: string
  grp_State :: string
  grp_ProtocolType :: string
  grp_Protocol :: string
  grp_GroupMembers :: "(string \<times> GroupMember) list"

record DescribeGroupsResponse =
  dgres_APIVersion :: int16
  dgres_ThrottleTime :: duration
  dgres_Groups :: "Group list"

definition GroupMember_Encode :: "GroupMember \<Rightarrow> put list" where
  "GroupMember_Encode m =
     [PutString (gm_ClientID m), PutString (gm_ClientHost m), PutBytes (gm_GroupMemberMetadata m),
      PutBytes (gm_GroupMemberAssignment m)]"

definition GroupMemberEntry_Encode :: "string \<times> GroupMember \<Rightarrow> put list" where
  "GroupMemberEntry_Encode e = PutString (fst e) # GroupMember_Encode (snd e)"

definition Group_Encode :: "Group \<Rightarrow> put list" where
  "Group_Encode g =
     [PutInt16 (grp_ErrorCode g), PutString (grp_GroupID g), PutString (grp_State g),
      PutString (grp_ProtocolType g), PutString (grp_Protocol g)] @
     PutArrayLength (length (grp_GroupMembers g)) #
     concat (map GroupMemberEntry_Encode (grp_GroupMembers g))"

definition DescribeGroupsResponse_Encode :: "DescribeGroupsResponse \<Rightarrow> put list" where
  "DescribeGroupsResponse_Encode r =
     (if ver_ge (dgres_APIVersion r) 1
      then [PutInt32 (millis_of_duration (dgres_ThrottleTime r))] else []) @
     PutArrayLength (length (dgres_Groups r)) # concat (map Group_Encode (dgres_Groups r))"

definition GroupMember_Decode :: "GroupMember dec" where
  "GroupMember_Decode =
     dbind dString (\<lambda>c. dbind dString (\<lambda>h. dbind dBytes (\<lambda>m. dbind dBytes (\<lambda>a.
     dret \<lparr>gm_ClientID = c, gm_ClientHost = h, gm_GroupMemberMetadata = m,
           gm_GroupMemberAssignment = a\<rparr>))))"

definition GroupMemberEntry_Decode :: "(string \<times> GroupMember) dec" where
  "GroupMemberEntry_Decode = dbind dString (\<lambda>i. dbind GroupMember_Decode (\<lambda>m. dret (i, m)))"

definition Group_Decode :: "Group dec" where
  "Group_Decode =
     dbind dInt16 (\<lambda>ec. dbind dString (\<lambda>g. dbind dString (\<lambda>s. dbind dString (\<lambda>pt. dbind dString (\<lambda>p.
     dbind (darray GroupMemberEntry_Decode) (\<lambda>ms.
     dret \<lparr>grp_ErrorCode = ec, grp_GroupID = g, grp_State = s, grp_ProtocolType = pt,
           grp_Protocol = p, grp_GroupMembers = map_puts ms\<rparr>))))))"

definition DescribeGroupsResponse_Decode :: "int16 \<Rightarrow> DescribeGroupsResponse dec" where
  "DescribeGroupsResponse_Decode version =
     dbind (if ver_ge version 1 then dDuration else dret 0) (\<lambda>throttle.
     dbind (darray Group_Decode) (\<lambda>gs.
     dret \<lparr>dgres_APIVersion = version, dgres_ThrottleTime = throttle, dgres_Groups = gs\<rparr>))"

definition GroupMember_valid :: "string \<times> GroupMember \<Rightarrow> bool" where
  "GroupMember_valid e \<longleftrightarrow> length (fst e) \<le> MaxInt16 \<and> length (gm_ClientID (snd e)) \<le> MaxInt16 \<and>
     length (gm_ClientHost (snd e)) \<le> MaxInt16 \<and> put_ok (PutBytes (gm_GroupMemberMetadata (snd e))) \<and>
     put_ok (PutBytes (gm_GroupMemberAssignment (snd e)))"

definition Group_valid :: "Group \<Rightarrow> bool" where
  "Group_valid g \<longleftrightarrow> length (grp_GroupID g) \<le> MaxInt16 \<and> length (grp_State g) \<le> MaxInt16 \<and>
     length (grp_ProtocolType g) \<le> MaxInt16 \<and> length (grp_Protocol g) \<le> MaxInt16 \<and>
     length (grp_GroupMembers g) \<le> 131070 \<and> distinct (map fst (grp_GroupMembers g)) \<and>
     (\<forall>e\<in>set (grp_GroupMembers g). GroupMember_valid e)"

definition DescribeGroupsResponse_valid :: "int16 \<Rightarrow> DescribeGroupsResponse \<Rightarrow> bool" where
  "DescribeGroupsResponse_valid v r \<longleftrightarrow> dgres_APIVersion r = v \<and> length (dgres_Groups r) \<le> 131070 \<and>
     (\<forall>g\<in>set (dgres_Groups r). Group_valid g) \<and>
     (if ver_ge v 1 then whole_millis (dgres_ThrottleTime r) else dgres_ThrottleTime r = 0)"

lemma GroupMemberEntry_size [simp]: "0 < sum_list (map put_size (GroupMemberEntry_Encode m))"
  by (simp add: GroupMemberEntry_Encode_def)

lemma Group_size [simp]: "0 < sum_list (map put_size (Group_Encode m))"
  by (simp add: Group_Encode_def)

lemma GroupMemberEntry_codec_ok:
  "GroupMember_valid e \<Longrightarrow> codec_ok (GroupMemberEntry_Encode e) GroupMemberEntry_Decode e"
  by (cases e; cases "snd e") (auto simp: GroupMember_valid_def GroupMemberEntry_Encode_def
      GroupMember_Encode_def GroupMemberEntry_Decode_def GroupMember_Decode_def
      simp del: put_ok.simps intro!: wire_intros)

lemma Group_codec_ok: "Group_valid g \<Longrightarrow> codec_ok (Group_Encode g) Group_Decode g"
  by (cases g) (auto simp: Group_valid_def Group_Encode_def Group_Decode_def
      intro!: wire_intros GroupMemberEntry_codec_ok)

interpretation describe_groups_response: codec DescribeGroupsResponse_Encode
  DescribeGroupsResponse_Decode DescribeGroupsResponse_valid
proof unfold_locales
  fix v and r :: DescribeGroupsResponse
  assume "DescribeGroupsResponse_valid v r"
  then show "codec_ok (DescribeGroupsResponse_Encode r) (DescribeGroupsResponse_Decode v) r"
    by (cases r) (auto simp: DescribeGroupsResponse_valid_def DescribeGroupsResponse_Encode_def
      DescribeGroupsResponse_Decode_def split: if_splits intro!: wire_intros Group_codec_ok)
qed

section \<open>OffsetCommit and OffsetFetch\<close>

record OffsetCommitPartitionRequest =
  ocp_Partition :: int32
  ocp_Offset :: int64
  ocp_Timestamp :: int64
  ocp_Metadata :: "string option"

record OffsetCommitTopicRequest =
  oct_Topic :: string
  oct_Partitions :: "OffsetCommitPartitionRequest list"

record OffsetCommitRequest =
  ocreq_APIVersion :: int16
  ocreq_GroupID :: string
  ocreq_GenerationID :: int32
  ocreq_MemberID :: string
  ocreq_RetentionTime :: int64
  ocreq_Topics :: "OffsetCommitTopicRequest list"

definition OffsetCommitPartitionRequest_Encode :: "OffsetCommitPartitionRequest \<Rightarrow> put list" where
  "OffsetCommitPartitionRequest_Encode p =
     [PutInt32 (ocp_Partition p), PutInt64 (ocp_Offset p), PutNullableString (ocp_Metadata p)]"

definition OffsetCommitTopicRequest_Encode :: "OffsetCommitTopicRequest \<Rightarrow> put list" where
  "OffsetCommitTopicRequest_Encode t =
     PutArrayLength (length (oct_Partitions t)) #
     concat (map OffsetCommitPartitionRequest_Encode (oct_Partitions t))"

text \<open>\<^verbatim>\<open>Encode\<close> is the same for every version and leaves out the topic names.\<close>

definition OffsetCommitRequest_Encode :: "OffsetCommitRequest \<Rightarrow> put list" where
  "OffsetCommitRequest_Encode r =
     [PutString (ocreq_GroupID r)] @
     PutArrayLength (length (ocreq_Topics r)) #
     concat (map OffsetCommitTopicRequest_Encode (ocreq_Topics r))"

text \<open>\<^verbatim>\<open>Decode\<close> assigns to the loop variables, which are copies: the topics it leaves are zero values.\<close>

definition OffsetCommitPartitionRequest_Decode :: "int16 \<Rightarrow> OffsetCommitPartitionRequest dec" where
  "OffsetCommitPartitionRequest_Decode version =
     dbind dInt32 (\<lambda>p. dbind dInt64 (\<lambda>off.
     dbind (if ver_ge version 1 then dInt64 else dret 0) (\<lambda>ts.
     dbind dNullableString (\<lambda>m.
     dret \<lparr>ocp_Partition = p, ocp_Offset = off, ocp_Timestamp = ts, ocp_Metadata = m\<rparr>))))"

definition OffsetCommitTopicRequest_Decode :: "int16 \<Rightarrow> OffsetCommitTopicRequest dec" where
  "OffsetCommitTopicRequest_Decode version =
     dbind (darray (OffsetCommitPartitionRequest_Decode version)) (\<lambda>ps.
     dret \<lparr>oct_Topic = [], oct_Partitions = ps\<rparr>)"

definition OffsetCommitRequest_Decode :: "int16 \<Rightarrow> OffsetCommitRequest dec" where
  "OffsetCommitRequest_Decode version =
     dbind dString (\<lambda>g.
     dbind (if ver_ge version 1 then dbind dInt32 (\<lambda>gen. dbind dString (\<lambda>m. dret (gen, m)))
            else dret (0, [])) (\<lambda>(gen, m).
     dbind (if ver_ge version 2 then dInt64 else dret 0) (\<lambda>rt.
     dbind (darray (OffsetCommitTopicRequest_Decode version)) (\<lambda>ts.
     dret \<lparr>ocreq_APIVersion = version, ocreq_GroupID = g, ocreq_GenerationID = gen, ocreq_MemberID = m,
           ocreq_RetentionTime = rt,
           ocreq_Topics = map (\<lambda>_. \<lparr>oct_Topic = [], oct_Partitions = []\<rparr>) ts\<rparr>))))"

definition OffsetCommitRequest_valid :: "int16 \<Rightarrow> OffsetCommitRequest \<Rightarrow> bool" where
  "OffsetCommitRequest_valid v r \<longleftrightarrow> ocreq_APIVersion r = v \<and> \<not> ver_ge v 1 \<and>
     length (ocreq_GroupID r) \<le> MaxInt16 \<and> length (ocreq_Topics r) \<le> 131070 \<and>
     (\<forall>t\<in>set (ocreq_Topics r). length (oct_Partitions t) \<le> 131070 \<and>
        (\<forall>p\<in>set (oct_Partitions t). put_ok (PutNullableString (ocp_Metadata p))))"

text \<open>The receiver keeps the version, the group and the number of topics.\<close>

definition OffsetCommitRequest_keep :: "OffsetCommitRequest \<Rightarrow> OffsetCommitRequest" where
  "OffsetCommitRequest_keep r =
     \<lparr>ocreq_APIVersion = ocreq_APIVersion r, ocreq_GroupID = ocreq_GroupID r, ocreq_GenerationID = 0,
      ocreq_MemberID = [], ocreq_RetentionTime = 0,
      ocreq_Topics = map (\<lambda>_. \<lparr>oct_Topic = [], oct_Partitions = []\<rparr>) (ocreq_Topics r)\<rparr>"

definition written_topic :: "OffsetCommitTopicRequest \<Rightarrow> OffsetCommitTopicRequest" where
  "written_topic t = \<lparr>oct_Topic = [], oct_Partitions = map (\<lambda>p. p\<lparr>ocp_Timestamp := 0\<rparr>) (oct_Partitions t)\<rparr>"

lemma OffsetCommitPartitionRequest_size [simp]:
  "0 < sum_list (map put_size (OffsetCommitPartitionRequest_Encode m))"
  by (simp add: OffsetCommitPartitionRequest_Encode_def)

lemma OffsetCommitTopicRequest_size [simp]:
  "0 < sum_list (map put_size (OffsetCommitTopicRequest_Encode m))"
  by (simp add: OffsetCommitTopicRequest_Encode_def)

lemma OffsetCommitPartitionRequest_codec_ok:
  "put_ok (PutNullableString (ocp_Metadata p)) \<Longrightarrow> ocp_Timestamp p = 0 \<Longrightarrow> \<not> ver_ge v 1 \<Longrightarrow>
   codec_ok (OffsetCommitPartitionRequest_Encode p) (OffsetCommitPartitionRequest_Decode v) p"
  by (cases p) (auto simp: OffsetCommitPartitionRequest_Encode_def
      OffsetCommitPartitionRequest_Decode_def simp del: put_ok.simps intro!: wire_intros)

lemma OffsetCommitTopicRequest_codec_ok:
  assumes "oct_Topic t = []" and "length (oct_Partitions t) \<le> 131070" and "\<not> ver_ge v 1"
    and "\<forall>p\<in>set (oct_Partitions t). ocp_Timestamp p = 0 \<and> put_ok (PutNullableString (ocp_Metadata p))"
  shows "codec_ok (OffsetCommitTopicRequest_Encode t) (OffsetCommitTopicRequest_Decode v) t"
  using assms by (cases t) (auto simp: OffsetCommitTopicRequest_Encode_def
      OffsetCommitTopicRequest_Decode_def simp del: put_ok.simps
      intro!: wire_intros OffsetCommitPartitionRequest_codec_ok)

lemma OffsetCommitRequest_written_ok:
  assumes "ocreq_APIVersion r = v" and "\<not> ver_ge v 1" and "length (ocreq_GroupID r) \<le> MaxInt16"
    and "ocreq_GenerationID r = 0" and "ocreq_MemberID r = []" and "ocreq_RetentionTime r = 0"
    and "length (ocreq_Topics r) \<le> 131070"
    and "\<forall>t\<in>set (ocreq_Topics r). oct_Topic t = [] \<and> length (oct_Partitions t) \<le> 131070 \<and>
        (\<forall>p\<in>set (oct_Partitions t). ocp_Timestamp p = 0 \<and> put_ok (PutNullableString (ocp_Metadata p)))"
  shows "codec_ok (OffsetCommitRequest_Encode r) (OffsetCommitRequest_Decode v) (OffsetCommitRequest_keep r)"
  using assms by (cases r) (auto simp: OffsetCommitRequest_Encode_def
      OffsetCommitRequest_Decode_def OffsetCommitRequest_keep_def simp del: put_ok.simps
      intro!: wire_intros OffsetCommitTopicRequest_codec_ok)

interpretation offset_commit_request: codec_upto OffsetCommitRequest_Encode OffsetCommitRequest_Decode
  OffsetCommitRequest_valid "\<lambda>_. OffsetCommitRequest_keep"
proof unfold_locales
  fix v and r :: OffsetCommitRequest
  assume valid: "OffsetCommitRequest_valid v r"
  let ?w = "\<lparr>ocreq_APIVersion = ocreq_APIVersion r, ocreq_GroupID = ocreq_GroupID r, ocreq_GenerationID = 0,
    ocreq_MemberID = [], ocreq_RetentionTime = 0, ocreq_Topics = map written_topic (ocreq_Topics r)\<rparr>"
  have "OffsetCommitTopicRequest_Encode t = OffsetCommitTopicRequest_Encode (written_topic t)" for t
    by (simp add: written_topic_def OffsetCommitTopicRequest_Encode_def
        OffsetCommitPartitionRequest_Encode_def o_def cong: map_cong)
  then have "OffsetCommitRequest_Encode r = OffsetCommitRequest_Encode ?w"
    by (simp add: OffsetCommitRequest_Encode_def o_def cong: map_cong)
  moreover have "OffsetCommitRequest_keep r = OffsetCommitRequest_keep ?w"
    by (simp add: OffsetCommitRequest_keep_def o_def)
  moreover have "codec_ok (OffsetCommitRequest_Encode ?w) (OffsetCommitRequest_Decode v) (OffsetCommitRequest_keep ?w)"
    using valid by (intro OffsetCommitRequest_written_ok)
      (auto simp: OffsetCommitRequest_valid_def written_topic_def)
  ultimately show "codec_ok (OffsetCommitRequest_Encode r) (OffsetCommitRequest_Decode v)
      (OffsetCommitRequest_keep r)" by simp
qed

record OffsetCommitPartitionResponse =
  ocpr_Partition :: int32
  ocpr_ErrorCode :: int16

record OffsetCommitTopicResponse =
  octr_Topic :: string
  octr_PartitionResponses :: "OffsetCommitPartitionResponse list"

record OffsetCommitResponse =
  ocres_APIVersion :: int16
  ocres_ThrottleTime :: duration
  ocres_Responses :: "OffsetCommitTopicResponse list"

definition OffsetCommitPartitionResponse_Encode :: "OffsetCommitPartitionResponse \<Rightarrow> put list" where
  "OffsetCommitPartitionResponse_Encode p = [PutInt32 (ocpr_Partition p), PutInt16 (ocpr_ErrorCode p)]"

definition OffsetCommitTopicResponse_Encode :: "OffsetCommitTopicResponse \<Rightarrow> put list" where
  "OffsetCommitTopicResponse_Encode t =
     PutString (octr_Topic t) # PutArrayLength (length (octr_PartitionResponses t)) #
     concat (map OffsetCommitPartitionResponse_Encode (octr_PartitionResponses t))"

definition OffsetCommitResponse_Encode :: "OffsetCommitResponse \<Rightarrow> put list" where
  "OffsetCommitResponse_Encode r =
     (if ver_ge (ocres_APIVersion r) 3
      then [PutInt32 (millis_of_duration (ocres_ThrottleTime r))] else []) @
     PutArrayLength (length (ocres_Responses r)) #
     concat (map OffsetCommitTopicResponse_Encode (ocres_Responses r))"

definition OffsetCommitPartitionResponse_Decode :: "OffsetCommitPartitionResponse dec" where
  "OffsetCommitPartitionResponse_Decode =
     dbind dInt32 (\<lambda>p. dbind dInt16 (\<lambda>ec. dret \<lparr>ocpr_Partition = p, ocpr_ErrorCode = ec\<rparr>))"

definition OffsetCommitTopicResponse_Decode :: "OffsetCommitTopicResponse dec" where
  "OffsetCommitTopicResponse_Decode =
     dbind dString (\<lambda>t. dbind (darray OffsetCommitPartitionResponse_Decode) (\<lambda>ps.
     dret \<lparr>octr_Topic = t, octr_PartitionResponses = ps\<rparr>))"

text \<open>Here too the loop variables are copies and what was read is lost.\<close>

definition OffsetCommitResponse_Decode :: "int16 \<Rightarrow> OffsetCommitResponse dec" where
  "OffsetCommitResponse_Decode version =
     dbind (if ver_ge version 3 then dDuration else dret 0) (\<lambda>throttle.
     dbind (darray OffsetCommitTopicResponse_Decode) (\<lambda>ts.
     dret \<lparr>ocres_APIVersion = version, ocres_ThrottleTime = throttle,
           ocres_Responses = map (\<lambda>_. \<lparr>octr_Topic = [], octr_PartitionResponses = []\<rparr>) ts\<rparr>))"

definition OffsetCommitResponse_valid :: "int16 \<Rightarrow> OffsetCommitResponse \<Rightarrow> bool" where
  "OffsetCommitResponse_valid v r \<longleftrightarrow> ocres_APIVersion r = v \<and> length (ocres_Responses r) \<le> 131070 \<and>
     (\<forall>t\<in>set (ocres_Responses r). length (octr_Topic t) \<le> MaxInt16 \<and>
        length (octr_PartitionResponses t) \<le> 131070) \<and>
     (if ver_ge v 3 then whole_millis (ocres_ThrottleTime r) else ocres_ThrottleTime r = 0)"

definition OffsetCommitResponse_keep :: "OffsetCommitResponse \<Rightarrow> OffsetCommitResponse" where
  "OffsetCommitResponse_keep r =
     r\<lparr>ocres_Responses := map (\<lambda>_. \<lparr>octr_Topic = [], octr_PartitionResponses = []\<rparr>) (ocres_Responses r)\<rparr>"

lemma OffsetCommitPartitionResponse_size [simp]:
  "0 < sum_list (map put_size (OffsetCommitPartitionResponse_Encode m))"
  by (simp add: OffsetCommitPartitionResponse_Encode_def)

lemma OffsetCommitTopicResponse_size [simp]:
  "0 < sum_list (map put_size (OffsetCommitTopicResponse_Encode m))"
  by (simp add: OffsetCommitTopicResponse_Encode_def)

lemma OffsetCommitPartitionResponse_codec_ok:
  "codec_ok (OffsetCommitPartitionResponse_Encode p) OffsetCommitPartitionResponse_Decode p"
  by (cases p) (auto simp: OffsetCommitPartitionResponse_Encode_def
      OffsetCommitPartitionResponse_Decode_def intro!: wire_intros)

lemma OffsetCommitTopicResponse_codec_ok:
  "length (octr_Topic t) \<le> MaxInt16 \<Longrightarrow> length (octr_PartitionResponses t) \<le> 131070 \<Longrightarrow>
   codec_ok (OffsetCommitTopicResponse_Encode t) OffsetCommitTopicResponse_Decode t"
  by (cases t) (auto simp: OffsetCommitTopicResponse_Encode_def OffsetCommitTopicResponse_Decode_def
      intro!: wire_intros OffsetCommitPartitionResponse_codec_ok)

interpretation offset_commit_response: codec_upto OffsetCommitResponse_Encode
  OffsetCommitResponse_Decode OffsetCommitResponse_valid "\<lambda>_. OffsetCommitResponse_keep"
proof unfold_locales
  fix v and r :: OffsetCommitResponse
  assume "OffsetCommitResponse_valid v r"
  then show "codec_ok (OffsetCommitResponse_Encode r) (OffsetCommitResponse_Decode v) (OffsetCommitResponse_keep r)"
    by (cases r) (auto simp: OffsetCommitResponse_valid_def OffsetCommitResponse_Encode_def
      OffsetCommitResponse_Decode_def OffsetCommitResponse_keep_def split: if_splits
      intro!: wire_intros OffsetCommitTopicResponse_codec_ok)
qed

record OffsetFetchTopicRequest =
  oft_Topic :: string
  oft_Partitions :: "int32 list"

record OffsetFetchRequest =
  ofreq_APIVersion :: int16
  ofreq_GroupID :: string
  ofreq_Topics :: "OffsetFetchTopicRequest list"

definition OffsetFetchTopicRequest_Encode :: "OffsetFetchTopicRequest \<Rightarrow> put list" where
  "OffsetFetchTopicRequest_Encode t = [PutString (oft_Topic t), PutInt32Array (oft_Partitions t)]"

definition OffsetFetchRequest_Encode :: "OffsetFetchRequest \<Rightarrow> put list" where
  "OffsetFetchRequest_Encode r =
     [PutString (ofreq_GroupID r)] @
     PutArrayLength (length (ofreq_Topics r)) #
     concat (map OffsetFetchTopicRequest_Encode (ofreq_Topics r))"

definition OffsetFetchTopicRequest_Decode :: "OffsetFetchTopicRequest dec" where
  "OffsetFetchTopicRequest_Decode =
     dbind dString (\<lambda>t. dbind dInt32Array (\<lambda>ps. dret \<lparr>oft_Topic = t, oft_Partitions = ps\<rparr>))"

definition OffsetFetchRequest_Decode :: "int16 \<Rightarrow> OffsetFetchRequest dec" where
  "OffsetFetchRequest_Decode version =
     dbind dString (\<lambda>g. dbind (darray OffsetFetchTopicRequest_Decode) (\<lambda>ts.
     dret \<lparr>ofreq_APIVersion = version, ofreq_GroupID = g, ofreq_Topics = ts\<rparr>))"

definition OffsetFetchRequest_valid :: "int16 \<Rightarrow> OffsetFetchRequest \<Rightarrow> bool" where
  "OffsetFetchRequest_valid v r \<longleftrightarrow> ofreq_APIVersion r = v \<and> length (ofreq_GroupID r) \<le> MaxInt16 \<and>
     length (ofreq_Topics r) \<le> 131070 \<and>
     (\<forall>t\<in>set (ofreq_Topics r). length (oft_Topic t) \<le> MaxInt16 \<and> length (oft_Partitions t) \<le> MaxInt32)"

lemma OffsetFetchTopicRequest_size [simp]:
  "0 < sum_list (map put_size (OffsetFetchTopicRequest_Encode m))"
  by (simp add: OffsetFetchTopicRequest_Encode_def)

lemma OffsetFetchTopicRequest_codec_ok:
  "length (oft_Topic t) \<le> MaxInt16 \<Longrightarrow> length (oft_Partitions t) \<le> MaxInt32 \<Longrightarrow>
   codec_ok (OffsetFetchTopicRequest_Encode t) OffsetFetchTopicRequest_Decode t"
  by (cases t) (auto simp: OffsetFetchTopicRequest_Encode_def OffsetFetchTopicRequest_Decode_def
      intro!: wire_intros)

interpretation offset_fetch_request: codec OffsetFetchRequest_Encode OffsetFetchRequest_Decode
  OffsetFetchRequest_valid
proof unfold_locales
  fix v and r :: OffsetFetchRequest
  assume "OffsetFetchRequest_valid v r"
  then show "codec_ok (OffsetFetchRequest_Encode r) (OffsetFetchRequest_Decode v) r"
    by (cases r) (auto simp: OffsetFetchRequest_valid_def OffsetFetchRequest_Encode_def
      OffsetFetchRequest_Decode_def intro!: wire_intros OffsetFetchTopicRequest_codec_ok)
qed

record OffsetFetchPartition =
  ofp_Partition :: int32
  ofp_Offset :: int16
  ofp_Metadata :: "string option"
  ofp_ErrorCode :: int16

record OffsetFetchTopicResponse =
  oftr_Topic :: string
  oftr_Partitions :: "OffsetFetchPartition list"

record OffsetFetchResponse =
  ofres_APIVersion :: int16
  ofres_Responses :: "OffsetFetchTopicResponse list"

definition OffsetFetchPartition_Encode :: "OffsetFetchPartition \<Rightarrow> put list" where
  "OffsetFetchPartition_Encode p =
     [PutInt32 (ofp_Partition p), PutInt16 (ofp_Offset p), PutNullableString (ofp_Metadata p),
      PutInt16 (ofp_ErrorCode p)]"

definition OffsetFetchTopicResponse_Encode :: "OffsetFetchTopicResponse \<Rightarrow> put list" where
  "OffsetFetchTopicResponse_Encode t =
     PutString (oftr_Topic t) # PutArrayLength (length (oftr_Partitions t)) #
     concat (map OffsetFetchPartition_Encode (oftr_Partitions t))"

definition OffsetFetchResponse_Encode :: "OffsetFetchResponse \<Rightarrow> put list" where
  "OffsetFetchResponse_Encode r =
     PutArrayLength (length (ofres_Responses r)) #
     concat (map OffsetFetchTopicResponse_Encode (ofres_Responses r))"

definition OffsetFetchPartition_Decode :: "OffsetFetchPartition dec" where
  "OffsetFetchPartition_Decode =
     dbind dInt32 (\<lambda>p. dbind dInt16 (\<lambda>off. dbind dNullableString (\<lambda>m. dbind dInt16 (\<lambda>ec.
     dret \<lparr>ofp_Partition = p, ofp_Offset = off, ofp_Metadata = m, ofp_ErrorCode = ec\<rparr>))))"

definition OffsetFetchTopicResponse_Decode :: "OffsetFetchTopicResponse dec" where
  "OffsetFetchTopicResponse_Decode =
     dbind dString (\<lambda>t. dbind (darray OffsetFetchPartition_Decode) (\<lambda>ps.
     dret \<lparr>oftr_Topic = t, oftr_Partitions = ps\<rparr>))"

definition OffsetFetchResponse_Decode :: "int16 \<Rightarrow> OffsetFetchResponse dec" where
  "OffsetFetchResponse_Decode version =
     dbind (darray OffsetFetchTopicResponse_Decode) (\<lambda>ts.
     dret \<lparr>ofres_APIVersion = version,
           ofres_Responses = map (\<lambda>_. \<lparr>oftr_Topic = [], oftr_Partitions = []\<rparr>) ts\<rparr>)"

definition OffsetFetchResponse_valid :: "int16 \<Rightarrow> OffsetFetchResponse \<Rightarrow> bool" where
  "OffsetFetchResponse_valid v r \<longleftrightarrow> ofres_APIVersion r = v \<and> length (ofres_Responses r) \<le> 131070 \<and>
     (\<forall>t\<in>set (ofres_Responses r). length (oftr_Topic t) \<le> MaxInt16 \<and> length (oftr_Partitions t) \<le> 131070 \<and>
        (\<forall>p\<in>set (oftr_Partitions t). put_ok (PutNullableString (ofp_Metadata p))))"

definition OffsetFetchResponse_keep :: "OffsetFetchResponse \<Rightarrow> OffsetFetchResponse" where
  "OffsetFetchResponse_keep r =
     r\<lparr>ofres_Responses := map (\<lambda>_. \<lparr>oftr_Topic = [], oftr_Partitions = []\<rparr>) (ofres_Responses r)\<rparr>"

lemma OffsetFetchPartition_size [simp]: "0 < sum_list (map put_size (OffsetFetchPartition_Encode m))"
  by (simp add: OffsetFetchPartition_Encode_def)

lemma OffsetFetchTopicResponse_size [simp]:
  "0 < sum_list (map put_size (OffsetFetchTopicResponse_Encode m))"
  by (simp add: OffsetFetchTopicResponse_Encode_def)

lemma OffsetFetchPartition_codec_ok:
  "put_ok (PutNullableString (ofp_Metadata p)) \<Longrightarrow>
   codec_ok (OffsetFetchPartition_Encode p) OffsetFetchPartition_Decode p"
  by (cases p) (auto simp: OffsetFetchPartition_Encode_def OffsetFetchPartition_Decode_def
      simp del: put_ok.simps intro!: wire_intros)

lemma OffsetFetchTopicResponse_codec_ok:
  assumes "length (oftr_Topic t) \<le> MaxInt16" and "length (oftr_Partitions t) \<le> 131070"
    and "\<forall>p\<in>set (oftr_Partitions t). put_ok (PutNullableString (ofp_Metadata p))"
  shows "codec_ok (OffsetFetchTopicResponse_Encode t) OffsetFetchTopicResponse_Decode t"
  using assms by (cases t) (auto simp: OffsetFetchTopicResponse_Encode_def
      OffsetFetchTopicResponse_Decode_def simp del: put_ok.simps
      intro!: wire_intros OffsetFetchPartition_codec_ok)

interpretation offset_fetch_response: codec_upto OffsetFetchResponse_Encode OffsetFetchResponse_Decode
  OffsetFetchResponse_valid "\<lambda>_. OffsetFetchResponse_keep"
proof unfold_locales
  fix v and r :: OffsetFetchResponse
  assume "OffsetFetchResponse_valid v r"
  then show "codec_ok (OffsetFetchResponse_Encode r) (OffsetFetchResponse_Decode v) (OffsetFetchResponse_keep r)"
    by (cases r) (auto simp: OffsetFetchResponse_valid_def OffsetFetchResponse_Encode_def
      OffsetFetchResponse_Decode_def OffsetFetchResponse_keep_def simp del: put_ok.simps
      intro!: wire_intros OffsetFetchTopicResponse_codec_ok)
qed

section \<open>Requests without fields\<close>

record SaslHandshakeRequest = shreq_APIVersion :: int16
record UpdateMetadataRequest = umreq_APIVersion :: int16
record ControlledShutdownRequest = csreq_APIVersion :: int16

text \<open>Their \<^verbatim>\<open>Decode\<close> reads nothing and does not store the version.\<close>

definition SaslHandshakeRequest_Decode :: "int16 \<Rightarrow> SaslHandshakeRequest dec" where
  "SaslHandshakeRequest_Decode version = dret \<lparr>shreq_APIVersion = 0\<rparr>"

definition UpdateMetadataRequest_Decode :: "int16 \<Rightarrow> UpdateMetadataRequest dec" where
  "UpdateMetadataRequest_Decode version = dret \<lparr>umreq_APIVersion = 0\<rparr>"

definition ControlledShutdownRequest_Decode :: "int16 \<Rightarrow> ControlledShutdownRequest dec" where
  "ControlledShutdownRequest_Decode version = dret \<lparr>csreq_APIVersion = 0\<rparr>"

text \<open>Their \<^verbatim>\<open>Encode\<close> writes nothing, and their responses have no fields on the wire either.\<close>

definition SaslHandshakeRequest_Encode :: "SaslHandshakeRequest \<Rightarrow> put list" where
  "SaslHandshakeRequest_Encode r = []"

definition UpdateMetadataRequest_Encode :: "UpdateMetadataRequest \<Rightarrow> put list" where
  "UpdateMetadataRequest_Encode r = []"

definition ControlledShutdownRequest_Encode :: "ControlledShutdownRequest \<Rightarrow> put list" where
  "ControlledShutdownRequest_Encode r = []"

type_synonym SaslHandshakeResponse = unit
type_synonym UpdateMetadataResponse = unit
record ControlledShutdownResponse = csres_APIVersion :: int16

definition SaslHandshakeResponse_Decode :: "int16 \<Rightarrow> SaslHandshakeResponse dec" where
  "SaslHandshakeResponse_Decode version = dret ()"

definition UpdateMetadataResponse_Decode :: "int16 \<Rightarrow> UpdateMetadataResponse dec" where
  "UpdateMetadataResponse_Decode version = dret ()"

definition ControlledShutdownResponse_Decode :: "int16 \<Rightarrow> ControlledShutdownResponse dec" where
  "ControlledShutdownResponse_Decode version = dret \<lparr>csres_APIVersion = version\<rparr>"

end
