(* ===== verification/Proto_Theorems.thy ===== *)
theory Proto_Theorems
  imports Proto_Groups
begin

text \<open>
  The properties of the wire protocol: the encoder against its reference machine, the framing of
  requests, and for each exchange of the protocol what a peer reads back from what was written.
\<close>

section \<open>The wire protocol\<close>

text \<open>
  C24: \<^verbatim>\<open>Encode\<close> is the two-pass algorithm of the source: measure, allocate, write by index, and patch
  size and checksum fields when they are popped.  For every list of calls whose pushes and pops
  match and whose arguments are within their limits, it returns exactly the bytes of the reference
  machine that only appends and puts each field in front of the finished frame.
\<close>

theorem encode_refines_reference:
  assumes "\<forall>p\<in>set ops. put_ok p" and "run_opt wire_step ops ([], []) = Some (bs, [])"
  shows "Encode ops = Ok bs"
  by (rule Encode_run [OF assms(2,1)])

theorem encode_refines_reference_witness:
  "Encode [Push SizeField, PutInt16 7, Push CRCField, PutString ''ab'', Pop, Pop] =
     Ok (frame SizeField (PutUint16 7 @ frame CRCField (string_field ''ab'')))"
  by (rule encode_refines_reference) simp_all

text \<open>
  Limits.  A list of calls with a string of more than 32767 bytes is rejected as a whole, with the
  length error, whatever comes before it (within its limits) or after it.
\<close>

lemma encode_rejects_long_string:
  assumes "\<forall>q\<in>set pre. put_ok q" and "MaxInt16 < length str"
  shows "Encode (pre @ PutString str # post) = Err ErrInvalidStringLength"
  by (rule Encode_Err [OF _ assms(1)]) (use assms(2) in \<open>simp_all add: len_string_def\<close>)

lemma encode_rejects_long_string_sample:
  "Encode ([PutInt32 1] @ PutString (replicate (Suc MaxInt16) CHR ''x'') # [Pop]) = Err ErrInvalidStringLength"
  by (rule encode_rejects_long_string) simp_all

text \<open>
  C25: requests.  A request whose body is read back by its decoder is framed so that the server,
  which reads the header first and then the body in the version the header names, gets the header
  with the right size, key, version, correlation id and client id, and the body.
\<close>

theorem request_is_read_by_server:
  assumes "length (req_ClientID r) \<le> MaxInt16"
    and "codec_ok (body_Encode (req_Body r)) (dec (body_Version (req_Body r))) x"
  shows "\<exists>bs. Encode (Request_Encode r) = Ok bs \<and>
     Decode (dbind RequestHeader_Decode (\<lambda>h. dbind (dec (rh_APIVersion h)) (\<lambda>b. dret (h, b)))) bs =
       Ok (\<lparr>rh_Size = word_of_nat (length bs - 4), rh_APIKey = body_Key (req_Body r),
            rh_APIVersion = body_Version (req_Body r), rh_CorrelationID = req_CorrelationID r,
            rh_ClientID = req_ClientID r\<rparr>, x)"
proof -
  obtain body where body: "emits (body_Encode (req_Body r)) body" "decodes (dec (body_Version (req_Body r))) body x"
      "\<forall>p\<in>set (body_Encode (req_Body r)). put_ok p"
    using assms(2) by (auto simp: codec_ok_def)
  let ?inner = "request_head r @ body" and ?n = "length (request_head r @ body)"
  let ?bs = "frame SizeField ?inner"
  have "Encode (Request_Encode r) = Ok ?bs"
    using Request_emits [OF body(1)] body(3) assms(1)
    by (intro Encode_emits) (auto simp: Request_Encode_def)
  moreover have "decodes (dbind RequestHeader_Decode (\<lambda>h. dbind (dec (rh_APIVersion h)) (\<lambda>b. dret (h, b))))
      ((PutUint32 (word_of_nat ?n) @ request_head r) @ body) (header_of r ?n, x)"
    by (rule decodes_bind [OF RequestHeader_decodes [OF assms(1)]], rule decodes_bind_ret [OF _ refl])
      (use body(2) in \<open>simp add: header_of_def\<close>)
  ultimately show ?thesis
    using Decode_decodes by (intro exI [of _ ?bs]) (auto simp: frame_def header_of_def)
qed

definition sample_produce :: ProduceRequest where
  "sample_produce = \<lparr>preq_APIVersion = 2, preq_TransactionalID = None, preq_Acks = -1, preq_Timeout = 5000000,
     preq_TopicData = [\<lparr>td_Topic = ''t'', td_Data = [\<lparr>data_Partition = 0, data_RecordSet = Some [1, 2]\<rparr>]\<rparr>]\<rparr>"

lemma sample_produce_valid: "ProduceRequest_valid 2 sample_produce"
  by (simp add: ProduceRequest_valid_def sample_produce_def TopicData_valid_def whole_millis_def
      millis_of_duration_def duration_of_millis_def)

theorem request_is_read_by_server_witness:
  "let r = \<lparr>req_CorrelationID = 9, req_ClientID = ''me'', req_Body =
         \<lparr>body_Key = ProduceKey, body_Version = 2, body_Encode = ProduceRequest_Encode sample_produce\<rparr>\<rparr> in
   \<exists>bs. Encode (Request_Encode r) = Ok bs \<and>
     Decode (dbind RequestHeader_Decode (\<lambda>h. dbind (ProduceRequest_Decode (rh_APIVersion h)) (\<lambda>b. dret (h, b)))) bs =
       Ok (\<lparr>rh_Size = word_of_nat (length bs - 4), rh_APIKey = ProduceKey, rh_APIVersion = 2,
            rh_CorrelationID = 9, rh_ClientID = ''me''\<rparr>, sample_produce)"
  using request_is_read_by_server [of "\<lparr>req_CorrelationID = 9, req_ClientID = ''me'', req_Body =
         \<lparr>body_Key = ProduceKey, body_Version = 2, body_Encode = ProduceRequest_Encode sample_produce\<rparr>\<rparr>"
       ProduceRequest_Decode sample_produce] produce_request.codec_law [OF sample_produce_valid]
  by (simp add: Let_def)

text \<open>
  C26: message sets.  A set of messages (keys and values possibly null, timestamps from version 1 on)
  is read back from its bytes with every message, its checksums verified and nothing left over.
\<close>

theorem message_set_roundtrip:
  assumes "MessageSet_valid ms"
  shows "\<exists>bs. Encode (MessageSet_Encode ms) = Ok bs \<and> Decode MessageSet_Decode bs = Ok ms"
proof -
  have valid: "\<forall>m\<in>set (ms_Messages ms). Message_valid m" using assms by (simp add: MessageSet_valid_def)
  obtain g where "\<forall>m\<in>set (ms_Messages ms). decodes Message_Decode (g m) m \<and> g m \<noteq> []"
      "emits (MessageSet_Encode ms) (PutUint64 (ms_Offset ms) @ frame SizeField (concat (map g (ms_Messages ms))))"
      "length (concat (map g (ms_Messages ms)))
         = sum_list (map put_size (concat (map Message_Encode (ms_Messages ms))))"
    by (rule MessageSet_emits [OF valid])
  with Encode_emits MessageSet_put_ok [OF valid] MessageSet_Decode_all [OF assms] show ?thesis by blast
qed

theorem message_set_roundtrip_witness:
  "let ms = \<lparr>ms_Offset = 4, ms_Size = 17, ms_Messages =
       [\<lparr>msg_Crc = 0, msg_MagicByte = 0, msg_Attributes = 0, msg_Timestamp = zero_time, msg_Key = None,
         msg_Value = Some [1, 2, 3]\<rparr>], ms_PartialTrailingMessages = False\<rparr> in
   \<exists>bs. Encode (MessageSet_Encode ms) = Ok bs \<and> Decode MessageSet_Decode bs = Ok ms"
  unfolding Let_def
  by (rule message_set_roundtrip)
    (simp add: MessageSet_valid_def Message_valid_def Message_Encode_def Message_body_def)

section \<open>Exchanges\<close>

lemmas exchange_valids = ProduceRequest_valid_def TopicData_valid_def ProduceResponse_valid_def
  ProduceTopicResponse_valid_def ProducePartitionResponse_valid_def FetchRequest_valid_def FetchTopic_valid_def
  FetchResponse_valid_def FetchTopicResponse_valid_def FetchPartitionResponse_valid_def
  MetadataRequest_valid_def MetadataResponse_valid_def TopicMetadata_valid_def PartitionMetadata_valid_def
  OffsetsRequest_valid_def OffsetsTopic_valid_def OffsetsResponse_valid_def OffsetResponse_valid_def
  PartitionResponse_valid_def whole_millis_def millis_of_duration_def duration_of_millis_def whole_time_def
  millis_of_time_def UnixNano_def time_of_millis_eq

text \<open>
  C27: the data path.  In every version, a produce request, a produce response (from version 2, whose
  append time the others do not carry), and a fetch response are read back exactly; a fetch request is
  read back with the replica id -1 in place of the zero value, and otherwise exactly.
\<close>

theorem data_path_exchange:
  assumes "ProduceRequest_valid v preq" and "ProduceResponse_valid v pres"
    and "FetchRequest_valid v freq" and "FetchResponse_valid v fres"
  shows "reads_back (ProduceRequest_Encode preq) (ProduceRequest_Decode v) preq \<and>
    reads_back (ProduceResponse_Encode pres) (ProduceResponse_Decode v) pres \<and>
    reads_back (FetchRequest_Encode freq) (FetchRequest_Decode v)
      (if freq_ReplicaID freq = 0 then freq\<lparr>freq_ReplicaID := -1\<rparr> else freq) \<and>
    reads_back (FetchResponse_Encode fres) (FetchResponse_Decode v) fres"
  using produce_request.roundtrip [OF assms(1)] produce_response.roundtrip [OF assms(2)]
    fetch_request.roundtrip_upto [OF assms(3)] fetch_response.roundtrip [OF assms(4)]
  unfolding FetchRequest_keep_def by blast

theorem data_path_exchange_witness:
  "let preq = \<lparr>preq_APIVersion = 3, preq_TransactionalID = Some ''tx'', preq_Acks = -1, preq_Timeout = 5000000,
         preq_TopicData = [\<lparr>td_Topic = ''t'', td_Data = [\<lparr>data_Partition = 0, data_RecordSet = Some [1, 2]\<rparr>]\<rparr>]\<rparr>;
       pres = \<lparr>pres_APIVersion = 3, pres_Responses = [\<lparr>ptr_Topic = ''t'', ptr_PartitionResponses =
         [\<lparr>ppr_Partition = 0, ppr_ErrorCode = 0, ppr_BaseOffset = 42, ppr_LogAppendTime = 9000000,
           ppr_LogStartOffset = 0\<rparr>]\<rparr>], pres_ThrottleTime = 2000000\<rparr>;
       freq = \<lparr>freq_APIVersion = 3, freq_ReplicaID = 0, freq_MaxWaitTime = 1000000, freq_MinBytes = 1,
         freq_MaxBytes = 100, freq_IsolationLevel = 0, freq_Topics = [\<lparr>ft_Topic = ''t'', ft_Partitions =
         [\<lparr>fp_Partition = 0, fp_FetchOffset = 5, fp_MaxBytes = 100\<rparr>]\<rparr>]\<rparr>;
       fres = \<lparr>fres_APIVersion = 3, fres_ThrottleTime = 0, fres_Responses = [\<lparr>ftr_Topic = ''t'',
         ftr_PartitionResponses = [\<lparr>fpr_Partition = 0, fpr_ErrorCode = 0, fpr_HighWatermark = 6,
           fpr_LastStableOffset = 0, fpr_AbortedTransactions = [], fpr_RecordSet = Some [7]\<rparr>]\<rparr>]\<rparr> in
   reads_back (ProduceRequest_Encode preq) (ProduceRequest_Decode 3) preq \<and>
   reads_back (ProduceResponse_Encode pres) (ProduceResponse_Decode 3) pres \<and>
   reads_back (FetchRequest_Encode freq) (FetchRequest_Decode 3)
     (if freq_ReplicaID freq = 0 then freq\<lparr>freq_ReplicaID := -1\<rparr> else freq) \<and>
   reads_back (FetchResponse_Encode fres) (FetchResponse_Decode 3) fres"
  unfolding Let_def by (rule data_path_exchange) (simp_all add: exchange_valids)

text \<open>
  C28: discovery.  Metadata requests and responses are read back exactly.  An offset lookup is read
  back with the replica id -1, which the encoder always writes, and its response with the version 0,
  which the decoder does not set.
\<close>

theorem discovery_exchange:
  assumes "MetadataRequest_valid v mreq" and "MetadataResponse_valid v mres"
    and "OffsetsRequest_valid v oreq" and "OffsetsResponse_valid v ores"
  shows "reads_back (MetadataRequest_Encode mreq) (MetadataRequest_Decode v) mreq \<and>
    reads_back (MetadataResponse_Encode mres) (MetadataResponse_Decode v) mres \<and>
    reads_back (OffsetsRequest_Encode oreq) (OffsetsRequest_Decode v) (oreq\<lparr>oreq_ReplicaID := -1\<rparr>) \<and>
    reads_back (OffsetsResponse_Encode ores) (OffsetsResponse_Decode v) (ores\<lparr>ores_APIVersion := 0\<rparr>)"
  using metadata_request.roundtrip [OF assms(1)] metadata_response.roundtrip [OF assms(2)]
    offsets_request.roundtrip_upto [OF assms(3)] offsets_response.roundtrip_upto [OF assms(4)] by blast

theorem discovery_exchange_witness:
  "let mreq = \<lparr>mreq_APIVersion = 1, mreq_Topics = [''a'', ''b''], mreq_AllowAutoTopicCreation = False\<rparr>;
       mres = \<lparr>mres_APIVersion = 1, mres_Brokers = [\<lparr>brk_NodeID = 1, brk_Host = ''h'', brk_Port = 9092\<rparr>],
         mres_ControllerID = 1, mres_TopicMetadata = [\<lparr>tm_TopicErrorCode = 0, tm_Topic = ''a'',
         tm_PartitionMetadata = [\<lparr>pm_PartitionErrorCode = 0, pm_PartitionID = 0, pm_Leader = 1,
           pm_Replicas = [1, 2], pm_ISR = [1]\<rparr>]\<rparr>]\<rparr>;
       oreq = \<lparr>oreq_APIVersion = 1, oreq_ReplicaID = 4, oreq_IsolationLevel = 0, oreq_Topics =
         [\<lparr>ot_Topic = ''a'', ot_Partitions = [\<lparr>op_Partition = 0, op_Timestamp = -2, op_MaxNumOffsets = 0\<rparr>]\<rparr>]\<rparr>;
       ores = \<lparr>ores_APIVersion = 1, ores_ThrottleTime = 0, ores_Responses = [\<lparr>ors_Topic = ''a'',
         ors_PartitionResponses = [\<lparr>opr_Partition = 0, opr_ErrorCode = 0, opr_Timestamp = 9000000,
           opr_Offsets = [], opr_Offset = 3\<rparr>]\<rparr>]\<rparr> in
   reads_back (MetadataRequest_Encode mreq) (MetadataRequest_Decode 1) mreq \<and>
   reads_back (MetadataResponse_Encode mres) (MetadataResponse_Decode 1) mres \<and>
   reads_back (OffsetsRequest_Encode oreq) (OffsetsRequest_Decode 1) (oreq\<lparr>oreq_ReplicaID := -1\<rparr>) \<and>
   reads_back (OffsetsResponse_Encode ores) (OffsetsResponse_Decode 1) (ores\<lparr>ores_APIVersion := 0\<rparr>)"
  unfolding Let_def by (rule discovery_exchange) (simp_all add: exchange_valids)

text \<open>
  C29: topic administration.  Create-topics responses and delete-topics requests and responses are
  read back exactly.  A create-topics request keeps every topic with its replica assignment and
  configuration (as maps, whatever the order of their entries), but its version is read as 0.
\<close>

theorem topic_admin_exchange:
  assumes "CreateTopicRequests_valid v creq" and "CreateTopicsResponse_valid v cres"
    and "DeleteTopicsRequest_valid v dreq" and "DeleteTopicsResponse_valid v dres"
  shows "reads_back (CreateTopicRequests_Encode creq) (CreateTopicRequests_Decode v) (creq\<lparr>ctrs_APIVersion := 0\<rparr>) \<and>
    reads_back (CreateTopicsResponse_Encode cres) (CreateTopicsResponse_Decode v) cres \<and>
    reads_back (DeleteTopicsRequest_Encode dreq) (DeleteTopicsRequest_Decode v) dreq \<and>
    reads_back (DeleteTopicsResponse_Encode dres) (DeleteTopicsResponse_Decode v) dres"
  using create_topics_request.roundtrip_upto [OF assms(1)] create_topics_response.roundtrip [OF assms(2)]
    delete_topics_request.roundtrip [OF assms(3)] delete_topics_response.roundtrip [OF assms(4)] by blast

theorem topic_admin_exchange_witness:
  "let creq = \<lparr>ctrs_APIVersion = 1, ctrs_Requests = [\<lparr>ctr_Topic = ''t'', ctr_NumPartitions = 2,
         ctr_ReplicationFactor = 1, ctr_ReplicaAssignment = [(0, [1]), (1, [2])],
         ctr_Configs = [(''cleanup.policy'', Some ''compact'')]\<rparr>], ctrs_Timeout = 1000000, ctrs_ValidateOnly = True\<rparr>;
       cres = \<lparr>ctres_APIVersion = 1, ctres_ThrottleTime = 0, ctres_TopicErrorCodes =
         [\<lparr>tec_Topic = ''t'', tec_ErrorCode = 36, tec_ErrorMessage = Some ''exists''\<rparr>]\<rparr>;
       dreq = \<lparr>dtreq_APIVersion = 1, dtreq_Topics = [''t''], dtreq_Timeout = 1000000\<rparr>;
       dres = \<lparr>dtres_APIVersion = 1, dtres_ThrottleTime = 3000000, dtres_TopicErrorCodes =
         [\<lparr>tec_Topic = ''t'', tec_ErrorCode = 3, tec_ErrorMessage = None\<rparr>]\<rparr> in
   reads_back (CreateTopicRequests_Encode creq) (CreateTopicRequests_Decode 1) (creq\<lparr>ctrs_APIVersion := 0\<rparr>) \<and>
   reads_back (CreateTopicsResponse_Encode cres) (CreateTopicsResponse_Decode 1) cres \<and>
   reads_back (DeleteTopicsRequest_Encode dreq) (DeleteTopicsRequest_Decode 1) dreq \<and>
   reads_back (DeleteTopicsResponse_Encode dres) (DeleteTopicsResponse_Decode 1) dres"
  unfolding Let_def
  by (rule topic_admin_exchange) (simp_all add: CreateTopicRequests_valid_def CreateTopicRequest_valid_def
      CreateTopicsResponse_valid_def TopicErrorCode_valid_def DeleteTopicsRequest_valid_def
      DeleteTopicsResponse_valid_def exchange_valids)



text \<open>
  C31: configuration.  Alter-configs and describe-configs requests and responses are read back
  exactly, null values and synonyms (from version 1) included.
\<close>

theorem config_exchange:
  assumes "AlterConfigsRequest_valid v areq" and "AlterConfigsResponse_valid v ares"
    and "DescribeConfigsRequest_valid v dreq" and "DescribeConfigsResponse_valid v dres"
  shows "reads_back (AlterConfigsRequest_Encode areq) (AlterConfigsRequest_Decode v) areq \<and>
    reads_back (AlterConfigsResponse_Encode ares) (AlterConfigsResponse_Decode v) ares \<and>
    reads_back (DescribeConfigsRequest_Encode dreq) (DescribeConfigsRequest_Decode v) dreq \<and>
    reads_back (DescribeConfigsResponse_Encode dres) (DescribeConfigsResponse_Decode v) dres"
  using alter_configs_request.roundtrip [OF assms(1)] alter_configs_response.roundtrip [OF assms(2)]
    describe_configs_request.roundtrip [OF assms(3)] describe_configs_response.roundtrip [OF assms(4)] by blast

theorem config_exchange_witness:
  "let areq = \<lparr>acreq_APIVersion = 1, acreq_Resources = [\<lparr>acr_Type = 2, acr_Name = ''t'',
         acr_Entries = [\<lparr>ace_Name = ''k'', ace_Value = None\<rparr>]\<rparr>], acreq_ValidateOnly = False\<rparr>;
       ares = \<lparr>acres_APIVersion = 1, acres_ThrottleTime = 0, acres_Resources = [\<lparr>acrr_ErrorCode = 0,
         acrr_ErrorMessage = None, acrr_Type = 2, acrr_Name = ''t''\<rparr>]\<rparr>;
       dreq = \<lparr>dcreq_APIVersion = 1, dcreq_Resources = [\<lparr>dcr_Type = 2, dcr_Name = ''t'',
         dcr_ConfigNames = [''k'']\<rparr>], dcreq_IncludeSynonyms = True\<rparr>;
       dres = \<lparr>dcres_APIVersion = 1, dcres_ThrottleTime = 0, dcres_Resources = [\<lparr>dcrr_ErrorCode = 0,
         dcrr_ErrorMessage = None, dcrr_Type = 2, dcrr_Name = ''t'', dcrr_ConfigEntries = [\<lparr>dce_Name = ''k'',
         dce_Value = Some ''v'', dce_ReadOnly = True, dce_IsDefault = False, dce_IsSensitive = False,
         dce_Synonyms = [\<lparr>dcs_Name = ''s'', dcs_Value = None, dcs_Source = 1\<rparr>]\<rparr>]\<rparr>]\<rparr> in
   reads_back (AlterConfigsRequest_Encode areq) (AlterConfigsRequest_Decode 1) areq \<and>
   reads_back (AlterConfigsResponse_Encode ares) (AlterConfigsResponse_Decode 1) ares \<and>
   reads_back (DescribeConfigsRequest_Encode dreq) (DescribeConfigsRequest_Decode 1) dreq \<and>
   reads_back (DescribeConfigsResponse_Encode dres) (DescribeConfigsResponse_Decode 1) dres"
  unfolding Let_def
  by (rule config_exchange) (simp_all add: AlterConfigsRequest_valid_def AlterConfigsResource_valid_def
      AlterConfigsResponse_valid_def DescribeConfigsRequest_valid_def DescribeConfigsResponse_valid_def
      DescribeConfigsResourceResponse_valid_def DescribeConfigsEntry_valid_def)

text \<open>
  C32: group membership.  The coordinator lookup, the responses to a join, sync, heartbeat and leave,
  and the requests to sync, heartbeat and leave are read back exactly in version 0.
\<close>

theorem group_membership_exchange:
  assumes "FindCoordinatorRequest_valid 0 fcreq" and "FindCoordinatorResponse_valid 0 fcres"
    and "JoinGroupResponse_valid 0 jres" and "SyncGroupRequest_valid 0 sreq" and "SyncGroupResponse_valid 0 sres"
    and "HeartbeatRequest_valid 0 hreq" and "HeartbeatResponse_valid 0 hres"
    and "LeaveGroupRequest_valid 0 lreq" and "LeaveGroupResponse_valid 0 lres"
  shows "reads_back (FindCoordinatorRequest_Encode fcreq) (FindCoordinatorRequest_Decode 0) fcreq \<and>
    reads_back (FindCoordinatorResponse_Encode fcres) (FindCoordinatorResponse_Decode 0) fcres \<and>
    reads_back (JoinGroupResponse_Encode jres) (JoinGroupResponse_Decode 0) jres \<and>
    reads_back (SyncGroupRequest_Encode sreq) (SyncGroupRequest_Decode 0) sreq \<and>
    reads_back (SyncGroupResponse_Encode sres) (SyncGroupResponse_Decode 0) sres \<and>
    reads_back (HeartbeatRequest_Encode hreq) (HeartbeatRequest_Decode 0) hreq \<and>
    reads_back (HeartbeatResponse_Encode hres) (HeartbeatResponse_Decode 0) hres \<and>
    reads_back (LeaveGroupRequest_Encode lreq) (LeaveGroupRequest_Decode 0) lreq \<and>
    reads_back (LeaveGroupResponse_Encode lres) (LeaveGroupResponse_Decode 0) lres"
  using find_coordinator_request.roundtrip [OF assms(1)] find_coordinator_response.roundtrip [OF assms(2)]
    join_group_response.roundtrip [OF assms(3)] sync_group_request.roundtrip [OF assms(4)]
    sync_group_response.roundtrip [OF assms(5)] heartbeat_request.roundtrip [OF assms(6)]
    heartbeat_response.roundtrip [OF assms(7)] leave_group_request.roundtrip [OF assms(8)]
    leave_group_response.roundtrip [OF assms(9)] by blast

theorem group_membership_exchange_witness:
  "let fcreq = \<lparr>fcreq_APIVersion = 0, fcreq_CoordinatorKey = ''g'', fcreq_CoordinatorType = 0\<rparr>;
       fcres = \<lparr>fcres_APIVersion = 0, fcres_ThrottleTime = 0, fcres_ErrorCode = 0, fcres_ErrorMessage = None,
         fcres_Coordinator = \<lparr>coo_NodeID = 1, coo_Host = ''h'', coo_Port = 9092\<rparr>\<rparr>;
       jres = \<lparr>jres_APIVersion = 0, jres_ThrottleTime = 0, jres_ErrorCode = 0, jres_GenerationID = 1,
         jres_GroupProtocol = ''range'', jres_LeaderID = ''m'', jres_MemberID = ''m'',
         jres_Members = [\<lparr>mem_MemberID = ''m'', mem_MemberMetadata = Some [1]\<rparr>]\<rparr>;
       sreq = \<lparr>sreq_APIVersion = 0, sreq_GroupID = ''g'', sreq_GenerationID = 1, sreq_MemberID = ''m'',
         sreq_GroupAssignments = [\<lparr>ga_MemberID = ''m'', ga_MemberAssignment = Some [2]\<rparr>]\<rparr>;
       sres = \<lparr>sres_APIVersion = 0, sres_ThrottleTime = 0, sres_ErrorCode = 0, sres_MemberAssignment = Some [2]\<rparr>;
       hreq = \<lparr>hreq_APIVersion = 0, hreq_GroupID = ''g'', hreq_GroupGenerationID = 1, hreq_MemberID = ''m''\<rparr>;
       hres = \<lparr>hres_APIVersion = 0, hres_ThrottleTime = 0, hres_ErrorCode = 27\<rparr>;
       lreq = \<lparr>lgreq_APIVersion = 0, lgreq_GroupID = ''g'', lgreq_MemberID = ''m''\<rparr>;
       lres = \<lparr>lgres_APIVersion = 0, lgres_ThrottleTime = 0, lgres_ErrorCode = 0\<rparr> in
   reads_back (FindCoordinatorRequest_Encode fcreq) (FindCoordinatorRequest_Decode 0) fcreq \<and>
   reads_back (FindCoordinatorResponse_Encode fcres) (FindCoordinatorResponse_Decode 0) fcres \<and>
   reads_back (JoinGroupResponse_Encode jres) (JoinGroupResponse_Decode 0) jres \<and>
   reads_back (SyncGroupRequest_Encode sreq) (SyncGroupRequest_Decode 0) sreq \<and>
   reads_back (SyncGroupResponse_Encode sres) (SyncGroupResponse_Decode 0) sres \<and>
   reads_back (HeartbeatRequest_Encode hreq) (HeartbeatRequest_Decode 0) hreq \<and>
   reads_back (HeartbeatResponse_Encode hres) (HeartbeatResponse_Decode 0) hres \<and>
   reads_back (LeaveGroupRequest_Encode lreq) (LeaveGroupRequest_Decode 0) lreq \<and>
   reads_back (LeaveGroupResponse_Encode lres) (LeaveGroupResponse_Decode 0) lres"
  unfolding Let_def
  by (rule group_membership_exchange) (simp_all add: FindCoordinatorRequest_valid_def
      FindCoordinatorResponse_valid_def JoinGroupResponse_valid_def SyncGroupRequest_valid_def
      SyncGroupResponse_valid_def HeartbeatRequest_valid_def HeartbeatResponse_valid_def
      LeaveGroupRequest_valid_def LeaveGroupResponse_valid_def)

text \<open>
  C33: committed offsets are lost in transit.  A version 0 offset-commit request, an offset-commit
  response and an offset-fetch response are read back without an error, with as many topics as were
  written, but every topic is read as the empty one: no name and no partition survives.  Of the request
  only the group and the version are kept, not the generation, member and retention time.
\<close>

theorem offset_commit_loses_topics:
  assumes "OffsetCommitRequest_valid 0 creq" and "OffsetCommitResponse_valid v cres"
    and "OffsetFetchResponse_valid v fres"
  shows "reads_back (OffsetCommitRequest_Encode creq) (OffsetCommitRequest_Decode 0)
      \<lparr>ocreq_APIVersion = 0, ocreq_GroupID = ocreq_GroupID creq, ocreq_GenerationID = 0, ocreq_MemberID = [],
       ocreq_RetentionTime = 0,
       ocreq_Topics = map (\<lambda>_. \<lparr>oct_Topic = [], oct_Partitions = []\<rparr>) (ocreq_Topics creq)\<rparr> \<and>
    reads_back (OffsetCommitResponse_Encode cres) (OffsetCommitResponse_Decode v)
      (cres\<lparr>ocres_Responses := map (\<lambda>_. \<lparr>octr_Topic = [], octr_PartitionResponses = []\<rparr>) (ocres_Responses cres)\<rparr>) \<and>
    reads_back (OffsetFetchResponse_Encode fres) (OffsetFetchResponse_Decode v)
      (fres\<lparr>ofres_Responses := map (\<lambda>_. \<lparr>oftr_Topic = [], oftr_Partitions = []\<rparr>) (ofres_Responses fres)\<rparr>)"
  using offset_commit_request.roundtrip_upto [OF assms(1)] offset_commit_response.roundtrip_upto [OF assms(2)]
    offset_fetch_response.roundtrip_upto [OF assms(3)] assms(1)
  unfolding OffsetCommitRequest_keep_def OffsetCommitResponse_keep_def OffsetFetchResponse_keep_def
  by (simp add: OffsetCommitRequest_valid_def)

theorem offset_commit_loses_topics_witness:
  "let creq = \<lparr>ocreq_APIVersion = 0, ocreq_GroupID = ''g'', ocreq_GenerationID = 3, ocreq_MemberID = ''m'',
         ocreq_RetentionTime = 9, ocreq_Topics = [\<lparr>oct_Topic = ''t'', oct_Partitions =
         [\<lparr>ocp_Partition = 1, ocp_Offset = 7, ocp_Timestamp = 0, ocp_Metadata = None\<rparr>]\<rparr>]\<rparr>;
       cres = \<lparr>ocres_APIVersion = 3, ocres_ThrottleTime = 0, ocres_Responses = [\<lparr>octr_Topic = ''t'',
         octr_PartitionResponses = [\<lparr>ocpr_Partition = 1, ocpr_ErrorCode = 0\<rparr>]\<rparr>]\<rparr>;
       fres = \<lparr>ofres_APIVersion = 3, ofres_Responses = [\<lparr>oftr_Topic = ''t'', oftr_Partitions =
         [\<lparr>ofp_Partition = 1, ofp_Offset = 7, ofp_Metadata = None, ofp_ErrorCode = 0\<rparr>]\<rparr>]\<rparr> in
   reads_back (OffsetCommitRequest_Encode creq) (OffsetCommitRequest_Decode 0)
     \<lparr>ocreq_APIVersion = 0, ocreq_GroupID = ocreq_GroupID creq, ocreq_GenerationID = 0, ocreq_MemberID = [],
      ocreq_RetentionTime = 0,
      ocreq_Topics = map (\<lambda>_. \<lparr>oct_Topic = [], oct_Partitions = []\<rparr>) (ocreq_Topics creq)\<rparr> \<and>
   reads_back (OffsetCommitResponse_Encode cres) (OffsetCommitResponse_Decode 3)
     (cres\<lparr>ocres_Responses := map (\<lambda>_. \<lparr>octr_Topic = [], octr_PartitionResponses = []\<rparr>) (ocres_Responses cres)\<rparr>) \<and>
   reads_back (OffsetFetchResponse_Encode fres) (OffsetFetchResponse_Decode 3)
     (fres\<lparr>ofres_Responses := map (\<lambda>_. \<lparr>oftr_Topic = [], oftr_Partitions = []\<rparr>) (ofres_Responses fres)\<rparr>)"
  unfolding Let_def
  by (rule offset_commit_loses_topics) (simp_all add: OffsetCommitRequest_valid_def
      OffsetCommitResponse_valid_def OffsetFetchResponse_valid_def)




end
