(* ===== verification/Log_Message.thy ===== *)
theory Log_Message
  imports Prelude
begin

text \<open>
  \<^verbatim>\<open>commitlog/message.go\<close> and \<^verbatim>\<open>commitlog/message_set.go\<close>: the byte-level accessors of the commit log,
  which read fields at computed offsets of a byte slice.  \<^const>\<open>None\<close> is an index or slice panic; a
  slice is taken to have no capacity beyond its length.
\<close>

datatype log_error =
  EOF | ErrIndexCorrupt | BadTruncateNumber | PathEmpty | EntryNotFound | ErrSegmentNotFound
| FileClosed | AtoiError | RemoveFailed

section \<open>Message\<close>

definition uint32_at :: "bytes \<Rightarrow> int32 \<Rightarrow> int32 option" where
  "uint32_at m start =
     (if sint start < 0 \<or> length m < nat (sint start) + 4 then None
      else Some (Uint32 (drop (nat (sint start)) m)))"

definition slice32 :: "bytes \<Rightarrow> int32 \<Rightarrow> int32 \<Rightarrow> bytes option" where
  "slice32 m a b = (if sint a < 0 \<or> sint b < 0 then None else slice m (nat (sint a)) (nat (sint b)))"

definition Message_Crc :: "bytes \<Rightarrow> int32 option" where
  "Message_Crc m = (if length m < 4 then None else Some (Uint32 m))"

definition MagicByte :: "bytes \<Rightarrow> int8 option" where
  "MagicByte m = (if 4 < length m then Some (m ! 4) else None)"

definition Attributes :: "bytes \<Rightarrow> int8 option" where
  "Attributes m = (if 5 < length m then Some (m ! 5) else None)"

definition Message_Timestamp :: "bytes \<Rightarrow> int64 option" where
  "Message_Timestamp m =
     (case MagicByte m of None \<Rightarrow> None
      | Some b \<Rightarrow> if b = 0 \<or> length m < 14 then None else Some (Uint64 (drop 6 m)))"

text \<open>\<open>(start, end, size)\<close> of the key and of the value field.\<close>

definition keyOffsets :: "bytes \<Rightarrow> (int32 \<times> int32 \<times> int32) option" where
  "keyOffsets m =
     (case MagicByte m of None \<Rightarrow> None
      | Some b \<Rightarrow>
          let start = (if b = 0 then 6 else 14) in
          (case uint32_at m start of None \<Rightarrow> None
           | Some sz \<Rightarrow> Some (start, start + 4 + sz, sz)))"

definition valueOffsets :: "bytes \<Rightarrow> (int32 \<times> int32 \<times> int32) option" where
  "valueOffsets m =
     (case keyOffsets m of None \<Rightarrow> None
      | Some (_, keyEnd, _) \<Rightarrow>
          (case uint32_at m keyEnd of None \<Rightarrow> None
           | Some sz \<Rightarrow> Some (keyEnd, keyEnd + 4 + sz, sz)))"

text \<open>\<open>Some None\<close> is the nil slice of a field of size -1.\<close>

definition field_bytes :: "bytes \<Rightarrow> (int32 \<times> int32 \<times> int32) option \<Rightarrow> bytes option option" where
  "field_bytes m offs =
     (case offs of None \<Rightarrow> None
      | Some (start, end', sz) \<Rightarrow>
          if sz = -1 then Some None else map_option Some (slice32 m (start + 4) end'))"

definition Key :: "bytes \<Rightarrow> bytes option option" where
  "Key m = field_bytes m (keyOffsets m)"

definition Value :: "bytes \<Rightarrow> bytes option option" where
  "Value m = field_bytes m (valueOffsets m)"

definition Message_Size :: "bytes \<Rightarrow> int32 option" where
  "Message_Size m =
     (case MagicByte m of None \<Rightarrow> None
      | Some b \<Rightarrow>
        (case keyOffsets m of None \<Rightarrow> None
         | Some (_, _, keySize) \<Rightarrow>
           (case valueOffsets m of None \<Rightarrow> None
            | Some (_, _, valueSize) \<Rightarrow>
                Some (6 + (if 0 < sint b then 8 else 0) + 4 + (if keySize \<noteq> -1 then keySize else 0) +
                      4 + (if valueSize \<noteq> -1 then valueSize else 0)))))"

section \<open>MessageSet\<close>

definition msgSetHeaderLen :: nat where "msgSetHeaderLen = 12"

definition NewMessageSet :: "uint64 \<Rightarrow> bytes list \<Rightarrow> bytes" where
  "NewMessageSet off msgs =
     PutUint64 off @ PutUint32 (word_of_nat (length (concat msgs))) @ concat msgs"

definition MessageSet_Offset :: "bytes \<Rightarrow> int64 option" where
  "MessageSet_Offset ms = (if length ms < 8 then None else Some (Uint64 ms))"

definition PutOffset :: "int64 \<Rightarrow> bytes \<Rightarrow> bytes option" where
  "PutOffset off ms = (if length ms < 8 then None else Some (overwrite ms 0 (PutUint64 off)))"

definition MessageSet_Size :: "bytes \<Rightarrow> int32 option" where
  "MessageSet_Size ms = (if length ms < 12 then None else Some (Uint32 (drop 8 ms) + 12))"

definition Payload :: "bytes \<Rightarrow> bytes option" where
  "Payload ms = (if length ms < msgSetHeaderLen then None else Some (drop msgSetHeaderLen ms))"

text \<open>
  The loop of \<^verbatim>\<open>Messages\<close>: \<^verbatim>\<open>offset\<close> is overwritten with the size of the current message and then
  doubled.  A message whose computed size is 0 makes it run forever, which is \<^const>\<open>None\<close>.
\<close>

partial_function (option) messages_loop ::
  "bytes \<Rightarrow> int32 \<Rightarrow> int32 \<Rightarrow> bytes list \<Rightarrow> (log_error, bytes list) outcome option" where
  "messages_loop b payloadSize off msgs =
     (if sint off < sint payloadSize then
        (case Message_Size b of None \<Rightarrow> Some Panic
         | Some sz \<Rightarrow>
             (case slice32 b 0 sz of None \<Rightarrow> Some Panic
              | Some m \<Rightarrow> messages_loop (drop (nat (sint sz)) b) payloadSize (sz + sz) (msgs @ [m])))
      else Some (Ok msgs))"

definition Messages :: "bytes \<Rightarrow> (log_error, bytes list) outcome option" where
  "Messages ms =
     (case Payload ms of None \<Rightarrow> Some Panic
      | Some b \<Rightarrow> messages_loop b (word_of_nat (length b)) 0 [])"

section \<open>Well-formed messages\<close>

text \<open>A message whose declared size is its length: what a producer sends.\<close>

definition whole_message :: "bytes \<Rightarrow> bool" where
  "whole_message m \<longleftrightarrow> length m \<le> 1073741823 \<and> m \<noteq> [] \<and>
     (\<forall>rest. Message_Size (m @ rest) = Some (word_of_nat (length m)))"

lemma Message_Size_whole:
  "whole_message m \<Longrightarrow> Message_Size (m @ rest) = Some (word_of_nat (length m))"
  by (simp add: whole_message_def)

lemma slice32_whole:
  assumes "length m \<le> 1073741823"
  shows "slice32 (m @ rest) 0 (word_of_nat (length m)) = Some m"
  using assms by (simp add: slice32_def sint_word_of_nat_32 slice_def)

lemma Payload_NewMessageSet: "Payload (NewMessageSet off msgs) = Some (concat msgs)"
  by (simp add: Payload_def NewMessageSet_def msgSetHeaderLen_def)

lemma MessageSet_Offset_New [simp]: "MessageSet_Offset (NewMessageSet off msgs) = Some off"
  by (simp add: MessageSet_Offset_def NewMessageSet_def)

lemma PutOffset_New: "PutOffset off' (NewMessageSet off msgs) = Some (NewMessageSet off' msgs)"
  using overwrite_append_exact [of 0 "[]" "PutUint64 off" "PutUint64 off'"]
  by (simp add: PutOffset_def NewMessageSet_def)

lemma double_sint_32:
  assumes "n \<le> 1073741823"
  shows "sint (word_of_nat n + word_of_nat n :: int32) = 2 * int n"
proof -
  have "(word_of_nat n + word_of_nat n :: int32) = word_of_nat (2 * n)" by simp
  with sint_word_of_nat_32 [of "2 * n"] assms show ?thesis by (simp only:)
qed

text \<open>One step of the loop on a whole message at the front of the buffer.\<close>

lemma messages_loop_step:
  assumes "whole_message m" and "sint off < sint payloadSize"
  shows "messages_loop (m @ rest) payloadSize off msgs
    = messages_loop rest payloadSize (word_of_nat (length m) + word_of_nat (length m)) (msgs @ [m])"
proof -
  have len: "length m \<le> 1073741823" using assms(1) by (simp add: whole_message_def)
  then have "nat (sint (word_of_nat (length m) :: int32)) = length m"
    by (simp add: sint_word_of_nat_32)
  with assms(2) slice32_whole [OF len] show ?thesis
    by (subst messages_loop.simps) (simp add: Message_Size_whole [OF assms(1)])
qed

lemma messages_loop_done: "\<not> sint off < sint payloadSize \<Longrightarrow> messages_loop b payloadSize off msgs = Some (Ok msgs)"
  by (subst messages_loop.simps) simp

lemma Messages_one:
  assumes "whole_message m"
  shows "Messages (NewMessageSet off [m]) = Some (Ok [m])"
proof -
  have len: "length m \<le> 1073741823" "m \<noteq> []" using assms by (auto simp: whole_message_def)
  have "Messages (NewMessageSet off [m]) = messages_loop (m @ []) (word_of_nat (length m)) 0 []"
    by (simp add: Messages_def Payload_NewMessageSet)
  also have "\<dots> = messages_loop [] (word_of_nat (length m)) (word_of_nat (length m) + word_of_nat (length m)) [m]"
    using len by (subst messages_loop_step [OF assms]) (simp_all add: sint_word_of_nat_32)
  also have "\<dots> = Some (Ok [m])"
    using len by (intro messages_loop_done) (simp only: double_sint_32 sint_word_of_nat_32)
  finally show ?thesis .
qed

text \<open>
  Of two messages the second is lost when it is not longer than the first: after the first step
  \<^verbatim>\<open>offset\<close> is twice the first size and the loop stops.
\<close>

lemma Messages_two_loses:
  assumes "whole_message m" and "length n \<le> length m"
  shows "Messages (NewMessageSet off [m, n]) = Some (Ok [m])"
proof -
  have len: "length m \<le> 1073741823" "m \<noteq> []" using assms by (auto simp: whole_message_def)
  let ?p = "word_of_nat (length m + length n) :: int32"
  have p: "sint ?p = int (length m + length n)"
    using len assms(2) by (intro sint_word_of_nat_32) simp
  have "Messages (NewMessageSet off [m, n]) = messages_loop (m @ n) ?p 0 []"
    by (simp add: Messages_def Payload_NewMessageSet)
  also have "\<dots> = messages_loop n ?p (word_of_nat (length m) + word_of_nat (length m)) [m]"
    using len p by (subst messages_loop_step [OF assms(1)]) (simp_all add: add_pos_nonneg)
  also have "\<dots> = Some (Ok [m])"
    using len p assms(2) by (intro messages_loop_done) (simp only: double_sint_32)
  finally show ?thesis .
qed

text \<open>A message in the version 0 layout: CRC, magic 0, attributes, key and value.\<close>

definition v0_message :: "int32 \<Rightarrow> int8 \<Rightarrow> bytes \<Rightarrow> bytes \<Rightarrow> bytes" where
  "v0_message crc attr k v =
     PutUint32 crc @ [0, attr] @ PutUint32 (word_of_nat (length k)) @ k @
     PutUint32 (word_of_nat (length v)) @ v"

lemma MagicByte_v0: "MagicByte (v0_message crc attr k v @ rest) = Some 0"
  by (simp add: MagicByte_def v0_message_def nth_append)

lemma uint32_at_append:
  assumes "start = word_of_nat (length pre)" and "length pre \<le> 2147483647"
  shows "uint32_at (pre @ PutUint32 w @ rest) start = Some w"
  using assms by (simp add: uint32_at_def sint_word_of_nat_32)

lemma keyOffsets_v0:
  "keyOffsets (v0_message crc attr k v @ rest)
     = Some (6, word_of_nat (10 + length k), word_of_nat (length k))"
proof -
  have "uint32_at ((PutUint32 crc @ [0, attr]) @ PutUint32 (word_of_nat (length k)) @
      k @ PutUint32 (word_of_nat (length v)) @ v @ rest) 6 = Some (word_of_nat (length k))"
    by (rule uint32_at_append) auto
  then show ?thesis
    by (simp add: keyOffsets_def MagicByte_v0 [unfolded v0_message_def, simplified] v0_message_def)
qed

lemma valueOffsets_v0:
  assumes "length k \<le> 1000000000"
  shows "valueOffsets (v0_message crc attr k v @ rest)
     = Some (word_of_nat (10 + length k), word_of_nat (14 + length k + length v), word_of_nat (length v))"
proof -
  have "uint32_at ((PutUint32 crc @ [0, attr] @ PutUint32 (word_of_nat (length k)) @ k) @
      PutUint32 (word_of_nat (length v)) @ v @ rest) (word_of_nat (10 + length k))
      = Some (word_of_nat (length v))"
    by (rule uint32_at_append) (use assms in auto)
  moreover have "(PutUint32 crc @ [0, attr] @ PutUint32 (word_of_nat (length k)) @ k) @
      PutUint32 (word_of_nat (length v)) @ v @ rest = v0_message crc attr k v @ rest"
    by (simp add: v0_message_def)
  ultimately have "uint32_at (v0_message crc attr k v @ rest) (word_of_nat (10 + length k))
      = Some (word_of_nat (length v))"
    by (simp only:)
  then show ?thesis
    by (simp add: valueOffsets_def keyOffsets_v0)
qed

lemma v0_whole:
  assumes "length k + length v \<le> 1000000000"
  shows "whole_message (v0_message crc attr k v)"
proof -
  have "(word_of_nat n :: int32) \<noteq> -1" if "n \<le> 1000000000" for n
  proof
    assume "(word_of_nat n :: int32) = -1"
    then have "sint (word_of_nat n :: int32) = -1" by simp
    with sint_word_of_nat_32 [of n] that show False by simp
  qed
  then have "Message_Size (v0_message crc attr k v @ rest) = Some (word_of_nat (14 + length k + length v))" for rest
    using assms by (simp add: Message_Size_def MagicByte_v0 keyOffsets_v0 valueOffsets_v0)
  moreover have "length (v0_message crc attr k v) = 14 + length k + length v"
    by (simp add: v0_message_def)
  moreover from this have "v0_message crc attr k v \<noteq> []" by auto
  ultimately show ?thesis using assms by (simp add: whole_message_def)
qed

end
