(* ===== verification/Log_Index.thy ===== *)
theory Log_Index
  imports Log_Message
begin

text \<open>
  \<^verbatim>\<open>commitlog/index.go\<close>: the memory-mapped index of a segment, a sequence of eight-byte entries
  relative to the base offset, and Go's \<^verbatim>\<open>sort.Search\<close>, with which the commit log looks things up.
  The locale \<open>offset_index\<close> is what a segment relies on; \<^verbatim>\<open>Index\<close> is shown to implement it.  The
  memory map is the file's contents; positions are small (a map of ten megabytes) and are naturals.
\<close>

section \<open>sort.Search\<close>

text \<open>The predicate may have a state: \<^verbatim>\<open>findEntry\<close> passes a closure that writes to a variable.\<close>

function search_st :: "(nat \<Rightarrow> 's \<Rightarrow> bool \<times> 's) \<Rightarrow> nat \<Rightarrow> nat \<Rightarrow> 's \<Rightarrow> nat \<times> 's" where
  "search_st f i j s =
     (if i < j then
        let h = (i + j) div 2 in
        (case f h s of (b, s') \<Rightarrow> if b then search_st f i h s' else search_st f (h + 1) j s')
      else (i, s))"
  by pat_completeness auto
termination by (relation "measure (\<lambda>(f, i, j, s). j - i)") auto

declare search_st.simps [simp del]

definition sort_Search :: "nat \<Rightarrow> (nat \<Rightarrow> bool) \<Rightarrow> nat" where
  "sort_Search n f = fst (search_st (\<lambda>i s. (f i, s)) 0 n ())"

lemma search_st_stop: "\<not> i < j \<Longrightarrow> search_st f i j s = (i, s)"
  by (subst search_st.simps) simp

lemma search_st_left:
  "i < j \<Longrightarrow> f ((i + j) div 2) s = (True, s') \<Longrightarrow> search_st f i j s = search_st f i ((i + j) div 2) s'"
  by (subst search_st.simps) (simp add: Let_def)

lemma search_st_right:
  "i < j \<Longrightarrow> f ((i + j) div 2) s = (False, s') \<Longrightarrow> search_st f i j s = search_st f ((i + j) div 2 + 1) j s'"
  by (subst search_st.simps) (simp add: Let_def)

lemma search_st_pure_least:
  assumes f: "\<And>a b. a \<le> b \<Longrightarrow> b < n \<Longrightarrow> f a \<Longrightarrow> f b" and "\<forall>k<i. \<not> f k" and "j \<le> n" and "j < n \<longrightarrow> f j" and "i \<le> j"
    and r: "search_st (\<lambda>i s. (f i, s)) i j s = (r, s')"
  shows "r \<le> n \<and> (\<forall>k<r. \<not> f k) \<and> (r < n \<longrightarrow> f r)"
  using assms(2-)
proof (induction "j - i" arbitrary: i j rule: less_induct)
  case less
  let ?h = "(i + j) div 2"
  consider (stop) "\<not> i < j" | (left) "i < j" "f ?h" | (right) "i < j" "\<not> f ?h" by blast
  then show ?case
  proof cases
    case stop
    with less.prems(5) have "r = i" by (simp add: search_st_stop)
    moreover have "i = j" using stop less.prems(4) by simp
    ultimately show ?thesis using less.prems(1-3) by blast
  next
    case left
    then have "search_st (\<lambda>i s. (f i, s)) i ?h s = (r, s')"
      using less.prems(5) search_st_left [of i j "\<lambda>i s. (f i, s)" s s] by simp
    moreover have "?h - i < j - i" "?h \<le> n" "i \<le> ?h" using left less.prems(2) by auto
    ultimately show ?thesis
      using less.hyps [of ?h i] less.prems(1) left(2) by blast
  next
    case right
    then have "search_st (\<lambda>i s. (f i, s)) (?h + 1) j s = (r, s')"
      using less.prems(5) search_st_right [of i j "\<lambda>i s. (f i, s)" s s] by simp
    moreover have "j - (?h + 1) < j - i" "?h + 1 \<le> j" using right by auto
    moreover have "\<forall>k<?h + 1. \<not> f k"
    proof (intro allI impI)
      fix k assume "k < ?h + 1"
      moreover have "?h < n" using right(1) less.prems(2) by auto
      ultimately show "\<not> f k" using f [of k ?h] right(2) by auto
    qed
    ultimately show ?thesis
      using less.hyps [of j "?h + 1"] less.prems(2,3) by blast
  qed
qed

text \<open>On a monotone predicate \<^verbatim>\<open>sort.Search\<close> finds the first index where it holds, or \<open>n\<close>.\<close>

lemma sort_Search_least:
  assumes "\<And>a b. a \<le> b \<Longrightarrow> b < n \<Longrightarrow> f a \<Longrightarrow> f b"
  shows "sort_Search n f \<le> n" and "k < sort_Search n f \<Longrightarrow> \<not> f k"
    and "sort_Search n f < n \<Longrightarrow> f (sort_Search n f)"
proof -
  obtain r where r: "search_st (\<lambda>i s. (f i, s)) 0 n () = (r, ())"
    by (cases "search_st (\<lambda>i s. (f i, s)) 0 n ()") simp
  then have "sort_Search n f = r" by (simp add: sort_Search_def)
  with search_st_pure_least [of n f, OF assms _ _ _ _ r]
  show "sort_Search n f \<le> n" and "k < sort_Search n f \<Longrightarrow> \<not> f k"
    and "sort_Search n f < n \<Longrightarrow> f (sort_Search n f)"
    by auto
qed

section \<open>Index\<close>

record Entry =
  e_Offset :: int64
  e_Position :: int64

record relEntry =
  rel_Offset :: int32
  rel_Position :: int32

definition newRelEntry :: "Entry \<Rightarrow> int64 \<Rightarrow> relEntry" where
  "newRelEntry e baseOffset =
     \<lparr>rel_Offset = ucast (e_Offset e - baseOffset), rel_Position = ucast (e_Position e)\<rparr>"

definition rel_fill :: "relEntry \<Rightarrow> int64 \<Rightarrow> Entry" where
  "rel_fill rel baseOffset =
     \<lparr>e_Offset = baseOffset + scast (rel_Offset rel), e_Position = scast (rel_Position rel)\<rparr>"

text \<open>\<^verbatim>\<open>binary.Write\<close> and \<^verbatim>\<open>binary.Read\<close> of the two fields of a \<^verbatim>\<open>relEntry\<close>.\<close>

definition rel_bytes :: "relEntry \<Rightarrow> bytes" where
  "rel_bytes rel = PutUint32 (rel_Offset rel) @ PutUint32 (rel_Position rel)"

definition rel_read :: "bytes \<Rightarrow> relEntry" where
  "rel_read p = \<lparr>rel_Offset = Uint32 p, rel_Position = Uint32 (drop 4 p)\<rparr>"

definition entryWidth :: nat where "entryWidth = 8"

definition roundDown :: "nat \<Rightarrow> nat \<Rightarrow> nat" where
  "roundDown tot factor = factor * (tot div factor)"

record Index =
  idx_bytes :: nat
  idx_baseOffset :: int64
  idx_mmap :: bytes
  idx_position :: nat

text \<open>\<^verbatim>\<open>file.Truncate(n)\<close> cuts the file or fills it up with zeros.\<close>

definition truncate_file :: "nat \<Rightarrow> bytes \<Rightarrow> bytes" where
  "truncate_file n file = take n file @ replicate (n - length file) 0"

text \<open>\<open>NewIndex path bytes base file\<close> opens the index whose file holds \<open>file\<close>.\<close>

definition NewIndex :: "string \<Rightarrow> nat \<Rightarrow> int64 \<Rightarrow> bytes \<Rightarrow> (log_error, Index) outcome" where
  "NewIndex path bytes baseOffset file =
     (let bytes = (if bytes = 0 then 10 * 1024 * 1024 else bytes) in
      if path = [] then Err PathEmpty
      else Ok \<lparr>idx_bytes = bytes, idx_baseOffset = baseOffset,
               idx_mmap = truncate_file (roundDown bytes entryWidth) file,
               idx_position = length file\<rparr>)"

definition Index_WriteAt :: "bytes \<Rightarrow> nat \<Rightarrow> Index \<Rightarrow> (log_error, Index) outcome" where
  "Index_WriteAt p off idx =
     (if length (idx_mmap idx) < off + entryWidth then Panic
      else Ok (idx\<lparr>idx_mmap := overwrite (idx_mmap idx) off (take entryWidth p)\<rparr>))"

definition WriteEntry :: "Entry \<Rightarrow> Index \<Rightarrow> (log_error, Index) outcome" where
  "WriteEntry entry idx =
     bind_outcome (Index_WriteAt (rel_bytes (newRelEntry entry (idx_baseOffset idx))) (idx_position idx) idx)
       (\<lambda>idx. Ok (idx\<lparr>idx_position := idx_position idx + entryWidth\<rparr>))"

definition Index_ReadAt :: "nat \<Rightarrow> Index \<Rightarrow> (log_error, bytes) outcome" where
  "Index_ReadAt off idx =
     (if idx_position idx < off + entryWidth then Err EOF
      else case slice (idx_mmap idx) off (off + entryWidth) of None \<Rightarrow> Panic | Some p \<Rightarrow> Ok p)"

definition ReadEntryAtFileOffset :: "nat \<Rightarrow> Index \<Rightarrow> (log_error, Entry) outcome" where
  "ReadEntryAtFileOffset fileOffset idx =
     bind_outcome (Index_ReadAt fileOffset idx)
       (\<lambda>p. Ok (rel_fill (rel_read p) (idx_baseOffset idx)))"

definition ReadEntryAtLogOffset :: "nat \<Rightarrow> Index \<Rightarrow> (log_error, Entry) outcome" where
  "ReadEntryAtLogOffset logOffset idx = ReadEntryAtFileOffset (logOffset * entryWidth) idx"

definition TruncateEntries :: "nat \<Rightarrow> Index \<Rightarrow> (log_error, Index) outcome" where
  "TruncateEntries number idx =
     (if idx_position idx < number * entryWidth then Err BadTruncateNumber
      else Ok (idx\<lparr>idx_position := number * entryWidth\<rparr>))"

definition SanityCheck :: "Index \<Rightarrow> (log_error, unit) outcome" where
  "SanityCheck idx =
     (if idx_position idx = 0 then Ok ()
      else if idx_position idx mod entryWidth \<noteq> 0 then Err ErrIndexCorrupt
      else bind_outcome (ReadEntryAtFileOffset (idx_position idx - entryWidth) idx)
        (\<lambda>entry. if sint (e_Offset entry) < sint (idx_baseOffset idx) then Err ErrIndexCorrupt else Ok ()))"

text \<open>\<^verbatim>\<open>Close\<close> truncates the file to the entries written: what the next \<^verbatim>\<open>NewIndex\<close> finds.\<close>

definition Index_Close :: "Index \<Rightarrow> bytes" where
  "Index_Close idx = truncate_file (idx_position idx) (idx_mmap idx)"

section \<open>The contract of an index\<close>

text \<open>
  An index stands for the list of its entries.  Writing appends while there is room and the entry
  fits its width; reading returns the entry, or the end of file past the last one.
\<close>

locale offset_index =
  fixes repr :: "'i \<Rightarrow> Entry list \<Rightarrow> bool"
    and fits :: "'i \<Rightarrow> Entry \<Rightarrow> bool"
    and room :: "'i \<Rightarrow> nat"
    and put :: "Entry \<Rightarrow> 'i \<Rightarrow> (log_error, 'i) outcome"
    and get :: "nat \<Rightarrow> 'i \<Rightarrow> (log_error, Entry) outcome"
  assumes write_ok: "repr x es \<Longrightarrow> fits x e \<Longrightarrow> 0 < room x \<Longrightarrow>
      \<exists>y. put e x = Ok y \<and> repr y (es @ [e]) \<and> room y = room x - 1 \<and> fits y = fits x"
    and write_full: "repr x es \<Longrightarrow> room x = 0 \<Longrightarrow> put e x = Panic"
    and read_ok: "repr x es \<Longrightarrow> k < length es \<Longrightarrow> get k x = Ok (es ! k)"
    and read_eof: "repr x es \<Longrightarrow> length es \<le> k \<Longrightarrow> get k x = Err EOF"
begin

text \<open>A probe of the binary search: at the end of file the entry variable keeps its last value.\<close>

lemma probe:
  assumes "repr x es"
  shows "(case get h x of Ok e' \<Rightarrow> e' | _ \<Rightarrow> e) = (if h < length es then es ! h else e)"
  using read_ok [OF assms] read_eof [OF assms] by (cases "h < length es") auto

lemma writes_ok:
  assumes "repr x es" and "\<forall>e\<in>set fs. fits x e" and "length fs \<le> room x"
  shows "\<exists>y. fold (\<lambda>e m. bind_outcome m (put e)) fs (Ok x) = Ok y \<and> repr y (es @ fs) \<and>
            room y = room x - length fs \<and> fits y = fits x"
  using assms
proof (induction fs arbitrary: x es)
  case (Cons f fs)
  then obtain y where y: "put f x = Ok y" "repr y (es @ [f])" "room y = room x - 1" "fits y = fits x"
    using write_ok [of x es f] by auto
  with Cons.prems Cons.IH [of y "es @ [f]"] show ?case by auto
qed auto

end

subsection \<open>Index implements it\<close>

definition entry_bytes :: "int64 \<Rightarrow> Entry \<Rightarrow> bytes" where
  "entry_bytes base e = rel_bytes (newRelEntry e base)"

definition entry_fits :: "int64 \<Rightarrow> Entry \<Rightarrow> bool" where
  "entry_fits base e \<longleftrightarrow> rel_fill (newRelEntry e base) base = e"

definition index_repr :: "Index \<Rightarrow> Entry list \<Rightarrow> bool" where
  "index_repr idx es \<longleftrightarrow> idx_position idx = entryWidth * length es \<and>
     entryWidth * length es \<le> length (idx_mmap idx) \<and>
     take (entryWidth * length es) (idx_mmap idx) = concat (map (entry_bytes (idx_baseOffset idx)) es) \<and>
     (\<forall>e\<in>set es. entry_fits (idx_baseOffset idx) e)"

definition index_room :: "Index \<Rightarrow> nat" where
  "index_room idx = (length (idx_mmap idx) - idx_position idx) div entryWidth"

lemma length_entry_bytes [simp, width_simps]: "length (entry_bytes base e) = 8"
  by (simp add: entry_bytes_def rel_bytes_def)

lemma length_entries [simp]: "length (concat (map (entry_bytes base) es)) = 8 * length es"
  by (induction es) auto

lemma entry_bytes_nth:
  "k < length es \<Longrightarrow>
   take 8 (drop (8 * k) (concat (map (entry_bytes base) es))) = entry_bytes base (es ! k)"
proof (induction es arbitrary: k)
  case (Cons e es)
  then show ?case by (cases k) auto
qed simp

lemma rel_read_bytes: "rel_read (rel_bytes rel) = rel"
  by (cases rel) (simp add: rel_read_def rel_bytes_def)

lemma entry_fitsI:
  assumes "k \<le> 2147483647" and "p \<le> 2147483647"
  shows "entry_fits base \<lparr>e_Offset = base + word_of_nat k, e_Position = word_of_nat p\<rparr>"
  using narrow_32_64 [OF assms(1)] narrow_32_64 [OF assms(2)]
  by (simp add: entry_fits_def rel_fill_def newRelEntry_def)

lemma index_repr_read:
  assumes "index_repr idx es" and "k < length es"
  shows "ReadEntryAtLogOffset k idx = Ok (es ! k)"
proof -
  from assms have le: "8 * k + 8 \<le> 8 * length es" by simp
  have "take 8 (drop (8 * k) (take (8 * length es) (idx_mmap idx))) = entry_bytes (idx_baseOffset idx) (es ! k)"
    using assms by (simp add: index_repr_def entryWidth_def entry_bytes_nth)
  then have "take 8 (drop (8 * k) (idx_mmap idx)) = entry_bytes (idx_baseOffset idx) (es ! k)"
    using le by (simp add: drop_take)
  moreover have "entry_fits (idx_baseOffset idx) (es ! k)"
    using assms by (simp add: index_repr_def)
  ultimately show ?thesis
    using assms le
    by (simp add: ReadEntryAtLogOffset_def ReadEntryAtFileOffset_def Index_ReadAt_def slice_def
        index_repr_def entryWidth_def entry_bytes_def rel_read_bytes entry_fits_def mult.commute)
qed

lemma index_repr_eof:
  "index_repr idx es \<Longrightarrow> length es \<le> k \<Longrightarrow> ReadEntryAtLogOffset k idx = Err EOF"
  by (simp add: ReadEntryAtLogOffset_def ReadEntryAtFileOffset_def Index_ReadAt_def index_repr_def
      entryWidth_def)

lemma index_repr_write:
  assumes "index_repr idx es" and "entry_fits (idx_baseOffset idx) e" and "0 < index_room idx"
  shows "\<exists>idx'. WriteEntry e idx = Ok idx' \<and> index_repr idx' (es @ [e]) \<and>
     index_room idx' = index_room idx - 1 \<and> idx_baseOffset idx' = idx_baseOffset idx \<and>
     idx_bytes idx' = idx_bytes idx"
proof -
  let ?n = "8 * length es" and ?b = "entry_bytes (idx_baseOffset idx) e"
  have pos: "idx_position idx = ?n" and le: "?n \<le> length (idx_mmap idx)"
    and front: "take ?n (idx_mmap idx) = concat (map (entry_bytes (idx_baseOffset idx)) es)"
    using assms(1) by (auto simp: index_repr_def entryWidth_def)
  from assms(3) pos have fit: "?n + 8 \<le> length (idx_mmap idx)"
    by (simp add: index_room_def entryWidth_def div_greater_zero_iff)
  have new: "overwrite (idx_mmap idx) ?n ?b = take ?n (idx_mmap idx) @ ?b @ drop (?n + 8) (idx_mmap idx)"
    using fit by (simp add: overwrite_def)
  have "WriteEntry e idx = Ok (idx\<lparr>idx_mmap := overwrite (idx_mmap idx) ?n ?b, idx_position := ?n + 8\<rparr>)"
    using fit pos by (simp add: WriteEntry_def Index_WriteAt_def entryWidth_def entry_bytes_def [symmetric])
  moreover have "index_repr (idx\<lparr>idx_mmap := overwrite (idx_mmap idx) ?n ?b, idx_position := ?n + 8\<rparr>) (es @ [e])"
    using assms(1,2) fit front by (simp add: index_repr_def entryWidth_def new)
  moreover have "(length (idx_mmap idx) - (?n + 8)) div 8 = (length (idx_mmap idx) - ?n) div 8 - 1"
    using fit by (simp add: le_div_geq [of 8 "length (idx_mmap idx) - ?n"])
  ultimately show ?thesis
    using fit pos by (simp add: index_room_def entryWidth_def)
qed

lemma index_repr_full:
  "index_repr idx es \<Longrightarrow> index_room idx = 0 \<Longrightarrow> WriteEntry e idx = Panic"
  by (auto simp: index_repr_def index_room_def WriteEntry_def Index_WriteAt_def entryWidth_def
      div_eq_0_iff)

interpretation index: offset_index index_repr "\<lambda>idx. entry_fits (idx_baseOffset idx)" index_room
  WriteEntry ReadEntryAtLogOffset
proof unfold_locales
  fix x es e
  assume "index_repr x es" and "entry_fits (idx_baseOffset x) e" and "0 < index_room x"
  then obtain y where "WriteEntry e x = Ok y" "index_repr y (es @ [e])"
      "index_room y = index_room x - 1" "idx_baseOffset y = idx_baseOffset x"
    using index_repr_write by blast
  then show "\<exists>y. WriteEntry e x = Ok y \<and> index_repr y (es @ [e]) \<and> index_room y = index_room x - 1 \<and>
      entry_fits (idx_baseOffset y) = entry_fits (idx_baseOffset x)"
    by auto
qed (auto intro: index_repr_read index_repr_eof index_repr_full)

subsection \<open>Opening and truncating\<close>

lemma TruncateEntries_repr:
  assumes "index_repr idx es" and "n \<le> length es"
  shows "\<exists>idx'. TruncateEntries n idx = Ok idx' \<and> index_repr idx' (take n es)"
proof -
  have "take (8 * n) (idx_mmap idx) = take (8 * n) (take (8 * length es) (idx_mmap idx))"
    using assms(2) by simp
  also have "\<dots> = take (8 * n) (concat (map (entry_bytes (idx_baseOffset idx)) (take n es @ drop n es)))"
    using assms(1) by (simp add: index_repr_def entryWidth_def)
  also have "\<dots> = concat (map (entry_bytes (idx_baseOffset idx)) (take n es))"
    using assms(2) by (simp only: map_append concat_append take_append) simp
  finally show ?thesis
    using assms by (auto simp: TruncateEntries_def index_repr_def entryWidth_def dest: in_set_takeD)
qed

lemma SanityCheck_repr:
  assumes "index_repr idx es" and "\<forall>e\<in>set es. sint (idx_baseOffset idx) \<le> sint (e_Offset e)"
  shows "SanityCheck idx = Ok ()"
proof (cases "es = []")
  case False
  then obtain k where k: "length es = Suc k" by (cases es) auto
  then have "ReadEntryAtFileOffset (8 * k) idx = Ok (es ! k)"
    using index_repr_read [OF assms(1), of k] by (simp add: ReadEntryAtLogOffset_def entryWidth_def mult.commute)
  moreover have "sint (idx_baseOffset idx) \<le> sint (e_Offset (es ! k))"
    using assms(2) k by simp
  ultimately show ?thesis
    using assms(1) k by (simp add: SanityCheck_def index_repr_def entryWidth_def)
qed (use assms in \<open>simp add: SanityCheck_def index_repr_def\<close>)

text \<open>Closing an index and opening it again gives the same entries.\<close>

lemma reopen_repr:
  assumes "index_repr idx es" and "path \<noteq> []"
    and "idx_bytes idx \<noteq> 0" and "length (idx_mmap idx) = roundDown (idx_bytes idx) entryWidth"
  shows "\<exists>idx'. NewIndex path (idx_bytes idx) (idx_baseOffset idx) (Index_Close idx) = Ok idx' \<and>
     index_repr idx' es"
proof -
  have closed: "Index_Close idx = concat (map (entry_bytes (idx_baseOffset idx)) es)"
    using assms(1) by (simp add: Index_Close_def truncate_file_def index_repr_def)
  have "entryWidth * length es \<le> roundDown (idx_bytes idx) entryWidth"
    using assms(1,4) by (simp add: index_repr_def)
  then have "index_repr \<lparr>idx_bytes = idx_bytes idx, idx_baseOffset = idx_baseOffset idx,
      idx_mmap = truncate_file (roundDown (idx_bytes idx) entryWidth) (Index_Close idx),
      idx_position = length (Index_Close idx)\<rparr> es"
    using assms(1) by (simp add: index_repr_def closed truncate_file_def entryWidth_def)
  then show ?thesis
    using assms(2,3) by (simp add: NewIndex_def Let_def)
qed

section \<open>IndexScanner\<close>

text \<open>\<open>IndexScan idx off\<close> is one \<^verbatim>\<open>Scan\<close> of a scanner at entry \<open>off\<close>; it moves on by one when it succeeds.\<close>

definition IndexScan :: "Index \<Rightarrow> nat \<Rightarrow> (log_error, Entry) outcome" where
  "IndexScan idx off =
     bind_outcome (ReadEntryAtLogOffset off idx)
       (\<lambda>e. if e_Offset e = 0 \<and> off \<noteq> 0 then Err EOF else Ok e)"

lemma IndexScan_repr:
  assumes "index_repr idx es" and "\<forall>k<length es. k \<noteq> 0 \<longrightarrow> e_Offset (es ! k) \<noteq> 0"
  shows "IndexScan idx k = (if k < length es then Ok (es ! k) else Err EOF)"
  using assms index_repr_read [OF assms(1), of k] index_repr_eof [OF assms(1), of k]
  by (auto simp: IndexScan_def)

end
