(* ===== verification/Log_Segment.thy ===== *)
theory Log_Segment
  imports Log_Index
begin

text \<open>
  \<^verbatim>\<open>commitlog/segment.go\<close>: a log file and its index.  A segment carries the contents of its log
  file, the position of the file handle and whether it is closed; opening one takes the contents of
  the files it finds.  Failures of the disk itself are not modelled.
\<close>

section \<open>File names\<close>

fun digits :: "nat \<Rightarrow> string" where
  "digits n = (if n < 10 then [char_of (48 + n)] else digits (n div 10) @ [char_of (48 + n mod 10)])"

declare digits.simps [simp del]

text \<open>\<^verbatim>\<open>fmt.Sprintf("%020d", n)\<close>: the sign counts for the width.\<close>

definition pad_zeros :: "nat \<Rightarrow> string \<Rightarrow> string" where
  "pad_zeros w s = replicate (w - length s) CHR ''0'' @ s"

definition fmt020 :: "int \<Rightarrow> string" where
  "fmt020 n = (if n < 0 then CHR ''-'' # pad_zeros 19 (digits (nat (- n))) else pad_zeros 20 (digits (nat n)))"

definition logName :: "int64 \<Rightarrow> string \<Rightarrow> string" where
  "logName base suffix = fmt020 (sint base) @ ''.log'' @ suffix"

definition indexName :: "int64 \<Rightarrow> string \<Rightarrow> string" where
  "indexName base suffix = fmt020 (sint base) @ ''.index'' @ suffix"

section \<open>Segment\<close>

record Segment =
  seg_log :: bytes
  seg_fpos :: nat
  seg_closed :: bool
  seg_Index :: Index
  seg_BaseOffset :: int64
  seg_NextOffset :: int64
  seg_Position :: int64
  seg_maxBytes :: int64
  seg_path :: string
  seg_suffix :: string

definition indexPath :: "Segment \<Rightarrow> string" where
  "indexPath s = seg_path s @ ''/'' @ indexName (seg_BaseOffset s) (seg_suffix s)"

text \<open>
  The loop of \<^verbatim>\<open>BuildIndex\<close> at position \<open>fpos\<close> of the file.  Each turn reads the twelve bytes of a
  header and \<open>size\<close> bytes of payload with \<^verbatim>\<open>io.CopyN\<close>, and then seeks forward by \<open>size\<close> once more.
\<close>

function build_loop :: "bytes \<Rightarrow> nat \<Rightarrow> int64 \<Rightarrow> int64 \<Rightarrow> Index \<Rightarrow>
    (log_error, Index \<times> int64 \<times> int64) outcome" where
  "build_loop log fpos nextOffset position idx =
     (if length log < fpos + 12 then Ok (idx, nextOffset, position)
      else let sz = unat (Uint32 (drop (fpos + 8) log)) in
        if length log < fpos + 12 + sz then Ok (idx, nextOffset, position)
        else case WriteEntry \<lparr>e_Offset = nextOffset, e_Position = position\<rparr> idx of
          Ok idx' \<Rightarrow> build_loop log (fpos + 12 + sz + sz) (nextOffset + 1)
                       (position + word_of_nat (sz + 12)) idx'
        | Err e \<Rightarrow> Err e
        | Panic \<Rightarrow> Panic)"
  by pat_completeness auto
termination by (relation "measure (\<lambda>(log, fpos, _). Suc (length log) - fpos)") auto

declare build_loop.simps [simp del]

definition BuildIndex :: "Segment \<Rightarrow> (log_error, Segment) outcome" where
  "BuildIndex s =
     bind_outcome (SanityCheck (seg_Index s)) (\<lambda>_.
     bind_outcome (TruncateEntries 0 (seg_Index s)) (\<lambda>idx.
     bind_outcome (build_loop (seg_log s) 0 (seg_BaseOffset s) 0 idx) (\<lambda>(idx, nextOffset, position).
     Ok (s\<lparr>seg_Index := idx, seg_fpos := length (seg_log s), seg_NextOffset := nextOffset,
           seg_Position := position\<rparr>))))"

text \<open>\<open>SetupIndex\<close> with the contents of the index file it opens.\<close>

definition SetupIndex :: "bytes \<Rightarrow> Segment \<Rightarrow> (log_error, Segment) outcome" where
  "SetupIndex indexFile s =
     bind_outcome (NewIndex (indexPath s) 0 (seg_BaseOffset s) indexFile)
       (\<lambda>idx. BuildIndex (s\<lparr>seg_Index := idx\<rparr>))"

definition NewSegment ::
  "string \<Rightarrow> int64 \<Rightarrow> int64 \<Rightarrow> string \<Rightarrow> bytes \<Rightarrow> bytes \<Rightarrow> (log_error, Segment) outcome" where
  "NewSegment path baseOffset maxBytes suffix logFile indexFile =
     SetupIndex indexFile
       \<lparr>seg_log = logFile, seg_fpos = 0, seg_closed = False,
        seg_Index = \<lparr>idx_bytes = 0, idx_baseOffset = 0, idx_mmap = [], idx_position = 0\<rparr>,
        seg_BaseOffset = baseOffset, seg_NextOffset = baseOffset, seg_Position = 0,
        seg_maxBytes = maxBytes, seg_path = path, seg_suffix = suffix\<rparr>"

definition IsFull :: "Segment \<Rightarrow> bool" where
  "IsFull s \<longleftrightarrow> sint (seg_maxBytes s) \<le> sint (seg_Position s)"

text \<open>The file is opened with \<^verbatim>\<open>O_APPEND\<close>: a write goes to the end and leaves the handle there.\<close>

definition Segment_Write :: "bytes \<Rightarrow> Segment \<Rightarrow> (log_error, Segment) outcome" where
  "Segment_Write p s =
     (if seg_closed s then Err FileClosed
      else Ok (s\<lparr>seg_log := seg_log s @ p, seg_fpos := length (seg_log s @ p),
                 seg_NextOffset := seg_NextOffset s + 1,
                 seg_Position := seg_Position s + word_of_nat (length p)\<rparr>))"

definition Segment_Read :: "nat \<Rightarrow> Segment \<Rightarrow> (log_error, bytes \<times> Segment) outcome" where
  "Segment_Read n s =
     (if seg_closed s then Err FileClosed
      else if n \<noteq> 0 \<and> length (seg_log s) \<le> seg_fpos s then Err EOF
      else let p = take n (drop (seg_fpos s) (seg_log s)) in
        Ok (p, s\<lparr>seg_fpos := seg_fpos s + length p\<rparr>))"

text \<open>\<open>ReadAt n off s\<close>: the bytes read into a slice of length \<open>n\<close>, and the error if it is not filled.\<close>

definition Segment_ReadAt :: "nat \<Rightarrow> nat \<Rightarrow> Segment \<Rightarrow> bytes \<times> log_error option" where
  "Segment_ReadAt n off s =
     (if seg_closed s then ([], Some FileClosed)
      else let p = take n (drop off (seg_log s)) in (p, if length p < n then Some EOF else None))"

definition Segment_Close :: "Segment \<Rightarrow> (log_error, Segment) outcome" where
  "Segment_Close s = (if seg_closed s then Err FileClosed else Ok (s\<lparr>seg_closed := True\<rparr>))"

text \<open>\<^verbatim>\<open>Delete\<close> closes the segment and removes its two files.\<close>

definition Segment_Delete :: "Segment \<Rightarrow> (log_error, Segment) outcome" where
  "Segment_Delete s = Segment_Close s"

definition cleanedSuffix :: string where "cleanedSuffix = ''.cleaned''"

text \<open>
  \<open>Replace s old\<close>: both are closed, the files of \<open>s\<close> take the names of those of \<open>old\<close>, and \<open>s\<close> is
  opened again on them.  The result is the new \<open>s\<close> and the closed \<open>old\<close>.
\<close>

definition Segment_Replace :: "Segment \<Rightarrow> Segment \<Rightarrow> (log_error, Segment \<times> Segment) outcome" where
  "Segment_Replace s old =
     bind_outcome (Segment_Close old) (\<lambda>old.
     bind_outcome (Segment_Close s) (\<lambda>s.
     bind_outcome (SetupIndex (Index_Close (seg_Index s))
         (s\<lparr>seg_suffix := [], seg_closed := False, seg_fpos := 0\<rparr>)) (\<lambda>s.
     Ok (s, old))))"

text \<open>
  \<^verbatim>\<open>findEntry\<close>: the closure given to \<^verbatim>\<open>sort.Search\<close> reads into one variable, which keeps its value
  where the read fails.
\<close>

definition probe_entry :: "Index \<Rightarrow> nat \<Rightarrow> Entry \<Rightarrow> Entry" where
  "probe_entry idx i e = (case ReadEntryAtFileOffset (i * entryWidth) idx of Ok e' \<Rightarrow> e' | _ \<Rightarrow> e)"

definition entry_reached :: "int64 \<Rightarrow> Entry \<Rightarrow> bool" where
  "entry_reached off e \<longleftrightarrow> sint off \<le> sint (e_Offset e) \<or> e_Offset e = 0"

definition findEntry :: "int64 \<Rightarrow> Segment \<Rightarrow> (log_error, Entry) outcome" where
  "findEntry off s =
     (let n = idx_bytes (seg_Index s) div entryWidth;
          (i, e) = search_st (\<lambda>i e. let e' = probe_entry (seg_Index s) i e in (entry_reached off e', e'))
                     0 n \<lparr>e_Offset = 0, e_Position = 0\<rparr> in
      if i = n then Err EntryNotFound else Ok (probe_entry (seg_Index s) i e))"

text \<open>One \<^verbatim>\<open>Scan\<close> of a segment scanner at entry \<open>k\<close>.\<close>

definition SegmentScan :: "Segment \<Rightarrow> nat \<Rightarrow> (log_error, bytes) outcome" where
  "SegmentScan s k =
     bind_outcome (IndexScan (seg_Index s) k) (\<lambda>entry.
       let off = nat (sint (e_Position entry)) in
       case Segment_ReadAt msgSetHeaderLen off s of
         (_, Some err) \<Rightarrow> Err err
       | (header, None) \<Rightarrow>
           let sz = sint (the (MessageSet_Size header) - 12) in
           if sz < 0 then Panic
           else case Segment_ReadAt (nat sz) (off + msgSetHeaderLen) s of
             (_, Some err) \<Rightarrow> Err err
           | (payload, None) \<Rightarrow> Ok (header @ payload))"

section \<open>What a segment stands for\<close>

text \<open>A segment stands for the list of its records; the entries of the index follow from them.\<close>

definition entry_at :: "int64 \<Rightarrow> bytes list \<Rightarrow> nat \<Rightarrow> Entry" where
  "entry_at base rs k = \<lparr>e_Offset = base + word_of_nat k, e_Position = word_of_nat (length (concat (take k rs)))\<rparr>"

definition entries_of :: "int64 \<Rightarrow> bytes list \<Rightarrow> Entry list" where
  "entries_of base rs = map (entry_at base rs) [0..<length rs]"

definition is_record :: "int64 \<Rightarrow> bytes \<Rightarrow> bool" where
  "is_record off r \<longleftrightarrow> 12 \<le> length r \<and> MessageSet_Offset r = Some off \<and>
     Uint32 (drop 8 r) = word_of_nat (length r - 12)"

definition seg_repr :: "Segment \<Rightarrow> bytes list \<Rightarrow> bool" where
  "seg_repr s rs \<longleftrightarrow> \<not> seg_closed s \<and> seg_log s = concat rs \<and>
     seg_Position s = word_of_nat (length (concat rs)) \<and> length (concat rs) \<le> 2147483647 \<and>
     seg_NextOffset s = seg_BaseOffset s + word_of_nat (length rs) \<and>
     0 \<le> sint (seg_BaseOffset s) \<and> sint (seg_BaseOffset s) + int (length rs) < 2 ^ 63 \<and>
     idx_baseOffset (seg_Index s) = seg_BaseOffset s \<and>
     index_repr (seg_Index s) (entries_of (seg_BaseOffset s) rs) \<and>
     (\<forall>k<length rs. is_record (seg_BaseOffset s + word_of_nat k) (rs ! k))"

lemma length_entries_of [simp]: "length (entries_of base rs) = length rs"
  by (simp add: entries_of_def)

lemma entries_of_nth: "k < length rs \<Longrightarrow> entries_of base rs ! k = entry_at base rs k"
  by (simp add: entries_of_def)

lemma entries_of_snoc: "entries_of base (rs @ [r]) = entries_of base rs @ [entry_at base (rs @ [r]) (length rs)]"
  by (simp add: entries_of_def entry_at_def)

lemma sint_plus_nat:
  assumes "0 \<le> sint (b :: int64)" and "sint b + int k < 2 ^ 63"
  shows "sint (b + word_of_nat k) = sint b + int k"
proof -
  have "b + word_of_nat k = word_of_int (sint b + int k)" by simp
  moreover have "sint (word_of_int (sint b + int k) :: int64) = sint b + int k"
    using assms by (intro sint_word_of_int_64) auto
  ultimately show ?thesis by simp
qed

lemma records_ge: "\<forall>k<length rs. 12 \<le> length (rs ! k) \<Longrightarrow> 12 * length rs \<le> length (concat rs)"
proof (induction rs)
  case (Cons r rs)
  have "\<forall>k<length rs. 12 \<le> length (rs ! k)" using Cons.prems by auto
  moreover have "12 \<le> length r" using Cons.prems by auto
  ultimately show ?case using Cons.IH by simp
qed simp

subsection \<open>A new segment and an append\<close>

lemma NewSegment_empty:
  assumes "0 \<le> sint base" and "0 < sint base + 1"
  shows "\<exists>s. NewSegment path base maxBytes suffix [] [] = Ok s \<and> seg_repr s [] \<and>
     seg_BaseOffset s = base \<and> seg_maxBytes s = maxBytes \<and> seg_path s = path \<and>
     index_room (seg_Index s) = 1310720 \<and> idx_bytes (seg_Index s) = 10485760"
  using assms sint_less [of base]
  by (simp add: NewSegment_def SetupIndex_def NewIndex_def indexPath_def BuildIndex_def SanityCheck_def
      TruncateEntries_def build_loop.simps seg_repr_def index_repr_def entries_of_def index_room_def
      entryWidth_def truncate_file_def roundDown_def Let_def)

text \<open>Writing a record and its entry, as \<^verbatim>\<open>Append\<close> does.\<close>

lemma seg_repr_append:
  assumes s: "seg_repr s rs" and r: "is_record (seg_NextOffset s) r"
    and len: "length (concat rs) + length r \<le> 2147483647"
    and off: "sint (seg_BaseOffset s) + int (length rs) + 1 < 2 ^ 63"
    and room: "0 < index_room (seg_Index s)"
  shows "\<exists>s' idx. Segment_Write r s = Ok s' \<and>
     WriteEntry \<lparr>e_Offset = seg_NextOffset s, e_Position = seg_Position s\<rparr> (seg_Index s') = Ok idx \<and>
     seg_repr (s'\<lparr>seg_Index := idx\<rparr>) (rs @ [r]) \<and> index_room idx = index_room (seg_Index s) - 1 \<and>
     idx_bytes idx = idx_bytes (seg_Index s) \<and> seg_maxBytes s' = seg_maxBytes s \<and>
     seg_path s' = seg_path s \<and> seg_BaseOffset s' = seg_BaseOffset s"
proof -
  let ?base = "seg_BaseOffset s" and ?e = "entry_at (seg_BaseOffset s) (rs @ [r]) (length rs)"
  have e: "\<lparr>e_Offset = seg_NextOffset s, e_Position = seg_Position s\<rparr> = ?e"
    using s by (simp add: seg_repr_def entry_at_def)
  have "12 * length rs \<le> length (concat rs)"
    using s by (intro records_ge) (auto simp: seg_repr_def is_record_def)
  then have "entry_fits ?base ?e"
    unfolding entry_at_def using len by (intro entry_fitsI) auto
  then obtain idx where idx: "WriteEntry ?e (seg_Index s) = Ok idx"
      "index_repr idx (entries_of ?base rs @ [?e])" "index_room idx = index_room (seg_Index s) - 1"
      "idx_baseOffset idx = ?base" "idx_bytes idx = idx_bytes (seg_Index s)"
    using index_repr_write [of "seg_Index s" "entries_of ?base rs" ?e] s room
    by (auto simp: seg_repr_def)
  have "\<forall>k<length (rs @ [r]). is_record (?base + word_of_nat k) ((rs @ [r]) ! k)"
    using s r by (auto simp: seg_repr_def nth_append less_Suc_eq)
  with s idx len off e show ?thesis
    by (simp add: seg_repr_def Segment_Write_def entries_of_snoc)
qed

subsection \<open>Scanning\<close>

lemma concat_take_drop:
  "k < length rs \<Longrightarrow> drop (length (concat (take k rs))) (concat rs) = rs ! k @ concat (drop (Suc k) rs)"
proof -
  assume k: "k < length rs"
  have "concat rs = concat (take k rs) @ concat (drop k rs)"
    by (metis append_take_drop_id concat_append)
  also have "drop k rs = rs ! k # drop (Suc k) rs" using k by (simp add: Cons_nth_drop_Suc)
  finally show ?thesis by simp
qed

lemma record_pos_le: "length (concat (take k rs)) \<le> length (concat rs)"
  by (metis append_take_drop_id concat_append le_add1 length_append)

lemma nth_le_concat: "k < length rs \<Longrightarrow> length (rs ! k) \<le> length (concat rs)"
  using concat_take_drop [of k rs] by (metis le_add1 le_trans length_append length_drop diff_le_self)

lemma SegmentScan_record:
  assumes s: "seg_repr s rs" and k: "k < length rs"
    and nz: "k \<noteq> 0 \<longrightarrow> seg_BaseOffset s + word_of_nat k \<noteq> 0"
  shows "SegmentScan s k = Ok (rs ! k)"
proof -
  let ?r = "rs ! k" and ?p = "length (concat (take k rs))"
  have r: "is_record (seg_BaseOffset s + word_of_nat k) ?r" using s k by (simp add: seg_repr_def)
  have e: "IndexScan (seg_Index s) k = Ok (entry_at (seg_BaseOffset s) rs k)"
    using s k nz index_repr_read [of "seg_Index s" "entries_of (seg_BaseOffset s) rs" k]
    by (auto simp: IndexScan_def seg_repr_def entries_of_nth entry_at_def)
  have tot: "length (concat rs) \<le> 2147483647" using s by (simp add: seg_repr_def)
  have pos: "nat (sint (word_of_nat ?p :: int64)) = ?p"
    using sint_plus_nat [of 0 ?p] record_pos_le [of k rs] tot by simp
  have split: "drop ?p (seg_log s) = ?r @ concat (drop (Suc k) rs)"
    using s k by (simp add: seg_repr_def concat_take_drop)
  have open': "\<not> seg_closed s" using s by (simp add: seg_repr_def)
  have len: "12 \<le> length ?r" "length ?r \<le> 2147483647"
    using r nth_le_concat [OF k] tot by (auto simp: is_record_def)
  have header: "Segment_ReadAt msgSetHeaderLen ?p s = (take 12 ?r, None)"
    using open' split len by (simp add: Segment_ReadAt_def msgSetHeaderLen_def)
  have "Uint32 (drop 8 (take 12 ?r)) = Uint32 (drop 8 ?r)"
    using len by (simp add: drop_take Uint32_def)
  then have "MessageSet_Size (take 12 ?r) = Some (word_of_nat (length ?r - 12) + 12)"
    using r len by (simp add: MessageSet_Size_def is_record_def)
  then have "the (MessageSet_Size (take 12 ?r)) - 12 = word_of_nat (length ?r - 12)"
    by (simp only: option.sel add_diff_cancel)
  then have sz: "sint (the (MessageSet_Size (take 12 ?r)) - 12) = int (length ?r - 12)"
    by (simp only:) (rule sint_word_of_nat_32, use len in simp)
  have "drop (?p + 12) (seg_log s) = drop 12 (drop ?p (seg_log s))" by (simp add: add.commute)
  also have "\<dots> = drop 12 ?r @ concat (drop (Suc k) rs)" unfolding split using len by simp
  finally have "drop (?p + 12) (seg_log s) = drop 12 ?r @ concat (drop (Suc k) rs)" .
  then have payload: "Segment_ReadAt (length ?r - 12) (?p + msgSetHeaderLen) s = (drop 12 ?r, None)"
    using open' len by (simp add: Segment_ReadAt_def msgSetHeaderLen_def)
  show ?thesis
    using e pos header sz payload by (simp add: SegmentScan_def Let_def entry_at_def)
qed

subsection \<open>findEntry never goes past the offset\<close>

text \<open>
  The stale entry makes the predicate non-monotone; still, a search for an offset the segment holds
  ends on an entry at or before it.
\<close>

lemma search_not_past:
  fixes es :: "Entry list" and P :: "Entry \<Rightarrow> bool"
  defines "f \<equiv> \<lambda>h e. let e' = (if h < length es then es ! h else e) in (P e', e')"
  assumes t: "t < length es" and P: "\<forall>k<length es. t \<le> k \<longrightarrow> P (es ! k)"
    and inv: "i \<le> t \<and> (P e \<or> (\<exists>k<length es. e = es ! k)) \<or> length es < i \<and> (\<exists>k<t. e = es ! k)"
    and ij: "i \<le> j"
  shows "case search_st f i j e of (r, e') \<Rightarrow>
     r \<le> j \<and> (r \<le> t \<or> length es < r \<and> (\<exists>k<t. e' = es ! k))"
  using inv ij
proof (induction "j - i" arbitrary: i j e rule: less_induct)
  case less
  let ?h = "(i + j) div 2"
  define e1 where "e1 = (if ?h < length es then es ! ?h else e)"
  show ?case
  proof (cases "i < j")
    case True
    then have h: "i \<le> ?h" "?h < j" by auto
    have step: "search_st f i j e = (if P e1 then search_st f i ?h e1 else search_st f (?h + 1) j e1)"
      using True search_st_left [of i j f e e1] search_st_right [of i j f e e1]
      by (simp add: f_def Let_def e1_def)
    show ?thesis
    proof (cases "P e1")
      case P1: True
      have "i \<le> t \<and> (P e1 \<or> (\<exists>k<length es. e1 = es ! k)) \<or> length es < i \<and> (\<exists>k<t. e1 = es ! k)"
        using less.prems(1) P1 h by (auto simp: e1_def)
      then have "case search_st f i ?h e1 of (r, e') \<Rightarrow>
          r \<le> ?h \<and> (r \<le> t \<or> length es < r \<and> (\<exists>k<t. e' = es ! k))"
        using less.hyps [of ?h i e1] h by simp
      with P1 step h show ?thesis by (cases "search_st f i ?h e1") auto
    next
      case F: False
      have "?h + 1 \<le> t \<and> (P e1 \<or> (\<exists>k<length es. e1 = es ! k)) \<or>
            length es < ?h + 1 \<and> (\<exists>k<t. e1 = es ! k)"
      proof (cases "?h < length es")
        case True
        with F P have "?h < t" by (auto simp: e1_def not_le [symmetric])
        with True show ?thesis by (auto simp: e1_def)
      next
        case False
        then have "e1 = e" by (simp add: e1_def)
        with F less.prems(1) t have "\<exists>k<length es. e = es ! k" by (metis less_trans)
        then obtain k where k: "k < length es" "e = es ! k" by blast
        with F \<open>e1 = e\<close> P have "k < t" by (meson not_le)
        with False k \<open>e1 = e\<close> show ?thesis by auto
      qed
      then have "case search_st f (?h + 1) j e1 of (r, e') \<Rightarrow>
          r \<le> j \<and> (r \<le> t \<or> length es < r \<and> (\<exists>k<t. e' = es ! k))"
        using less.hyps [of j "?h + 1" e1] h by simp
      with F step show ?thesis by simp
    qed
  next
    case False
    with less.prems show ?thesis by (auto simp: search_st_stop)
  qed
qed

lemma findEntry_not_past:
  assumes s: "seg_repr s rs" and t: "t < length rs"
    and cap: "2 * length rs \<le> idx_bytes (seg_Index s) div 8"
  shows "\<exists>k\<le>t. findEntry (seg_BaseOffset s + word_of_nat t) s = Ok (entry_at (seg_BaseOffset s) rs k)"
proof -
  let ?base = "seg_BaseOffset s" and ?idx = "seg_Index s"
  let ?es = "entries_of ?base rs" and ?off = "seg_BaseOffset s + word_of_nat t"
  let ?n = "idx_bytes ?idx div 8" and ?z = "\<lparr>e_Offset = 0, e_Position = 0\<rparr> :: Entry"
  let ?f = "\<lambda>h e. let e' = (if h < length ?es then ?es ! h else e) in (entry_reached ?off e', e')"
  have idx: "index_repr ?idx ?es" using s by (simp add: seg_repr_def)
  have probe: "probe_entry ?idx h e = (if h < length ?es then ?es ! h else e)" for h e
    using index.probe [OF idx, where h = h and e = e] by (simp add: probe_entry_def ReadEntryAtLogOffset_def)
  have mono: "\<forall>k<length ?es. t \<le> k \<longrightarrow> entry_reached ?off (?es ! k)"
    using s t sint_plus_nat [of ?base] by (auto simp: entry_reached_def seg_repr_def entries_of_nth entry_at_def)
  have z: "entry_reached ?off ?z" by (simp add: entry_reached_def)
  have n: "0 < ?n" "length ?es \<le> ?n div 2" using cap t by auto
  have first: "search_st ?f 0 ?n ?z = search_st ?f 0 (?n div 2) ?z"
    using n z by (subst search_st_left [where s' = ?z]) (simp_all add: Let_def)
  obtain r e where re: "search_st ?f 0 ?n ?z = (r, e)" by fastforce
  from search_not_past [of t ?es "entry_reached ?off" 0 ?z "?n div 2"] t mono z first re
  have r: "r \<le> ?n div 2" "r \<le> t \<or> length ?es < r \<and> (\<exists>k<t. e = ?es ! k)"
    by (auto simp: Let_def)
  have "findEntry ?off s = Ok (if r < length ?es then ?es ! r else e)"
    using re r(1) n(1) by (simp add: findEntry_def probe entryWidth_def)
  moreover have "\<exists>k\<le>t. (if r < length ?es then ?es ! r else e) = entry_at ?base rs k"
  proof (cases "r \<le> t")
    case True
    with t show ?thesis by (intro exI [of _ r]) (simp add: entries_of_nth)
  next
    case False
    with r(2) obtain k where "k < t" "e = ?es ! k" "length ?es < r" by blast
    with t show ?thesis by (intro exI [of _ k]) (simp add: entries_of_nth)
  qed
  ultimately show ?thesis by simp
qed

subsection \<open>Rebuilding the index\<close>

lemma record_size:
  assumes "is_record base r" and "length r \<le> 2147483647"
  shows "unat (Uint32 (drop 8 r)) = length r - 12"
proof -
  have "Uint32 (drop 8 r) = word_of_nat (length r - 12)" using assms(1) by (simp add: is_record_def)
  then show ?thesis by (simp only:) (rule unat_word_of_nat_32, use assms(2) in simp)
qed

text \<open>A file with one record is indexed correctly: the second seek ends the loop.\<close>

lemma build_loop_one:
  assumes "is_record base r" and "length r \<le> 2147483647" and "0 < index_room idx"
    and "index_repr idx []" and "idx_baseOffset idx = base"
  shows "\<exists>idx'. build_loop r 0 base 0 idx = Ok (idx', base + 1, word_of_nat (length r)) \<and>
     index_repr idx' (entries_of base [r])"
proof -
  let ?sz = "length r - 12" and ?e = "\<lparr>e_Offset = base, e_Position = 0\<rparr> :: Entry"
  have sz: "unat (Uint32 (drop 8 r)) = ?sz"
    using assms(1,2) by (rule record_size)
  have len: "12 \<le> length r" using assms(1) by (simp add: is_record_def)
  have "entry_fits base ?e" using entry_fitsI [of 0 0 base] by simp
  then obtain idx' where idx': "WriteEntry ?e idx = Ok idx'" "index_repr idx' [?e]"
    using index_repr_write [OF assms(4), of ?e] assms(3,5) by auto
  have "build_loop r (12 + ?sz + ?sz) (base + 1) (word_of_nat (?sz + 12)) idx'
      = Ok (idx', base + 1, word_of_nat (?sz + 12))"
  proof -
    have "length r < 12 + ?sz + ?sz + 12" using len by linarith
    then show ?thesis by (subst build_loop.simps) (simp only: if_True)
  qed
  moreover have "?sz + 12 = length r" using len by simp
  ultimately have "build_loop r 0 base 0 idx = Ok (idx', base + 1, word_of_nat (length r))"
    using sz len idx'(1) by (subst build_loop.simps) (simp add: Let_def)
  with idx' show ?thesis by (simp add: entries_of_def entry_at_def)
qed

text \<open>
  Two records of the same length: after the first the handle stands twelve bytes before the end of
  the file, so the last twelve bytes of the second record are taken for a header.  Unless their
  last four bytes are zero the loop stops there, with one entry.
\<close>

lemma build_loop_two:
  assumes r: "is_record base r" and "length q = length r" and "2 * length r \<le> 2147483647"
    and q: "Uint32 (drop (length q - 4) q) \<noteq> 0" and "12 < length r" and "0 < index_room idx"
    and idx: "index_repr idx []" and base: "idx_baseOffset idx = base"
  shows "\<exists>idx'. build_loop (r @ q) 0 base 0 idx = Ok (idx', base + 1, word_of_nat (length r)) \<and>
     index_repr idx' (entries_of base [r])"
proof -
  let ?sz = "length r - 12" and ?e = "\<lparr>e_Offset = base, e_Position = 0\<rparr> :: Entry"
  have "Uint32 (drop 8 (r @ q)) = Uint32 (drop 8 r)"
    using assms(5) by (simp add: Uint32_def)
  then have sz: "unat (Uint32 (drop 8 (r @ q))) = ?sz"
    using record_size [OF r] assms(3) by simp
  have "entry_fits base ?e" using entry_fitsI [of 0 0 base] by simp
  then obtain idx' where idx': "WriteEntry ?e idx = Ok idx'" "index_repr idx' [?e]"
    using index_repr_write [OF idx, of ?e] assms(6) base by auto
  let ?f = "12 + ?sz + ?sz"
  have "drop (?f + 8) (r @ q) = drop (length q - 4) q"
    using assms(2,5) by simp
  moreover have "0 < unat (Uint32 (drop (length q - 4) q))"
    using q by (simp add: unat_gt_0)
  ultimately have "build_loop (r @ q) ?f (base + 1) (word_of_nat (?sz + 12)) idx'
      = Ok (idx', base + 1, word_of_nat (?sz + 12))"
    using assms(2,5) by (subst build_loop.simps) (simp add: Let_def)
  moreover have "?sz + 12 = length r" using assms(5) by simp
  ultimately have "build_loop (r @ q) 0 base 0 idx = Ok (idx', base + 1, word_of_nat (length r))"
    using sz assms(5) idx'(1) by (subst build_loop.simps) (simp add: Let_def)
  with idx' show ?thesis by (simp add: entries_of_def entry_at_def)
qed

section \<open>The names of the files\<close>

text \<open>\<^verbatim>\<open>strconv.Atoi\<close> on a 64-bit platform.\<close>

definition digit_of :: "char \<Rightarrow> nat option" where
  "digit_of c = (let n = of_char c in if 48 \<le> n \<and> n \<le> 57 then Some (n - 48) else None)"

fun read_digits :: "nat \<Rightarrow> string \<Rightarrow> nat option" where
  "read_digits acc [] = Some acc"
| "read_digits acc (c # cs) =
     (case digit_of c of None \<Rightarrow> None | Some d \<Rightarrow> read_digits (10 * acc + d) cs)"

definition Atoi :: "string \<Rightarrow> int option" where
  "Atoi s =
     (let (neg, ds) = (case s of CHR ''-'' # ds \<Rightarrow> (True, ds) | CHR ''+'' # ds \<Rightarrow> (False, ds) | _ \<Rightarrow> (False, s)) in
      if ds = [] then None
      else case read_digits 0 ds of None \<Rightarrow> None
        | Some n \<Rightarrow> let k = (if neg then - int n else int n) in
            if - (2 ^ 63) \<le> k \<and> k < 2 ^ 63 then Some k else None)"

lemma digit_of_char [simp]: "d < 10 \<Longrightarrow> digit_of (char_of (48 + d)) = Some d"
  by (simp add: digit_of_def of_char_of)

lemma read_digits_append:
  "read_digits acc (s @ t) = Option.bind (read_digits acc s) (\<lambda>n. read_digits n t)"
  by (induction acc s rule: read_digits.induct) (auto split: option.splits)

lemma read_digits_zeros [simp]: "read_digits 0 (replicate k CHR ''0'' @ s) = read_digits 0 s"
  by (induction k) (auto simp: digit_of_def)

lemma read_digits_digits [simp]: "read_digits 0 (digits n) = Some n"
proof (induction n rule: digits.induct)
  case (1 n)
  show ?case
  proof (cases "n < 10")
    case True
    then show ?thesis by (subst digits.simps) simp
  next
    case False
    with 1 have "read_digits 0 (digits (n div 10)) = Some (n div 10)" by simp
    with False show ?thesis by (subst digits.simps) (simp add: read_digits_append)
  qed
qed

lemma digits_Cons: "\<exists>d<10::nat. \<exists>cs. digits n = char_of (48 + d) # cs"
proof (induction n rule: digits.induct)
  case (1 n)
  show ?case
  proof (cases "n < 10")
    case True
    then show ?thesis by (subst digits.simps) auto
  next
    case False
    with 1 show ?thesis by (subst digits.simps) auto
  qed
qed

lemma pad_not_sign:
  obtains c cs where "pad_zeros w (digits n) = c # cs" "c \<noteq> CHR ''-''" "c \<noteq> CHR ''+''"
proof -
  obtain d :: nat and cs where d: "d < 10" "digits n = char_of (48 + d) # cs" using digits_Cons by blast
  have "char_of (48 + d) \<noteq> CHR ''-'' \<and> char_of (48 + d) \<noteq> CHR ''+''"
  proof -
    have "digit_of CHR ''-'' = None" "digit_of CHR ''+'' = None" by (simp_all add: digit_of_def)
    with digit_of_char [OF d(1)] show ?thesis by (metis option.distinct(1))
  qed
  with d that show thesis
    by (cases "w - length (digits n)") (auto simp: pad_zeros_def)
qed

lemma Atoi_fmt020:
  assumes "0 \<le> n" and "n < 2 ^ 63"
  shows "Atoi (fmt020 n) = Some n"
proof -
  obtain c cs where c: "pad_zeros 20 (digits (nat n)) = c # cs" "c \<noteq> CHR ''-''" "c \<noteq> CHR ''+''"
    by (rule pad_not_sign)
  have "read_digits 0 (pad_zeros 20 (digits (nat n))) = Some (nat n)" by (simp add: pad_zeros_def)
  moreover have "(case c # cs of CHR ''-'' # ds \<Rightarrow> (True, ds) | CHR ''+'' # ds \<Rightarrow> (False, ds)
      | _ \<Rightarrow> (False, c # cs)) = (False, c # cs)"
    using c(2,3) by (auto split: char.splits bool.splits)
  ultimately show ?thesis
    using assms c by (simp add: Atoi_def fmt020_def Let_def)
qed

end
