(* ===== verification/Commit_Log.thy ===== *)
theory Commit_Log
  imports Log_Segment
begin

text \<open>
  \<^verbatim>\<open>commitlog/commitlog.go\<close>, \<^verbatim>\<open>util.go\<close>, \<^verbatim>\<open>reader.go\<close>, \<^verbatim>\<open>delete_cleaner.go\<close> and
  \<^verbatim>\<open>compact_cleaner.go\<close>: a log as a list of segments with an active one, its cleaners and its readers.

  A segment is a pointer in the source, and the active segment is normally the last of the list; a
  cleaner or \<^verbatim>\<open>Truncate\<close> may leave it pointing to a segment that is no longer in the list.  So the
  active segment is \<open>Inl i\<close>, the object at index \<open>i\<close>, or \<open>Inr s\<close>, an object of its own.  Every
  segment has its own file, which holds as long as \<^verbatim>\<open>MaxSegmentBytes\<close> is positive.
\<close>

section \<open>Cleaners\<close>

datatype Cleaner = DeleteCleaner int64 | CompactCleaner "uint64 \<Rightarrow> int64"

text \<open>
  \<open>retain_back b tot older\<close>: how many of the \<open>older\<close> segments, newest first, the loop of the delete
  cleaner keeps once \<open>tot\<close> bytes are accounted for.
\<close>

fun retain_back :: "int64 \<Rightarrow> int64 \<Rightarrow> Segment list \<Rightarrow> nat" where
  "retain_back b tot [] = 0"
| "retain_back b tot (s # ss) =
     (let tot' = tot + seg_Position s in if sint b < sint tot' then 0 else Suc (retain_back b tot' ss))"

fun delete_all :: "Segment list \<Rightarrow> (log_error, unit) outcome" where
  "delete_all [] = Ok ()"
| "delete_all (s # ss) = bind_outcome (Segment_Delete s) (\<lambda>_. delete_all ss)"

definition DeleteCleaner_Clean :: "int64 \<Rightarrow> Segment list \<Rightarrow> (log_error, Segment list) outcome" where
  "DeleteCleaner_Clean retention segments =
     (if segments = [] \<or> retention = -1 then Ok segments
      else let older = rev (butlast segments);
               k = retain_back retention (seg_Position (last segments)) older in
        bind_outcome (delete_all (drop k older)) (\<lambda>_. Ok (rev (take k older) @ [last segments])))"

text \<open>The message sets a segment scanner returns until its first error.\<close>

lemma SegmentScan_in_index: "SegmentScan s k = Ok ms \<Longrightarrow> 8 * k < idx_position (seg_Index s)"
  by (auto simp: SegmentScan_def IndexScan_def ReadEntryAtLogOffset_def ReadEntryAtFileOffset_def
      Index_ReadAt_def entryWidth_def split: if_splits)

function scan_all :: "Segment \<Rightarrow> nat \<Rightarrow> (log_error, bytes list) outcome" where
  "scan_all s k =
     (case SegmentScan s k of
        Ok ms \<Rightarrow> bind_outcome (scan_all s (Suc k)) (\<lambda>mss. Ok (ms # mss))
      | Err _ \<Rightarrow> Ok []
      | Panic \<Rightarrow> Panic)"
  by pat_completeness auto
termination
proof (relation "measure (\<lambda>(s, k). idx_position (seg_Index s) - 8 * k)")
  fix s k ms
  assume "SegmentScan s k = Ok ms"
  then show "((s, Suc k), (s, k)) \<in> measure (\<lambda>(s, k). idx_position (seg_Index s) - 8 * k)"
    using SegmentScan_in_index by fastforce
qed simp

declare scan_all.simps [simp del]

text \<open>\<^const>\<open>None\<close> where \<^verbatim>\<open>Messages\<close> does not return.\<close>

definition obind :: "('e, 'a) outcome option \<Rightarrow> ('a \<Rightarrow> ('e, 'b) outcome option) \<Rightarrow> ('e, 'b) outcome option" where
  "obind m f = (case m of None \<Rightarrow> None | Some (Ok x) \<Rightarrow> f x | Some (Err e) \<Rightarrow> Some (Err e) | Some Panic \<Rightarrow> Some Panic)"

text \<open>
  \<^verbatim>\<open>Hash\<close> of the key of each message, for a hash function \<open>hash\<close> (\<^verbatim>\<open>xxhash\<close>); a nil key hashes as
  the empty one.
\<close>

fun key_hashes :: "(bytes \<Rightarrow> uint64) \<Rightarrow> bytes list \<Rightarrow> (log_error, uint64 list) outcome option" where
  "key_hashes hash [] = Some (Ok [])"
| "key_hashes hash (m # ms) =
     (case Key m of None \<Rightarrow> Some Panic
      | Some k \<Rightarrow> obind (key_hashes hash ms) (\<lambda>hs. Some (Ok (hash (case k of None \<Rightarrow> [] | Some b \<Rightarrow> b) # hs))))"

definition set_hashes :: "(bytes \<Rightarrow> uint64) \<Rightarrow> bytes \<Rightarrow> (log_error, uint64 list) outcome option" where
  "set_hashes hash ms = obind (Messages ms) (key_hashes hash)"

text \<open>First pass: the latest offset of each key.\<close>

fun note_sets :: "(bytes \<Rightarrow> uint64) \<Rightarrow> bytes list \<Rightarrow> (uint64 \<Rightarrow> int64) \<Rightarrow>
    (log_error, uint64 \<Rightarrow> int64) outcome option" where
  "note_sets hash [] m = Some (Ok m)"
| "note_sets hash (ms # mss) m =
     (case MessageSet_Offset ms of None \<Rightarrow> Some Panic
      | Some off \<Rightarrow> obind (set_hashes hash ms) (\<lambda>hs.
          note_sets hash mss (fold (\<lambda>h m. m(h := off)) hs m)))"

fun note_segments :: "(bytes \<Rightarrow> uint64) \<Rightarrow> Segment list \<Rightarrow> (uint64 \<Rightarrow> int64) \<Rightarrow>
    (log_error, uint64 \<Rightarrow> int64) outcome option" where
  "note_segments hash [] m = Some (Ok m)"
| "note_segments hash (s # ss) m =
     obind (Some (scan_all s 0)) (\<lambda>mss. obind (note_sets hash mss m) (note_segments hash ss))"

text \<open>Second pass: the sets with a message that is the latest of its key are written to a new segment.\<close>

fun copy_retained :: "(bytes \<Rightarrow> uint64) \<Rightarrow> (uint64 \<Rightarrow> int64) \<Rightarrow> bytes list \<Rightarrow> Segment \<Rightarrow>
    (log_error, Segment) outcome option" where
  "copy_retained hash m [] cs = Some (Ok cs)"
| "copy_retained hash m (ms # mss) cs =
     (case MessageSet_Offset ms of None \<Rightarrow> Some Panic
      | Some off \<Rightarrow> obind (set_hashes hash ms) (\<lambda>hs.
          if \<exists>h\<in>set hs. sint (m h) \<le> sint off
          then obind (Some (Segment_Write ms cs)) (copy_retained hash m mss)
          else copy_retained hash m mss cs))"

fun compact_segments :: "(bytes \<Rightarrow> uint64) \<Rightarrow> (uint64 \<Rightarrow> int64) \<Rightarrow> Segment list \<Rightarrow>
    (log_error, Segment list \<times> Segment list) outcome option" where
  "compact_segments hash m [] = Some (Ok ([], []))"
| "compact_segments hash m (ds # dss) =
     obind (Some (NewSegment (seg_path ds) (seg_BaseOffset ds) (seg_maxBytes ds) cleanedSuffix [] [])) (\<lambda>cs.
     obind (Some (scan_all ds 0)) (\<lambda>mss.
     obind (copy_retained hash m mss cs) (\<lambda>cs.
     obind (Some (Segment_Replace cs ds)) (\<lambda>(cs, old).
     obind (compact_segments hash m dss) (\<lambda>(css, olds). Some (Ok (cs # css, old # olds)))))))"

text \<open>The cleaned segments, the closed segments they replace, and the map for the next call.\<close>

definition CompactCleaner_Clean :: "(bytes \<Rightarrow> uint64) \<Rightarrow> (uint64 \<Rightarrow> int64) \<Rightarrow> Segment list \<Rightarrow>
    (log_error, Segment list \<times> Segment list \<times> (uint64 \<Rightarrow> int64)) outcome option" where
  "CompactCleaner_Clean hash m segments =
     (if segments = [] then Some (Ok ([], [], m))
      else obind (note_segments hash segments m) (\<lambda>m.
        obind (compact_segments hash m segments) (\<lambda>(css, olds). Some (Ok (css, olds, m)))))"

section \<open>CommitLog\<close>

record CommitLog =
  cl_Path :: string
  cl_MaxSegmentBytes :: int64
  cl_cleaner :: Cleaner
  cl_segments :: "Segment list"
  cl_active :: "nat + Segment"

definition activeSegment :: "CommitLog \<Rightarrow> Segment" where
  "activeSegment l = (case cl_active l of Inl i \<Rightarrow> cl_segments l ! i | Inr s \<Rightarrow> s)"

definition set_active :: "Segment \<Rightarrow> CommitLog \<Rightarrow> CommitLog" where
  "set_active s l =
     (case cl_active l of
        Inl i \<Rightarrow> l\<lparr>cl_segments := (cl_segments l)[i := s]\<rparr>
      | Inr _ \<Rightarrow> l\<lparr>cl_active := Inr s\<rparr>)"

definition NewestOffset :: "CommitLog \<Rightarrow> int64" where
  "NewestOffset l = seg_NextOffset (activeSegment l)"

definition OldestOffset :: "CommitLog \<Rightarrow> (log_error, int64) outcome" where
  "OldestOffset l = (case cl_segments l of [] \<Rightarrow> Panic | s # _ \<Rightarrow> Ok (seg_BaseOffset s))"

definition checkSplit :: "CommitLog \<Rightarrow> bool" where
  "checkSplit l = IsFull (activeSegment l)"

text \<open>
  With the compact cleaner the list holds new objects, and the active segment is the one just made,
  which the cleaner has closed and replaced.
\<close>

definition split :: "(bytes \<Rightarrow> uint64) \<Rightarrow> CommitLog \<Rightarrow> (log_error, CommitLog) outcome option" where
  "split hash l =
     obind (Some (NewSegment (cl_Path l) (NewestOffset l) (cl_MaxSegmentBytes l) [] [] [])) (\<lambda>segment.
       let segments = cl_segments l @ [segment] in
       case cl_cleaner l of
         DeleteCleaner retention \<Rightarrow>
           obind (Some (DeleteCleaner_Clean retention segments)) (\<lambda>segments.
             Some (Ok (l\<lparr>cl_segments := segments, cl_active := Inl (length segments - 1)\<rparr>)))
       | CompactCleaner m \<Rightarrow>
           obind (CompactCleaner_Clean hash m segments) (\<lambda>(segments, olds, m).
             Some (Ok (l\<lparr>cl_segments := segments, cl_active := Inr (last olds), cl_cleaner := CompactCleaner m\<rparr>))))"

definition Append :: "(bytes \<Rightarrow> uint64) \<Rightarrow> bytes \<Rightarrow> CommitLog \<Rightarrow> (log_error, int64 \<times> CommitLog) outcome option" where
  "Append hash b l =
     obind (if checkSplit l then split hash l else Some (Ok l)) (\<lambda>l.
       let position = seg_Position (activeSegment l);
           off = seg_NextOffset (activeSegment l) in
       case PutOffset off b of None \<Rightarrow> Some Panic
       | Some ms \<Rightarrow>
           obind (Some (Segment_Write ms (activeSegment l))) (\<lambda>s.
           obind (Some (WriteEntry \<lparr>e_Offset = off, e_Position = position\<rparr> (seg_Index s))) (\<lambda>idx.
           Some (Ok (off, set_active (s\<lparr>seg_Index := idx\<rparr>) l)))))"

definition CommitLog_Read :: "nat \<Rightarrow> CommitLog \<Rightarrow> (log_error, bytes \<times> CommitLog) outcome" where
  "CommitLog_Read n l =
     bind_outcome (Segment_Read n (activeSegment l)) (\<lambda>(p, s). Ok (p, set_active s l))"

fun close_all :: "Segment list \<Rightarrow> (log_error, Segment list) outcome" where
  "close_all [] = Ok []"
| "close_all (s # ss) = bind_outcome (Segment_Close s) (\<lambda>s. bind_outcome (close_all ss) (\<lambda>ss. Ok (s # ss)))"

definition CommitLog_Close :: "CommitLog \<Rightarrow> (log_error, CommitLog) outcome" where
  "CommitLog_Close l =
     bind_outcome (close_all (cl_segments l)) (\<lambda>ss. Ok (l\<lparr>cl_segments := ss\<rparr>))"

text \<open>\<^verbatim>\<open>Delete\<close> closes the log and removes its directory; the files are not part of the model.\<close>

definition CommitLog_Delete :: "CommitLog \<Rightarrow> (log_error, CommitLog) outcome" where
  "CommitLog_Delete l = CommitLog_Close l"

text \<open>
  \<^verbatim>\<open>Truncate\<close> deletes the segments whose base offset lies below \<open>off\<close> and keeps the others; the
  active segment stays the object it was.
\<close>

definition Truncate :: "int64 \<Rightarrow> CommitLog \<Rightarrow> (log_error, CommitLog) outcome" where
  "Truncate off l =
     (let below = (\<lambda>s. sint (seg_BaseOffset s) < sint off); segments = cl_segments l in
      bind_outcome (delete_all (filter below segments)) (\<lambda>_.
        Ok (l\<lparr>cl_segments := filter (\<lambda>s. \<not> below s) segments,
              cl_active := (case cl_active l of
                 Inr s \<Rightarrow> Inr s
               | Inl i \<Rightarrow> if below (segments ! i) then Inr ((segments ! i)\<lparr>seg_closed := True\<rparr>)
                          else Inl (length (filter (\<lambda>s. \<not> below s) (take i segments))))\<rparr>)))"

subsection \<open>Opening a log\<close>

definition HasSuffix :: "string \<Rightarrow> string \<Rightarrow> bool" where
  "HasSuffix s t \<longleftrightarrow> length t \<le> length s \<and> drop (length s - length t) s = t"

definition TrimSuffix :: "string \<Rightarrow> string \<Rightarrow> string" where
  "TrimSuffix s t = (if HasSuffix s t then take (length s - length t) s else s)"

text \<open>\<^verbatim>\<open>strings.Replace(s, old, new, 1)\<close> for a non-empty \<open>old\<close>.\<close>

fun replace_first :: "string \<Rightarrow> string \<Rightarrow> string \<Rightarrow> string" where
  "replace_first old new [] = []"
| "replace_first old new (c # cs) =
     (if take (length old) (c # cs) = old then new @ drop (length old) (c # cs)
      else c # replace_first old new cs)"

text \<open>
  \<open>open_files cwd files path max todo\<close>: the loop of \<^verbatim>\<open>open\<close> over the directory \<open>files\<close>, sorted by name.
  An index without a log is removed by its bare name, in the working directory of the process, where
  \<open>cwd\<close> says which names there are.
\<close>

fun open_files :: "(string \<Rightarrow> bool) \<Rightarrow> (string \<times> bytes) list \<Rightarrow> string \<Rightarrow> int64 \<Rightarrow> (string \<times> bytes) list \<Rightarrow>
    (log_error, Segment list) outcome" where
  "open_files cwd files path maxb [] = Ok []"
| "open_files cwd files path maxb ((name, content) # todo) =
     (if HasSuffix name ''.index'' then
        if replace_first ''.index'' ''.log'' name \<in> fst ` set files then open_files cwd files path maxb todo
        else if cwd name then open_files cwd files path maxb todo
        else Err RemoveFailed
      else if HasSuffix name ''.log'' then
        (case Atoi (TrimSuffix name ''.log'') of None \<Rightarrow> Err AtoiError
         | Some base \<Rightarrow>
             let indexFile = (case map_of files (indexName (word_of_int base) []) of None \<Rightarrow> [] | Some b \<Rightarrow> b) in
             bind_outcome (NewSegment path (word_of_int base) maxb [] content indexFile) (\<lambda>s.
             bind_outcome (open_files cwd files path maxb todo) (\<lambda>ss. Ok (s # ss))))
      else open_files cwd files path maxb todo)"

definition CommitLog_New :: "(string \<Rightarrow> bool) \<Rightarrow> (string \<times> bytes) list \<Rightarrow> string \<Rightarrow> int64 \<Rightarrow> int64 \<Rightarrow> string \<Rightarrow>
    (log_error, CommitLog) outcome" where
  "CommitLog_New cwd files path maxSegmentBytes maxLogBytes cleanupPolicy =
     (let cleaner = (if cleanupPolicy = [] \<or> cleanupPolicy = ''delete'' then DeleteCleaner maxLogBytes
                     else CompactCleaner (\<lambda>_. 0)) in
      if path = [] then Err PathEmpty
      else bind_outcome (open_files cwd files path maxSegmentBytes files) (\<lambda>segments.
        bind_outcome
          (if segments = [] then bind_outcome (NewSegment path 0 maxSegmentBytes [] [] []) (\<lambda>s. Ok [s])
           else Ok segments) (\<lambda>segments.
        Ok \<lparr>cl_Path = path, cl_MaxSegmentBytes = maxSegmentBytes, cl_cleaner = cleaner,
            cl_segments = segments, cl_active = Inl (length segments - 1)\<rparr>)))"

section \<open>Readers\<close>

definition findSegment :: "Segment list \<Rightarrow> int64 \<Rightarrow> (Segment \<times> nat) option" where
  "findSegment segments off =
     (let n = length segments;
          i = sort_Search n (\<lambda>i. sint off < sint (seg_NextOffset (segments ! i))) in
      if i = n then None else Some (segments ! i, i))"

record Reader =
  rd_idx :: nat
  rd_pos :: nat

definition NewReader :: "int64 \<Rightarrow> CommitLog \<Rightarrow> (log_error, Reader) outcome" where
  "NewReader off l =
     (case (if off = 0 then (case cl_segments l of [] \<Rightarrow> Panic | s # _ \<Rightarrow> Ok (s, 0))
            else (case findSegment (cl_segments l) off of None \<Rightarrow> Err ErrSegmentNotFound | Some r \<Rightarrow> Ok r)) of
        Panic \<Rightarrow> Panic | Err e \<Rightarrow> Err e
      | Ok (s, i) \<Rightarrow> bind_outcome (findEntry off s) (\<lambda>e. Ok \<lparr>rd_idx = i, rd_pos = nat (sint (e_Position e))\<rparr>))"

text \<open>
  The loop of \<^verbatim>\<open>Reader.Read\<close> with \<open>want\<close> bytes of the buffer still empty: the bytes it adds, the error
  it ends with, and where the reader stands.
\<close>

function read_loop :: "Segment list \<Rightarrow> nat \<Rightarrow> nat \<Rightarrow> nat \<Rightarrow> (bytes \<times> log_error option \<times> Reader)" where
  "read_loop segments i pos want =
     (case Segment_ReadAt want pos (segments ! i) of (p, err) \<Rightarrow>
        if p \<noteq> [] \<and> err = None then
          (case read_loop segments i (pos + length p) (want - length p) of (q, r) \<Rightarrow> (p @ q, r))
        else if length p = want \<or> err \<noteq> Some EOF then (p, err, \<lparr>rd_idx = i, rd_pos = pos + length p\<rparr>)
        else if length segments \<le> i + 1 then (p, Some EOF, \<lparr>rd_idx = i, rd_pos = pos + length p\<rparr>)
        else (case read_loop segments (i + 1) 0 (want - length p) of (q, r) \<Rightarrow> (p @ q, r)))"
  by pat_completeness auto
termination
proof (relation "measures [\<lambda>(ss, i, pos, want). length ss - i, \<lambda>(ss, i, pos, want). want]", goal_cases)
  case (2 segments i pos want p err)
  then have "p = take want (drop pos (seg_log (segments ! i)))"
    by (auto simp: Segment_ReadAt_def Let_def split: if_splits)
  with 2 show ?case by auto
qed auto

declare read_loop.simps [simp del]

definition Reader_Read :: "Reader \<Rightarrow> nat \<Rightarrow> CommitLog \<Rightarrow> (log_error, bytes \<times> log_error option \<times> Reader) outcome" where
  "Reader_Read r n l =
     (if length (cl_segments l) \<le> rd_idx r then Panic
      else Ok (read_loop (cl_segments l) (rd_idx r) (rd_pos r) n))"

end
