(* ===== verification/Log_Correct.thy ===== *)
theory Log_Correct
  imports Commit_Log
begin

text \<open>
  What the commit log promises.  A log stands for a sequence of records; \<open>Append\<close> adds one at the
  newest offset and the delete cleaner only removes the oldest ones; a reader for an offset the log
  holds delivers the records from some point at or before that offset to the end of the log, in
  order and without a gap.
\<close>

section \<open>The invariant\<close>

definition seg_ok :: "Segment \<Rightarrow> bytes list \<Rightarrow> bool" where
  "seg_ok s rs \<longleftrightarrow> seg_repr s rs \<and> idx_bytes (seg_Index s) = 10485760 \<and> length rs \<le> 655360 \<and>
     index_room (seg_Index s) = 1310720 - length rs"

definition chained :: "Segment list \<Rightarrow> bool" where
  "chained = successively (\<lambda>a b. seg_BaseOffset b = seg_NextOffset a)"

definition log_repr :: "CommitLog \<Rightarrow> bytes list list \<Rightarrow> bool" where
  "log_repr l rss \<longleftrightarrow> cl_segments l \<noteq> [] \<and> list_all2 seg_ok (cl_segments l) rss \<and>
     chained (cl_segments l) \<and> cl_active l = Inl (length (cl_segments l) - 1) \<and>
     (\<forall>rs\<in>set (butlast rss). rs \<noteq> []) \<and>
     (\<forall>s\<in>set (cl_segments l). seg_maxBytes s = cl_MaxSegmentBytes l)"

text \<open>Segments small enough for the index: more than the broker's 1024 bytes, less than seven megabytes.\<close>

definition log_limits :: "CommitLog \<Rightarrow> bool" where
  "log_limits l \<longleftrightarrow> 0 < sint (cl_MaxSegmentBytes l) \<and> sint (cl_MaxSegmentBytes l) \<le> 7000000"

text \<open>A message set whose size field is right, as a producer sends it.\<close>

definition valid_set :: "bytes \<Rightarrow> bool" where
  "valid_set b \<longleftrightarrow> 12 \<le> length b \<and> length b \<le> 1073741824 \<and> Uint32 (drop 8 b) = word_of_nat (length b - 12)"

lemma log_repr_lengths: "log_repr l rss \<Longrightarrow> length (cl_segments l) = length rss \<and> rss \<noteq> []"
  by (auto simp: log_repr_def dest: list_all2_lengthD)

lemma log_repr_nth:
  "log_repr l rss \<Longrightarrow> i < length rss \<Longrightarrow> seg_ok (cl_segments l ! i) (rss ! i)"
  by (auto simp: log_repr_def list_all2_conv_all_nth)

lemma active_last: "log_repr l rss \<Longrightarrow> activeSegment l = last (cl_segments l)"
  by (auto simp: log_repr_def activeSegment_def last_conv_nth)

lemma last_ok: "log_repr l rss \<Longrightarrow> seg_ok (activeSegment l) (last rss)"
proof -
  assume l: "log_repr l rss"
  then have "cl_segments l \<noteq> []" by (simp add: log_repr_def)
  with log_repr_lengths [OF l] log_repr_nth [OF l, of "length rss - 1"]
  show ?thesis by (simp add: active_last [OF l] last_conv_nth)
qed

lemma all_open: "list_all2 seg_ok ss rss \<Longrightarrow> \<forall>t\<in>set ss. \<not> seg_closed t"
  by (induction rule: list_all2_induct) (auto simp: seg_ok_def seg_repr_def)

lemma seg_next:
  assumes "seg_repr s rs"
  shows "sint (seg_NextOffset s) = sint (seg_BaseOffset s) + int (length rs)"
  using assms sint_plus_nat [of "seg_BaseOffset s" "length rs"] by (simp add: seg_repr_def)

section \<open>Append\<close>

lemma PutOffset_record:
  assumes "valid_set b"
  shows "\<exists>r. PutOffset off b = Some r \<and> is_record off r \<and> length r = length b \<and> drop 8 r = drop 8 b"
proof -
  have "12 \<le> length b" using assms by (simp add: valid_set_def)
  then have "overwrite b 0 (PutUint64 off) = PutUint64 off @ drop 8 b" by (simp add: overwrite_def)
  with assms \<open>12 \<le> length b\<close> show ?thesis
    by (simp add: PutOffset_def is_record_def valid_set_def MessageSet_Offset_def)
qed

lemma seg_position:
  assumes "seg_repr s rs"
  shows "sint (seg_Position s) = int (length (concat rs))"
  using assms sint_plus_nat [of 0 "length (concat rs)"] by (simp add: seg_repr_def)

lemma not_full_room:
  assumes "seg_repr s rs" and "\<not> IsFull s" and "sint (seg_maxBytes s) \<le> 7000000"
  shows "length (concat rs) < 7000000" and "length rs < 655360"
proof -
  show c: "length (concat rs) < 7000000"
    using assms(2,3) seg_position [OF assms(1)] by (simp add: IsFull_def)
  have "12 * length rs \<le> length (concat rs)"
    using assms(1) by (intro records_ge) (auto simp: seg_repr_def is_record_def)
  with c show "length rs < 655360" by simp
qed

text \<open>Appending to an active segment that is not full.\<close>

lemma append_active:
  assumes l: "log_repr l rss" and lim: "log_limits l" and b: "valid_set b"
    and nf: "\<not> IsFull (activeSegment l)" and off: "sint (NewestOffset l) + 1 < 2 ^ 63"
  shows "\<exists>r s idx. PutOffset (NewestOffset l) b = Some r \<and> Segment_Write r (activeSegment l) = Ok s \<and>
     WriteEntry \<lparr>e_Offset = NewestOffset l, e_Position = seg_Position (activeSegment l)\<rparr> (seg_Index s) = Ok idx \<and>
     seg_ok (s\<lparr>seg_Index := idx\<rparr>) (last rss @ [r]) \<and> is_record (NewestOffset l) r \<and> drop 8 r = drop 8 b \<and>
     seg_maxBytes s = seg_maxBytes (activeSegment l) \<and> seg_BaseOffset s = seg_BaseOffset (activeSegment l)"
proof -
  let ?s = "activeSegment l" and ?rs = "last rss"
  have ok: "seg_ok ?s ?rs" using last_ok [OF l] .
  then have s: "seg_repr ?s ?rs" by (simp add: seg_ok_def)
  have mx: "seg_maxBytes ?s = cl_MaxSegmentBytes l"
    using l by (simp add: active_last [OF l] log_repr_def)
  note room = not_full_room [OF s nf] 
  have room': "length (concat ?rs) < 7000000" "length ?rs < 655360"
    using room lim mx by (simp_all add: log_limits_def)
  obtain r where r: "PutOffset (NewestOffset l) b = Some r" "is_record (NewestOffset l) r"
      "length r = length b" "drop 8 r = drop 8 b"
    using PutOffset_record [OF b] by blast
  have "sint (seg_BaseOffset ?s) + int (length ?rs) + 1 < 2 ^ 63"
    using off seg_next [OF s] by (simp add: NewestOffset_def)
  moreover have "length (concat ?rs) + length r \<le> 2147483647"
    using room' r(3) b by (simp add: valid_set_def)
  moreover have "0 < index_room (seg_Index ?s)" using ok room' by (simp add: seg_ok_def)
  ultimately obtain s' idx where "Segment_Write r ?s = Ok s'"
      "WriteEntry \<lparr>e_Offset = seg_NextOffset ?s, e_Position = seg_Position ?s\<rparr> (seg_Index s') = Ok idx"
      "seg_repr (s'\<lparr>seg_Index := idx\<rparr>) (?rs @ [r])" "index_room idx = index_room (seg_Index ?s) - 1"
      "idx_bytes idx = idx_bytes (seg_Index ?s)" "seg_maxBytes s' = seg_maxBytes ?s"
      "seg_BaseOffset s' = seg_BaseOffset ?s"
    using seg_repr_append [OF s, of r] r(2) by (auto simp: NewestOffset_def)
  with r ok room' show ?thesis by (auto simp: seg_ok_def NewestOffset_def)
qed

lemma chained_update_last:
  assumes "chained ss" and "ss \<noteq> []" and "seg_BaseOffset s = seg_BaseOffset (last ss)"
  shows "chained (ss[length ss - 1 := s])"
proof -
  obtain as a where ss: "ss = as @ [a]" using assms(2) by (metis rev_exhaust)
  then show ?thesis using assms(1,3)
    by (auto simp: chained_def successively_append_iff list_update_append)
qed

lemma Append_not_full:
  assumes l: "log_repr l rss" and lim: "log_limits l" and b: "valid_set b"
    and nf: "\<not> IsFull (activeSegment l)" and off: "sint (NewestOffset l) + 1 < 2 ^ 63"
  shows "\<exists>l' r. Append hash b l = Some (Ok (NewestOffset l, l')) \<and> PutOffset (NewestOffset l) b = Some r \<and>
     log_repr l' (butlast rss @ [last rss @ [r]]) \<and> NewestOffset l' = NewestOffset l + 1 \<and>
     cl_MaxSegmentBytes l' = cl_MaxSegmentBytes l \<and> cl_cleaner l' = cl_cleaner l"
proof -
  obtain r s idx where a: "PutOffset (NewestOffset l) b = Some r" "Segment_Write r (activeSegment l) = Ok s"
     "WriteEntry \<lparr>e_Offset = NewestOffset l, e_Position = seg_Position (activeSegment l)\<rparr> (seg_Index s) = Ok idx"
     "seg_ok (s\<lparr>seg_Index := idx\<rparr>) (last rss @ [r])"
     "seg_maxBytes s = seg_maxBytes (activeSegment l)" "seg_BaseOffset s = seg_BaseOffset (activeSegment l)"
    using append_active [OF assms] by blast
  let ?n = "length (cl_segments l) - 1" and ?s = "s\<lparr>seg_Index := idx\<rparr>"
  let ?l = "l\<lparr>cl_segments := (cl_segments l)[?n := ?s]\<rparr>"
  have act: "cl_active l = Inl ?n" using l by (simp add: log_repr_def)
  have ap: "Append hash b l = Some (Ok (NewestOffset l, ?l))"
    using a nf act by (simp add: Append_def checkSplit_def obind_def NewestOffset_def Let_def set_active_def)
  have len: "length (cl_segments l) = length rss" "rss \<noteq> []" using log_repr_lengths [OF l] by auto
  have upd: "butlast rss @ [last rss @ [r]] = rss[?n := last rss @ [r]]"
    using len by (metis append_butlast_last_id list_update_length length_butlast)
  have "list_all2 seg_ok ((cl_segments l)[?n := ?s]) (butlast rss @ [last rss @ [r]])"
    unfolding upd using l a(4) by (intro list_all2_update_cong) (auto simp: log_repr_def)
  moreover have "chained ((cl_segments l)[?n := ?s])"
    using l a(6) by (intro chained_update_last) (auto simp: log_repr_def active_last [OF l])
  moreover have "\<forall>s\<in>set ((cl_segments l)[?n := ?s]). seg_maxBytes s = cl_MaxSegmentBytes l"
    using l a(5) set_update_subset_insert [of "cl_segments l" ?n ?s] active_last [OF l]
    by (fastforce simp: log_repr_def)
  ultimately have "log_repr ?l (butlast rss @ [last rss @ [r]])"
    using l by (simp add: log_repr_def)
  moreover have "NewestOffset ?l = NewestOffset l + 1"
    using a(2) act l by (auto simp: NewestOffset_def activeSegment_def Segment_Write_def log_repr_def split: if_splits)
  ultimately show ?thesis using ap a(1) by auto
qed

subsection \<open>Splitting\<close>

lemma delete_all_open: "\<forall>s\<in>set ss. \<not> seg_closed s \<Longrightarrow> delete_all ss = Ok ()"
  by (induction ss) (auto simp: Segment_Delete_def Segment_Close_def)

lemma retain_back_le: "retain_back b tot ss \<le> length ss"
  by (induction b tot ss rule: retain_back.induct) (auto simp: Let_def)

text \<open>The delete cleaner keeps a suffix of the list, the last segment at least.\<close>

lemma DeleteCleaner_suffix:
  assumes "segments \<noteq> []" and "\<forall>s\<in>set segments. \<not> seg_closed s"
  shows "\<exists>n<length segments. DeleteCleaner_Clean b segments = Ok (drop n segments) \<and> (b = -1 \<longrightarrow> n = 0)"
proof (cases "b = -1")
  case False
  let ?xs = "butlast segments"
  define k where "k = retain_back b (seg_Position (last segments)) (rev ?xs)"
  have k: "k \<le> length ?xs" using retain_back_le [of b _ "rev ?xs"] by (simp add: k_def)
  have "\<forall>s\<in>set (drop k (rev ?xs)). \<not> seg_closed s"
    using assms(2) by (auto dest!: in_set_dropD in_set_butlastD)
  then have "delete_all (drop k (rev ?xs)) = Ok ()" by (rule delete_all_open)
  moreover have "rev (take k (rev ?xs)) @ [last segments] = drop (length ?xs - k) segments"
  proof -
    have "rev (take k (rev ?xs)) = drop (length ?xs - k) ?xs" by (simp add: rev_take)
    moreover have "segments = ?xs @ [last segments]" using assms(1) by simp
    ultimately show ?thesis using k by (metis drop_append diff_is_0_eq diff_le_self drop0)
  qed
  ultimately have "DeleteCleaner_Clean b segments = Ok (drop (length ?xs - k) segments)"
    using False assms(1) by (simp add: DeleteCleaner_Clean_def k_def Let_def)
  moreover have "length ?xs - k < length segments" using assms(1) by (cases segments) auto
  ultimately show ?thesis using False by blast
qed (use assms in \<open>auto simp: DeleteCleaner_Clean_def\<close>)

lemma list_all2_drop: "list_all2 P xs ys \<Longrightarrow> list_all2 P (drop n xs) (drop n ys)"
  by (rule list_all2_dropI)

lemma chained_drop: "chained ss \<Longrightarrow> chained (drop n ss)"
  unfolding chained_def by (metis append_take_drop_id successively_append_iff)

lemma butlast_drop_subset: "set (butlast (drop n xs)) \<subseteq> set (butlast xs)"
  by (metis butlast_drop set_drop_subset)

lemma split_delete:
  assumes l: "log_repr l rss" and lim: "log_limits l" and full: "IsFull (activeSegment l)"
    and cl: "cl_cleaner l = DeleteCleaner b" and off: "sint (NewestOffset l) + 1 < 2 ^ 63"
  shows "\<exists>l' n. split hash l = Some (Ok l') \<and> n \<le> length rss \<and> log_repr l' (drop n rss @ [[]]) \<and>
     NewestOffset l' = NewestOffset l \<and> cl_MaxSegmentBytes l' = cl_MaxSegmentBytes l \<and>
     cl_cleaner l' = cl_cleaner l \<and> \<not> IsFull (activeSegment l') \<and> (b = -1 \<longrightarrow> n = 0)"
proof -
  let ?act = "activeSegment l"
  have act: "seg_repr ?act (last rss)" using last_ok [OF l] by (simp add: seg_ok_def)
  have base: "0 \<le> sint (NewestOffset l)"
    using seg_next [OF act] act by (simp add: NewestOffset_def seg_repr_def)
  have mx: "seg_maxBytes ?act = cl_MaxSegmentBytes l"
    using l by (simp add: active_last [OF l] log_repr_def)
  obtain s where s: "NewSegment (cl_Path l) (NewestOffset l) (cl_MaxSegmentBytes l) [] [] [] = Ok s"
      "seg_repr s []" "seg_BaseOffset s = NewestOffset l" "seg_maxBytes s = cl_MaxSegmentBytes l"
      "index_room (seg_Index s) = 1310720" "idx_bytes (seg_Index s) = 10485760"
    using NewSegment_empty [of "NewestOffset l" "cl_Path l" "cl_MaxSegmentBytes l" "[]"] base by auto
  let ?ss = "cl_segments l @ [s]"
  have all: "list_all2 seg_ok ?ss (rss @ [[]])"
    using l s by (auto simp: log_repr_def seg_ok_def intro!: list_all2_appendI)
  then have "\<forall>t\<in>set ?ss. \<not> seg_closed t"
    by (rule all_open)
  then have "\<exists>n<length ?ss. DeleteCleaner_Clean b ?ss = Ok (drop n ?ss) \<and> (b = -1 \<longrightarrow> n = 0)"
    by (intro DeleteCleaner_suffix) auto
  then obtain n where n: "n < length ?ss" "DeleteCleaner_Clean b ?ss = Ok (drop n ?ss)" "b = -1 \<longrightarrow> n = 0"
    by blast
  let ?l = "l\<lparr>cl_segments := drop n ?ss, cl_active := Inl (length (drop n ?ss) - 1)\<rparr>"
  have sp: "split hash l = Some (Ok ?l)"
    using s(1) n(2) cl by (simp add: split_def obind_def Let_def)
  have le: "n \<le> length rss" "length (cl_segments l) = length rss" using n(1) log_repr_lengths [OF l] by auto
  have dropped: "drop n ?ss = drop n (cl_segments l) @ [s]" "drop n (rss @ [[]]) = drop n rss @ [[]]"
    using le by simp_all
  have "seg_NextOffset (last (cl_segments l)) = NewestOffset l"
    by (simp add: NewestOffset_def active_last [OF l])
  then have ch: "chained ?ss"
    using l s(3) by (auto simp: log_repr_def chained_def successively_append_iff)
  have "last rss \<noteq> []"
    using full lim mx seg_position [OF act] by (auto simp: IsFull_def log_limits_def)
  then have ne: "\<forall>rs\<in>set rss. rs \<noteq> []"
  proof -
    obtain xs x where "rss = xs @ [x]" using log_repr_lengths [OF l] by (metis rev_exhaust)
    with l \<open>last rss \<noteq> []\<close> show ?thesis by (auto simp: log_repr_def)
  qed
  have lr: "log_repr ?l (drop n (rss @ [[]]))"
    unfolding log_repr_def
  proof (intro conjI)
    show "list_all2 seg_ok (cl_segments ?l) (drop n (rss @ [[]]))"
      using list_all2_drop [OF all] by simp
    show "chained (cl_segments ?l)" using chained_drop [OF ch] by simp
    show "\<forall>rs\<in>set (butlast (drop n (rss @ [[]]))). rs \<noteq> []"
      unfolding dropped using ne by (auto dest!: in_set_dropD)
    show "\<forall>s\<in>set (cl_segments ?l). seg_maxBytes s = cl_MaxSegmentBytes ?l"
      using l s(4) by (auto simp: log_repr_def dest!: in_set_dropD)
  qed (use n(1) in auto)
  have "activeSegment ?l = s"
    using active_last [OF lr] by (simp add: dropped(1) del: drop_append)
  moreover have "\<not> IsFull s"
    using seg_position [OF s(2)] lim s(4) by (simp add: IsFull_def log_limits_def)
  moreover have "seg_NextOffset s = NewestOffset l" using s(2,3) by (simp add: seg_repr_def)
  ultimately show ?thesis
    using sp n(3) le(1) lr [unfolded dropped(2)]
    by (intro exI [of _ ?l] exI [of _ n]) (simp add: NewestOffset_def)
qed

lemma Append_after_split:
  "checkSplit l \<Longrightarrow> split hash l = Some (Ok l') \<Longrightarrow> \<not> checkSplit l' \<Longrightarrow> Append hash b l = Append hash b l'"
  by (simp add: Append_def obind_def)

lemma concat_drop: "\<exists>m\<le>length (concat xss). concat (drop n xss) = drop m (concat xss)"
proof (intro exI conjI)
  let ?m = "length (concat (take n xss))"
  show "?m \<le> length (concat xss)" by (rule record_pos_le)
  have "concat xss = concat (take n xss) @ concat (drop n xss)"
    by (metis append_take_drop_id concat_append)
  then show "concat (drop n xss) = drop ?m (concat xss)" by simp
qed

lemma Append_delete:
  assumes l: "log_repr l rss" and lim: "log_limits l" and b: "valid_set b"
    and cl: "cl_cleaner l = DeleteCleaner c" and off: "sint (NewestOffset l) + 1 < 2 ^ 63"
  shows "\<exists>l' rss' r m. Append hash b l = Some (Ok (NewestOffset l, l')) \<and>
     PutOffset (NewestOffset l) b = Some r \<and> log_repr l' rss' \<and> log_limits l' \<and>
     concat rss' = drop m (concat rss) @ [r] \<and> m \<le> length (concat rss) \<and> (c = -1 \<longrightarrow> m = 0) \<and>
     NewestOffset l' = NewestOffset l + 1 \<and> cl_cleaner l' = cl_cleaner l"
proof (cases "IsFull (activeSegment l)")
  case False
  obtain l' r where "Append hash b l = Some (Ok (NewestOffset l, l'))" "PutOffset (NewestOffset l) b = Some r"
     "log_repr l' (butlast rss @ [last rss @ [r]])" "NewestOffset l' = NewestOffset l + 1"
     "cl_MaxSegmentBytes l' = cl_MaxSegmentBytes l" "cl_cleaner l' = cl_cleaner l"
    using Append_not_full [OF l lim b False off] by blast
  moreover have "concat (butlast rss @ [last rss @ [r]]) = concat rss @ [r]"
    using log_repr_lengths [OF l] by (metis append_assoc append_butlast_last_id append_Nil2
        concat.simps concat_append)
  ultimately show ?thesis
    using lim by (intro exI [of _ l'] exI [of _ "butlast rss @ [last rss @ [r]]"] exI [of _ r] exI [of _ 0])
      (simp add: log_limits_def)
next
  case True
  obtain l1 n where l1: "split hash l = Some (Ok l1)" "log_repr l1 (drop n rss @ [[]])"
     "NewestOffset l1 = NewestOffset l" "cl_MaxSegmentBytes l1 = cl_MaxSegmentBytes l"
     "cl_cleaner l1 = cl_cleaner l" "\<not> IsFull (activeSegment l1)" "c = -1 \<longrightarrow> n = 0"
    using split_delete [OF l lim True cl off] by blast
  have lim1: "log_limits l1" using lim l1(4) by (simp add: log_limits_def)
  have off1: "sint (NewestOffset l1) + 1 < 2 ^ 63" using off l1(3) by simp
  obtain l' r where l': "Append hash b l1 = Some (Ok (NewestOffset l1, l'))" "PutOffset (NewestOffset l1) b = Some r"
     "log_repr l' (butlast (drop n rss @ [[]]) @ [last (drop n rss @ [[]]) @ [r]])"
     "NewestOffset l' = NewestOffset l1 + 1" "cl_MaxSegmentBytes l' = cl_MaxSegmentBytes l1"
     "cl_cleaner l' = cl_cleaner l1"
    using Append_not_full [OF l1(2) lim1 b l1(6) off1] by blast
  obtain m where m: "m \<le> length (concat rss)" "concat (drop n rss) = drop m (concat rss)" "n = 0 \<longrightarrow> m = 0"
    using concat_drop [of rss n] by (cases "n = 0") auto
  have "Append hash b l = Append hash b l1"
    using True l1(1,6) by (intro Append_after_split) (simp_all add: checkSplit_def)
  moreover have "concat (butlast (drop n rss @ [[]]) @ [last (drop n rss @ [[]]) @ [r]]) = drop m (concat rss) @ [r]"
    using m(2) by simp
  ultimately show ?thesis
    using l' l1 lim1 m
    by (intro exI [of _ l'] exI [of _ "butlast (drop n rss @ [[]]) @ [last (drop n rss @ [[]]) @ [r]]"]
        exI [of _ r] exI [of _ m]) (simp add: log_limits_def)
qed

section \<open>Reading\<close>

definition stream :: "Segment list \<Rightarrow> nat \<Rightarrow> nat \<Rightarrow> bytes" where
  "stream segments i pos = drop pos (seg_log (segments ! i)) @ concat (map seg_log (drop (Suc i) segments))"

lemma stream_next:
  "Suc i < length segments \<Longrightarrow> stream segments i pos = drop pos (seg_log (segments ! i)) @ stream segments (Suc i) 0"
  by (simp add: stream_def Cons_nth_drop_Suc [symmetric])

text \<open>
  \<^verbatim>\<open>Reader.Read\<close> fills the buffer from the stream, across segments, reports the end of it, and goes on
  from there the next time.
\<close>

lemma read_loop_stream:
  assumes "\<forall>s\<in>set segments. \<not> seg_closed s" and "i < length segments"
  shows "\<exists>rd. read_loop segments i pos want =
     (take want (stream segments i pos), (if length (stream segments i pos) < want then Some EOF else None), rd) \<and>
     rd_idx rd < length segments \<and>
     stream segments (rd_idx rd) (rd_pos rd) = drop want (stream segments i pos)"
  using assms
proof (induction segments i pos want rule: read_loop.induct)
  case (1 segments i pos want)
  let ?s = "segments ! i"
  let ?d = "drop pos (seg_log ?s)"
  let ?p = "take want ?d"
  have ra: "Segment_ReadAt want pos ?s = (?p, if length ?p < want then Some EOF else None)"
    using "1.prems" by (simp add: Segment_ReadAt_def Let_def)
  consider (zero) "want = 0" | (filled) "0 < want" "want \<le> length ?d"
    | (last) "length ?d < want" "length segments \<le> i + 1" | (more) "length ?d < want" "\<not> length segments \<le> i + 1"
    by linarith
  then show ?case
  proof cases
    case zero
    with ra "1.prems" show ?thesis by (subst read_loop.simps) auto
  next
    case filled
    then have p: "length ?p = want" "?p \<noteq> []" by (auto simp: min_def)
    have ra': "Segment_ReadAt want pos ?s = (?p, None)" using ra p(1) by simp
    have rec: "read_loop segments i pos want =
        (case read_loop segments i (pos + want) 0 of (q, r) \<Rightarrow> (?p @ q, r))"
      using filled by (subst read_loop.simps) (auto simp: ra' p simp del: length_take)
    obtain rd where "read_loop segments i (pos + want) 0 = ([], None, rd)" "rd_idx rd < length segments"
        "stream segments (rd_idx rd) (rd_pos rd) = stream segments i (pos + want)"
      using "1.IH"(1) [OF ra' [symmetric]] "1.prems" p by (auto simp del: length_take)
    moreover have "take want (stream segments i pos) = ?p" "\<not> length (stream segments i pos) < want"
        "stream segments i (pos + want) = drop want (stream segments i pos)"
      using filled by (simp_all add: stream_def add.commute)
    ultimately show ?thesis using rec by auto
  next
    case last
    then have "stream segments i pos = ?d" "stream segments i (pos + length ?d) = []" by (simp_all add: stream_def)
    with last ra "1.prems" show ?thesis by (subst read_loop.simps) auto
  next
    case more
    then have p: "?p = ?d" by simp
    have ra': "Segment_ReadAt want pos ?s = (?d, Some EOF)" using ra more(1) p by simp
    have rec: "read_loop segments i pos want =
        (case read_loop segments (i + 1) 0 (want - length ?d) of (q, r) \<Rightarrow> (?d @ q, r))"
      using more by (subst read_loop.simps) (simp add: ra' del: length_drop)
    obtain rd where "read_loop segments (i + 1) 0 (want - length ?d) =
        (take (want - length ?d) (stream segments (i + 1) 0),
         if length (stream segments (i + 1) 0) < want - length ?d then Some EOF else None, rd)"
        "rd_idx rd < length segments"
        "stream segments (rd_idx rd) (rd_pos rd) = drop (want - length ?d) (stream segments (i + 1) 0)"
      using "1.IH"(2) [OF ra' [symmetric]] more "1.prems" by (auto simp del: length_drop)
    moreover have "stream segments i pos = ?d @ stream segments (i + 1) 0"
      using more by (simp add: stream_next)
    moreover have "length (seg_log ?s) \<le> want + pos" using more(1) by simp
    ultimately show ?thesis using rec more(1) by (auto simp del: length_drop)
  qed
qed

subsection \<open>Where a reader starts\<close>

abbreviation cum :: "bytes list list \<Rightarrow> nat \<Rightarrow> nat" where
  "cum rss i \<equiv> length (concat (take i rss))"

lemma cum_Suc: "i < length rss \<Longrightarrow> cum rss (Suc i) = cum rss i + length (rss ! i)"
  by (simp add: take_Suc_conv_app_nth)

lemma chained_nth: "chained ss \<Longrightarrow> Suc i < length ss \<Longrightarrow> seg_BaseOffset (ss ! Suc i) = seg_NextOffset (ss ! i)"
  by (simp add: chained_def successively_conv_nth)

lemma segment_base:
  assumes l: "log_repr l rss" and "i < length rss"
  shows "seg_BaseOffset (cl_segments l ! i) = seg_BaseOffset (cl_segments l ! 0) + word_of_nat (cum rss i) \<and>
     sint (seg_BaseOffset (cl_segments l ! i)) = sint (seg_BaseOffset (cl_segments l ! 0)) + int (cum rss i)"
  using assms(2)
proof (induction i)
  case (Suc i)
  have s: "seg_repr (cl_segments l ! i) (rss ! i)"
    using log_repr_nth [OF l, of i] Suc.prems by (simp add: seg_ok_def)
  have "seg_BaseOffset (cl_segments l ! Suc i) = seg_NextOffset (cl_segments l ! i)"
    using l Suc.prems log_repr_lengths [OF l] by (intro chained_nth) (auto simp: log_repr_def)
  moreover from Suc.IH [OF Suc_lessD [OF Suc.prems]] have e1: "seg_BaseOffset (cl_segments l ! i) =
      seg_BaseOffset (cl_segments l ! 0) + word_of_nat (cum rss i)"
    and e2: "sint (seg_BaseOffset (cl_segments l ! i)) =
      sint (seg_BaseOffset (cl_segments l ! 0)) + int (cum rss i)" by blast+
  moreover have "seg_NextOffset (cl_segments l ! i) = seg_BaseOffset (cl_segments l ! i) + word_of_nat (length (rss ! i))"
    using s by (simp add: seg_repr_def)
  ultimately show ?case
    using seg_next [OF s] e2 Suc.prems by (simp only: cum_Suc Suc_lessD) simp
qed simp

lemma concat_map_concat: "concat (map concat xsss) = concat (concat xsss)"
  by (induction xsss) auto

lemma stream_records:
  assumes l: "log_repr l rss" and i: "i < length rss" and k: "k \<le> length (rss ! i)"
  shows "stream (cl_segments l) i (length (concat (take k (rss ! i)))) = concat (drop (cum rss i + k) (concat rss))"
proof -
  have len: "length (cl_segments l) = length rss" using log_repr_lengths [OF l] by simp
  have logs: "seg_log (cl_segments l ! j) = concat (rss ! j)" if "j < length rss" for j
    using log_repr_nth [OF l that] by (simp add: seg_ok_def seg_repr_def)
  then have "map seg_log (drop (Suc i) (cl_segments l)) = map concat (drop (Suc i) rss)"
    using len by (intro nth_equalityI) auto
  then have "stream (cl_segments l) i (length (concat (take k (rss ! i))))
      = drop (length (concat (take k (rss ! i)))) (concat (rss ! i)) @ concat (map concat (drop (Suc i) rss))"
    by (simp add: stream_def logs [OF i])
  also have "drop (length (concat (take k (rss ! i)))) (concat (rss ! i)) = concat (drop k (rss ! i))"
  proof -
    have "concat (rss ! i) = concat (take k (rss ! i)) @ concat (drop k (rss ! i))"
      by (metis append_take_drop_id concat_append)
    then show ?thesis by simp
  qed
  also have "concat (drop k (rss ! i)) @ concat (map concat (drop (Suc i) rss))
      = concat (drop k (rss ! i) @ concat (drop (Suc i) rss))"
    by (simp add: concat_map_concat)
  also have "drop k (rss ! i) @ concat (drop (Suc i) rss) = drop (cum rss i + k) (concat rss)"
  proof -
    have "concat rss = concat (take i rss) @ rss ! i @ concat (drop (Suc i) rss)"
      using i by (metis append_take_drop_id concat.simps(2) concat_append Cons_nth_drop_Suc)
    then show ?thesis using k by simp
  qed
  finally show ?thesis .
qed

lemma segment_of_offset:
  assumes l: "log_repr l rss" and t: "t < length (concat rss)"
    and off: "off = seg_BaseOffset (cl_segments l ! 0) + word_of_nat t"
  shows "\<exists>i<length rss. cum rss i \<le> t \<and> t < cum rss (Suc i) \<and>
     (if off = 0 then i = 0 else findSegment (cl_segments l) off = Some (cl_segments l ! i, i))"
proof -
  let ?ss = "cl_segments l"
  let ?n = "length rss" and ?b = "sint (seg_BaseOffset (cl_segments l ! 0))"
  have len: "length ?ss = ?n" "rss \<noteq> []" using log_repr_lengths [OF l] by auto
  have repr: "seg_repr (?ss ! i) (rss ! i)" if "i < ?n" for i
    using log_repr_nth [OF l that] by (simp add: seg_ok_def)
  have next': "sint (seg_NextOffset (?ss ! i)) = ?b + int (cum rss (Suc i))" if "i < ?n" for i
    using conjunct2 [OF segment_base [OF l that]] seg_next [OF repr [OF that]] that by (simp add: cum_Suc)
  have b0: "0 \<le> ?b" using repr [of 0] len by (simp add: seg_repr_def)
  have top: "?b + int (length (concat rss)) < 2 ^ 63"
    using next' [of "?n - 1"] seg_next [OF repr, of "?n - 1"] repr [of "?n - 1"] len
    by (simp add: seg_repr_def)
  have so: "sint off = ?b + int t"
    unfolding off using b0 top t by (intro sint_plus_nat) auto
  let ?f = "\<lambda>i. sint off < sint (seg_NextOffset (?ss ! i))"
  have f: "?f i \<longleftrightarrow> t < cum rss (Suc i)" if "i < ?n" for i using next' [OF that] so by simp
  have mono: "cum rss a \<le> cum rss b" if "a \<le> b" for a b
    using that record_pos_le [of a "take b rss"] by (simp add: min_def)
  define i where "i = sort_Search ?n ?f"
  have least: "i \<le> ?n" "\<And>k. k < i \<Longrightarrow> \<not> ?f k" "i < ?n \<Longrightarrow> ?f i"
  proof -
    have up: "?f b" if "a \<le> b" "b < ?n" "?f a" for a b
      using that f [of a] f [of b] mono [of "Suc a" "Suc b"] by simp
    show "i \<le> ?n" "\<And>k. k < i \<Longrightarrow> \<not> ?f k" "i < ?n \<Longrightarrow> ?f i"
      unfolding i_def by (rule sort_Search_least [of ?n ?f], erule (2) up; assumption)+
  qed
  have "i < ?n"
  proof (rule ccontr)
    assume "\<not> i < ?n"
    then have "\<not> ?f (?n - 1)" using least(1,2) len by simp
    with f [of "?n - 1"] t len show False by simp
  qed
  moreover have "cum rss i \<le> t"
  proof (cases i)
    case (Suc j)
    then have "\<not> ?f j" "j < ?n" using least(2) \<open>i < ?n\<close> by auto
    with f Suc show ?thesis by simp
  qed simp
  moreover have "t < cum rss (Suc i)" using f least(3) \<open>i < ?n\<close> by simp
  moreover have "findSegment ?ss off = Some (?ss ! i, i)"
    using \<open>i < ?n\<close> by (simp add: findSegment_def Let_def len i_def)
  moreover have "i = 0" if "off = 0"
  proof -
    have "t = 0" using that so b0 by simp
    moreover have "rss ! 0 \<noteq> []"
    proof (cases "?n = 1")
      case True
      then obtain rs where "rss = [rs]" by (auto simp: length_Suc_conv)
      with t show ?thesis by auto
    next
      case False
      then have "rss ! 0 \<in> set (butlast rss)"
      proof -
        have "0 < length (butlast rss)" using False len by (cases rss) auto
        then show ?thesis using nth_butlast [of 0 rss] nth_mem by metis
      qed
      with l show ?thesis by (auto simp: log_repr_def)
    qed
    ultimately have "?f 0" using f [of 0] cum_Suc [of 0 rss] len by simp
    then show ?thesis using least(2) by blast
  qed
  ultimately show ?thesis by auto
qed

lemma NewReader_stream:
  assumes l: "log_repr l rss" and t: "t < length (concat rss)"
    and off: "off = seg_BaseOffset (cl_segments l ! 0) + word_of_nat t"
  shows "\<exists>rd k. NewReader off l = Ok rd \<and> rd_idx rd < length (cl_segments l) \<and> k \<le> t \<and>
     stream (cl_segments l) (rd_idx rd) (rd_pos rd) = concat (drop k (concat rss))"
proof -
  obtain i where i: "i < length rss" "cum rss i \<le> t" "t < cum rss (Suc i)"
      "if off = 0 then i = 0 else findSegment (cl_segments l) off = Some (cl_segments l ! i, i)"
    using segment_of_offset [OF assms] by blast
  let ?s = "cl_segments l ! i" and ?rs = "rss ! i"
  have ok: "seg_ok ?s ?rs" using log_repr_nth [OF l i(1)] .
  then have s: "seg_repr ?s ?rs" by (simp add: seg_ok_def)
  let ?t = "t - cum rss i"
  have t': "?t < length ?rs" using i by (simp add: cum_Suc)
  have "off = seg_BaseOffset ?s + word_of_nat ?t"
    using segment_base [OF l i(1)] off i(2) by simp
  moreover have "2 * length ?rs \<le> idx_bytes (seg_Index ?s) div 8" using ok by (simp add: seg_ok_def)
  ultimately obtain k where k: "k \<le> ?t" "findEntry off ?s = Ok (entry_at (seg_BaseOffset ?s) ?rs k)"
    using findEntry_not_past [OF s t'] by auto
  let ?p = "length (concat (take k ?rs))"
  have "nat (sint (word_of_nat ?p :: int64)) = ?p"
    using sint_plus_nat [of 0 ?p] record_pos_le [of k ?rs] s by (simp add: seg_repr_def)
  then have e: "bind_outcome (findEntry off ?s) (\<lambda>e. Ok \<lparr>rd_idx = i, rd_pos = nat (sint (e_Position e))\<rparr>)
      = Ok \<lparr>rd_idx = i, rd_pos = ?p\<rparr>"
    by (simp add: k(2) entry_at_def)
  have "NewReader off l = Ok \<lparr>rd_idx = i, rd_pos = ?p\<rparr>"
  proof (cases "off = 0")
    case True
    obtain s0 ss where "cl_segments l = s0 # ss" using l by (cases "cl_segments l") (auto simp: log_repr_def)
    with True i(4) e show ?thesis by (simp add: NewReader_def)
  next
    case False
    with i(4) e show ?thesis by (simp add: NewReader_def)
  qed
  moreover have "stream (cl_segments l) i ?p = concat (drop (cum rss i + k) (concat rss))"
    using stream_records [OF l i(1), of k] k(1) t' by simp
  moreover have "cum rss i + k \<le> t" using k(1) i(2) by simp
  ultimately show ?thesis
    using i(1) log_repr_lengths [OF l] by (intro exI [of _ "\<lparr>rd_idx = i, rd_pos = ?p\<rparr>"] exI [of _ "cum rss i + k"]) auto
qed

lemma newest_base:
  assumes l: "log_repr l rss"
  shows "NewestOffset l = seg_BaseOffset (cl_segments l ! 0) + word_of_nat (length (concat rss))"
proof -
  let ?i = "length rss - 1"
  have len: "length (cl_segments l) = length rss" "rss \<noteq> []" using log_repr_lengths [OF l] by auto
  then have i: "?i < length rss" by simp
  have act: "activeSegment l = cl_segments l ! ?i"
    using active_last [OF l] len by (metis last_conv_nth length_0_conv)
  have "seg_repr (cl_segments l ! ?i) (rss ! ?i)"
    using log_repr_nth [OF l i] by (simp add: seg_ok_def)
  then have "NewestOffset l = seg_BaseOffset (cl_segments l ! ?i) + word_of_nat (length (rss ! ?i))"
    by (simp add: NewestOffset_def act seg_repr_def)
  moreover have "cum rss (Suc ?i) = cum rss ?i + length (rss ! ?i)" using cum_Suc [OF i] .
  moreover have "cum rss (Suc ?i) = length (concat rss)" using len by simp
  ultimately show ?thesis using segment_base [OF l i] by (simp only: of_nat_add) (simp add: add.assoc)
qed

section \<open>Runs of a log\<close>

lemma CommitLog_New_fresh:
  assumes "path \<noteq> []"
  shows "\<exists>l. CommitLog_New cwd [] path maxb c [] = Ok l \<and> log_repr l [[]] \<and> NewestOffset l = 0 \<and>
     cl_MaxSegmentBytes l = maxb \<and> cl_cleaner l = DeleteCleaner c \<and>
     seg_BaseOffset (cl_segments l ! 0) = 0"
proof -
  obtain s where s: "NewSegment path 0 maxb [] [] [] = Ok s" "seg_repr s []" "seg_BaseOffset s = 0"
      "seg_maxBytes s = maxb" "index_room (seg_Index s) = 1310720" "idx_bytes (seg_Index s) = 10485760"
    using NewSegment_empty [of 0 path maxb "[]"] by auto
  let ?l = "\<lparr>cl_Path = path, cl_MaxSegmentBytes = maxb, cl_cleaner = DeleteCleaner c,
      cl_segments = [s], cl_active = Inl 0\<rparr>"
  have "CommitLog_New cwd [] path maxb c [] = Ok ?l"
    using assms s(1) by (simp add: CommitLog_New_def Let_def)
  moreover have "log_repr ?l [[]]"
    using s by (simp add: log_repr_def seg_ok_def chained_def)
  moreover have "NewestOffset ?l = 0"
    using s(2,3) by (simp add: NewestOffset_def activeSegment_def seg_repr_def)
  ultimately show ?thesis using s(3) by (intro exI [of _ ?l]) simp
qed

text \<open>A sequence of appends and the offsets they return.\<close>

fun append_all :: "(bytes \<Rightarrow> uint64) \<Rightarrow> bytes list \<Rightarrow> CommitLog \<Rightarrow>
    (log_error, int64 list \<times> CommitLog) outcome option" where
  "append_all hash [] l = Some (Ok ([], l))"
| "append_all hash (b # bs) l =
     obind (Append hash b l) (\<lambda>(off, l).
     obind (append_all hash bs l) (\<lambda>(offs, l). Some (Ok (off # offs, l))))"

text \<open>The record an append writes: the set with its offset filled in.\<close>

definition stamp :: "int64 \<Rightarrow> bytes \<Rightarrow> bytes" where
  "stamp off b = PutUint64 off @ drop 8 b"

fun stamps :: "int64 \<Rightarrow> bytes list \<Rightarrow> bytes list" where
  "stamps off [] = []"
| "stamps off (b # bs) = stamp off b # stamps (off + 1) bs"

lemma length_stamps [simp]: "length (stamps off bs) = length bs"
  by (induction off bs rule: stamps.induct) auto

lemma PutOffset_stamp: "valid_set b \<Longrightarrow> PutOffset off b = Some (stamp off b)"
  by (simp add: PutOffset_def stamp_def valid_set_def overwrite_def)

lemma stamp_record: "valid_set b \<Longrightarrow> is_record off (stamp off b)"
  using PutOffset_record [of b off] PutOffset_stamp [of b off] by auto

lemma stamps_records:
  "\<forall>b\<in>set bs. valid_set b \<Longrightarrow> k < length bs \<Longrightarrow> is_record (off + word_of_nat k) (stamps off bs ! k)"
proof (induction off bs arbitrary: k rule: stamps.induct)
  case (2 off b bs)
  then show ?case by (cases k) (auto simp: stamp_record algebra_simps)
qed simp

fun offsets_from :: "int64 \<Rightarrow> nat \<Rightarrow> int64 list" where
  "offsets_from off 0 = []"
| "offsets_from off (Suc n) = off # offsets_from (off + 1) n"

lemma sint_Suc_64:
  assumes "0 \<le> sint (w :: int64)" and "sint w + 1 < 2 ^ 63"
  shows "sint (w + 1) = sint w + 1"
  using sint_plus_nat [of w 1] assms by simp

lemma append_all_correct:
  assumes "log_repr l rss" and "log_limits l" and "cl_cleaner l = DeleteCleaner (-1)"
    and "\<forall>b\<in>set bs. valid_set b" and "sint (NewestOffset l) + int (length bs) < 2 ^ 63"
  shows "\<exists>l' rss'. append_all hash bs l = Some (Ok (offsets_from (NewestOffset l) (length bs), l')) \<and>
     log_repr l' rss' \<and> concat rss' = concat rss @ stamps (NewestOffset l) bs \<and>
     log_limits l' \<and> cl_cleaner l' = cl_cleaner l \<and> NewestOffset l' = NewestOffset l + word_of_nat (length bs)"
  using assms
proof (induction bs arbitrary: l rss)
  case (Cons b bs)
  have "0 \<le> sint (NewestOffset l)"
    using last_ok [OF Cons.prems(1)] seg_next [of "activeSegment l" "last rss"]
    by (simp add: NewestOffset_def seg_ok_def seg_repr_def)
  then have next': "sint (NewestOffset l + 1) = sint (NewestOffset l) + 1"
    using Cons.prems(5) by (intro sint_Suc_64) auto
  have "valid_set b" "sint (NewestOffset l) + 1 < 2 ^ 63" using Cons.prems(4,5) by auto
  from Append_delete [OF Cons.prems(1,2) this(1) Cons.prems(3) this(2), of hash]
  obtain l1 rss1 where l1: "Append hash b l = Some (Ok (NewestOffset l, l1))" "log_repr l1 rss1" "log_limits l1"
      "concat rss1 = concat rss @ [stamp (NewestOffset l) b]" "NewestOffset l1 = NewestOffset l + 1"
      "cl_cleaner l1 = cl_cleaner l"
    using \<open>valid_set b\<close> by (auto simp: PutOffset_stamp)
  have "sint (NewestOffset l1) + int (length bs) < 2 ^ 63" using Cons.prems(5) next' l1(5) by simp
  with Cons.IH [OF l1(2,3)] Cons.prems(3,4) l1(6) obtain l' rss' where
    "append_all hash bs l1 = Some (Ok (offsets_from (NewestOffset l1) (length bs), l'))"
    "log_repr l' rss'" "concat rss' = concat rss1 @ stamps (NewestOffset l1) bs" "log_limits l'"
    "cl_cleaner l' = cl_cleaner l1" "NewestOffset l' = NewestOffset l1 + word_of_nat (length bs)"
    by auto
  with l1 show ?case
    by (intro exI [of _ l'] exI [of _ rss']) (simp add: obind_def)
qed auto

section \<open>What the delete cleaner retains\<close>

lemma drop_butlast_last: "n < length xs \<Longrightarrow> drop n xs = drop n (butlast xs) @ [last xs]"
  by (cases xs rule: rev_cases) auto

lemma retained_sum:
  fixes f :: "'a \<Rightarrow> int"
  assumes "j < length xs"
  shows "sum_list (map f (drop (length xs - 1 - j) xs)) = f (last xs) + sum_list (map f (take j (rev (butlast xs))))"
proof -
  have "length xs - 1 - j < length xs" using assms by simp
  from drop_butlast_last [OF this] show ?thesis
    by (simp add: take_rev rev_map [symmetric] sum_list_rev)
qed

lemma retain_back_within:
  assumes "\<forall>s\<in>set ss. 0 \<le> sint (seg_Position s)" and "0 \<le> sint tot"
    and "sint tot + sum_list (map (sint \<circ> seg_Position) ss) < 2 ^ 63"
  shows "(retain_back b tot ss \<noteq> 0 \<longrightarrow>
       sint tot + sum_list (map (sint \<circ> seg_Position) (take (retain_back b tot ss) ss)) \<le> sint b) \<and>
     (retain_back b tot ss < length ss \<longrightarrow>
       sint b < sint tot + sum_list (map (sint \<circ> seg_Position) (take (Suc (retain_back b tot ss)) ss)))"
  using assms
proof (induction b tot ss rule: retain_back.induct)
  case (2 b tot s ss)
  have nn: "0 \<le> sum_list (map (sint \<circ> seg_Position) ss)"
    using 2(2) by (intro sum_list_nonneg) auto
  have tot': "sint (tot + seg_Position s) = sint tot + sint (seg_Position s)"
  proof -
    have "tot + seg_Position s = word_of_int (sint tot + sint (seg_Position s))" by simp
    moreover have "sint (word_of_int (sint tot + sint (seg_Position s)) :: int64) = sint tot + sint (seg_Position s)"
      using 2(2-4) nn by (intro sint_word_of_int_64) (auto simp: o_def)
    ultimately show ?thesis by simp
  qed
  show ?case
  proof (cases "sint b < sint (tot + seg_Position s)")
    case True
    then show ?thesis using tot' by (simp add: Let_def)
  next
    case False
    from 2(1) [OF refl False] 2(2-4) tot' False show ?thesis
      by (cases "retain_back b (tot + seg_Position s) ss = 0") (auto simp: Let_def add.assoc)
  qed
qed auto

section \<open>The compact cleaner and the active segment\<close>

lemma obind_Ok: "obind m f = Some (Ok y) \<longleftrightarrow> (\<exists>x. m = Some (Ok x) \<and> f x = Some (Ok y))"
  by (auto simp: obind_def split: option.splits outcome.splits)

lemma compact_segments_olds:
  "compact_segments hash m ss = Some (Ok (css, olds)) \<Longrightarrow> length olds = length ss \<and> (\<forall>s\<in>set olds. seg_closed s)"
proof (induction ss arbitrary: css olds)
  case (Cons s ss)
  then obtain cs old css' olds' where "Segment_Replace cs s = Ok (css', old)"
      "\<exists>c. compact_segments hash m ss = Some (Ok (c, olds'))" "olds = old # olds'"
    by (fastforce simp: obind_Ok)
  moreover from this(1) have "seg_closed old"
    by (auto simp: Segment_Replace_def Segment_Close_def split: if_splits)
  ultimately show ?case using Cons.IH by auto
qed simp

lemma split_compact_closed:
  assumes "cl_cleaner l = CompactCleaner m" and "split hash l = Some (Ok l')"
  shows "seg_closed (activeSegment l')"
proof -
  obtain s css olds m' where "CompactCleaner_Clean hash m (cl_segments l @ [s]) = Some (Ok (css, olds, m'))"
      "l' = l\<lparr>cl_segments := css, cl_active := Inr (last olds), cl_cleaner := CompactCleaner m'\<rparr>"
    using assms by (fastforce simp: split_def obind_Ok Let_def)
  moreover from this(1) have "length olds = Suc (length (cl_segments l))" "\<forall>s\<in>set olds. seg_closed s"
    using compact_segments_olds by (fastforce simp: CompactCleaner_Clean_def obind_Ok)+
  ultimately show ?thesis by (cases olds rule: rev_cases) (auto simp: activeSegment_def)
qed

lemma Append_compact_fails:
  assumes "cl_cleaner l = CompactCleaner m" and "checkSplit l"
  shows "Append hash b l \<noteq> Some (Ok x)"
proof
  assume "Append hash b l = Some (Ok x)"
  then obtain l' where l': "split hash l = Some (Ok l')"
    using assms(2) by (auto simp: Append_def obind_Ok)
  have "seg_closed (activeSegment l')" using split_compact_closed [OF assms(1) l'] .
  with \<open>Append hash b l = Some (Ok x)\<close> l' assms(2) show False
    by (auto simp: Append_def obind_def Segment_Write_def Let_def split: option.splits)
qed

section \<open>Segments built directly\<close>

text \<open>The segment a sequence of appends of \<open>rs\<close> to a new segment leads to.\<close>

definition seg_of :: "int64 \<Rightarrow> bytes list \<Rightarrow> Segment" where
  "seg_of base rs =
     \<lparr>seg_log = concat rs, seg_fpos = length (concat rs), seg_closed = False,
      seg_Index = \<lparr>idx_bytes = 10485760, idx_baseOffset = base,
        idx_mmap = concat (map (entry_bytes base) (entries_of base rs)) @ replicate (10485760 - 8 * length rs) 0,
        idx_position = 8 * length rs\<rparr>,
      seg_BaseOffset = base, seg_NextOffset = base + word_of_nat (length rs),
      seg_Position = word_of_nat (length (concat rs)), seg_maxBytes = 1024, seg_path = ''data'', seg_suffix = []\<rparr>"

lemma seg_of_simps [simp]:
  "seg_BaseOffset (seg_of base rs) = base" "idx_bytes (seg_Index (seg_of base rs)) = 10485760"
  by (simp_all add: seg_of_def)

lemma seg_of_repr:
  assumes "0 \<le> sint base" and "sint base + int (length rs) < 2 ^ 63" and "length (concat rs) \<le> 2147483647"
    and rec: "\<forall>k<length rs. is_record (base + word_of_nat k) (rs ! k)"
  shows "seg_repr (seg_of base rs) rs"
proof -
  have "12 * length rs \<le> length (concat rs)" using rec by (intro records_ge) (auto simp: is_record_def)
  with assms(3) have len: "length rs \<le> 2147483647" by simp
  have "length (concat (take k rs)) \<le> length (concat rs)" for k
    by (metis append_take_drop_id concat_append length_append le_add1)
  then have "entry_fits base (entry_at base rs k)" if "k < length rs" for k
    unfolding entry_at_def using that len assms(3) by (intro entry_fitsI) (auto intro: order_trans)
  then have "\<forall>e\<in>set (entries_of base rs). entry_fits base e" by (auto simp: entries_of_def)
  with assms show ?thesis by (simp add: seg_repr_def seg_of_def index_repr_def entryWidth_def)
qed

lemma NewSegment_built:
  "\<exists>idx. index_repr idx [] \<and> index_room idx = 1310720 \<and> idx_baseOffset idx = base \<and>
     (\<forall>file idx' n p. build_loop file 0 base 0 idx = Ok (idx', n, p) \<longrightarrow>
        (\<exists>s. NewSegment path base maxb suffix file [] = Ok s \<and> seg_NextOffset s = n \<and> seg_Position s = p \<and>
             seg_Index s = idx'))"
  by (intro exI [of _ "\<lparr>idx_bytes = 10485760, idx_baseOffset = base,
        idx_mmap = truncate_file (roundDown 10485760 entryWidth) [], idx_position = 0\<rparr>"])
    (simp add: NewSegment_def SetupIndex_def NewIndex_def indexPath_def BuildIndex_def SanityCheck_def
      TruncateEntries_def index_repr_def index_room_def entryWidth_def truncate_file_def roundDown_def Let_def)

section \<open>A stale entry\<close>

text \<open>
  Looking up the last of seven records: the search probes entry 5, then goes past the end, where
  the variable still holds entry 5, and ends with that entry instead of entry 6.
\<close>

lemma findEntry_stale:
  assumes s: "seg_repr s rs" and "length rs = 7" and "seg_BaseOffset s = 0"
    and "idx_bytes (seg_Index s) = 10485760"
  shows "findEntry 6 s = Ok (entry_at 0 rs 5)"
proof -
  let ?es = "entries_of 0 rs"
  have idx: "index_repr (seg_Index s) ?es" using s assms(3) by (simp add: seg_repr_def)
  have probe: "probe_entry (seg_Index s) h e = (if h < 7 then entry_at 0 rs h else e)" for h e
    using index.probe [OF idx, where h = h and e = e] assms(2)
    by (simp add: probe_entry_def ReadEntryAtLogOffset_def entries_of_nth)
  show ?thesis
    by (simp add: findEntry_def probe assms(4) entryWidth_def search_st.simps Let_def entry_reached_def
        entry_at_def)
qed

end
