(* ===== verification/Log_Theorems.thy ===== *)
theory Log_Theorems
  imports Log_Correct
begin

text \<open>
  The properties of the commit log: what appends, readers, retention, the offset index, recovery,
  compaction and truncation do, on every log in good order.
\<close>

section \<open>The commit log\<close>

text \<open>
  C1: what is produced is what is read.  On a fresh log with unlimited retention, any number of
  well-formed message sets is accepted, the offsets returned are 0, 1, 2 and so on, across any number
  of segment splits; and a reader opened at the offset of one of them exists and delivers, for every
  buffer size, the stored records in order and without a gap, from one at or before that offset to the
  end of the log, each being the set that was sent with its offset filled in.
\<close>

theorem produced_sets_are_read:
  assumes "path \<noteq> []" and "0 < sint maxb" and "sint maxb \<le> 7000000"
    and "\<forall>b\<in>set bs. valid_set b" and "int (length bs) < 2 ^ 63" and "t < length bs"
  shows "\<exists>l l' rd k. CommitLog_New cwd [] path maxb (-1) [] = Ok l \<and>
     append_all hash bs l = Some (Ok (offsets_from 0 (length bs), l')) \<and>
     NewReader (word_of_nat t) l' = Ok rd \<and> k \<le> t \<and>
     (\<forall>n. \<exists>rd'. Reader_Read rd n l' =
        (let data = concat (drop k (stamps 0 bs)) in
         Ok (take n data, if length data < n then Some EOF else None, rd')))"
proof -
  obtain l where l: "CommitLog_New cwd [] path maxb (-1) [] = Ok l" "log_repr l [[]]" "NewestOffset l = 0"
      "cl_MaxSegmentBytes l = maxb" "cl_cleaner l = DeleteCleaner (-1)"
    using CommitLog_New_fresh [OF assms(1)] by blast
  have "log_limits l" using l(4) assms(2,3) by (simp add: log_limits_def)
  moreover have "sint (NewestOffset l) + int (length bs) < 2 ^ 63" using l(3) assms(5) by simp
  ultimately obtain l' rss' where l': "append_all hash bs l = Some (Ok (offsets_from 0 (length bs), l'))"
      "log_repr l' rss'" "concat rss' = stamps 0 bs" "NewestOffset l' = word_of_nat (length bs)"
    using append_all_correct [OF l(2) _ l(5) assms(4), of hash] l(3) by auto
  have "seg_BaseOffset (cl_segments l' ! 0) = 0"
    using newest_base [OF l'(2)] l'(3,4) by simp
  then obtain rd k where rd: "NewReader (word_of_nat t) l' = Ok rd" "rd_idx rd < length (cl_segments l')" "k \<le> t"
      "stream (cl_segments l') (rd_idx rd) (rd_pos rd) = concat (drop k (stamps 0 bs))"
    using NewReader_stream [OF l'(2), of t "word_of_nat t"] assms(6) l'(3) by auto
  have "\<forall>s\<in>set (cl_segments l'). \<not> seg_closed s"
    using l'(2) all_open by (auto simp: log_repr_def)
  with rd have "\<exists>rd'. Reader_Read rd n l' =
      (let data = concat (drop k (stamps 0 bs)) in
       Ok (take n data, if length data < n then Some EOF else None, rd'))" for n
    using read_loop_stream [of "cl_segments l'" "rd_idx rd" "rd_pos rd" n]
    by (auto simp: Reader_Read_def Let_def)
  with l(1) l'(1) rd(1,3) show ?thesis by blast
qed

definition sample_set :: "byte \<Rightarrow> bytes" where
  "sample_set x = NewMessageSet 0 [v0_message 0 0 [x] [x]]"

lemma sample_set_valid: "valid_set (sample_set x)"
  by (simp add: valid_set_def sample_set_def NewMessageSet_def v0_message_def)

lemma length_sample: "length (sample_set x) = 28"
  by (simp add: sample_set_def NewMessageSet_def v0_message_def)

theorem produced_sets_are_read_witness:
  "\<exists>l l' rd k. CommitLog_New (\<lambda>_. False) [] ''data'' 1024 (-1) [] = Ok l \<and>
     append_all (\<lambda>_. 0) [sample_set 1, sample_set 2] l = Some (Ok ([0, 1], l')) \<and>
     NewReader 1 l' = Ok rd \<and> k \<le> 1 \<and>
     (\<forall>n. \<exists>rd'. Reader_Read rd n l' =
        (let data = concat (drop k (stamps 0 [sample_set 1, sample_set 2])) in
         Ok (take n data, if length data < n then Some EOF else None, rd')))"
  using produced_sets_are_read [of "''data''" 1024 "[sample_set 1, sample_set 2]" 1 "\<lambda>_. False" "\<lambda>_. 0"]
    sample_set_valid by simp

text \<open>
  C6: one append.  On every log in good order whose cleaner is the delete cleaner, \<^verbatim>\<open>Append\<close> returns
  the newest offset, whether it has to split or not; the log stays in good order, holds the records
  it held, minus the oldest \<open>m\<close> of them if retention removed some (none if retention is unlimited),
  followed by the new record; and the newest offset moves on by one.
\<close>

theorem append_adds_one_record:
  assumes "log_repr l rss" and "log_limits l" and "valid_set b" and "cl_cleaner l = DeleteCleaner c"
    and "sint (NewestOffset l) + 1 < 2 ^ 63"
  shows "\<exists>l' rss' m. Append hash b l = Some (Ok (NewestOffset l, l')) \<and> log_repr l' rss' \<and> log_limits l' \<and>
     concat rss' = drop m (concat rss) @ [stamp (NewestOffset l) b] \<and> m \<le> length (concat rss) \<and>
     (c = -1 \<longrightarrow> m = 0) \<and> NewestOffset l' = NewestOffset l + 1 \<and> cl_cleaner l' = cl_cleaner l"
  using Append_delete [OF assms, of hash] PutOffset_stamp [OF assms(3)] by (metis option.inject)

theorem append_adds_one_record_witness:
  "\<exists>l l' rss' m. CommitLog_New (\<lambda>_. False) [] ''data'' 1024 2048 ''delete'' = Ok l \<and>
     Append (\<lambda>_. 0) (sample_set 7) l = Some (Ok (0, l')) \<and> log_repr l' rss' \<and>
     concat rss' = drop m [] @ [stamp 0 (sample_set 7)]"
proof -
  obtain l where l: "CommitLog_New (\<lambda>_. False) [] ''data'' 1024 2048 [] = Ok l" "log_repr l [[]]"
      "NewestOffset l = 0" "cl_MaxSegmentBytes l = 1024" "cl_cleaner l = DeleteCleaner 2048"
    using CommitLog_New_fresh [of "''data''" "\<lambda>_. False" 1024 2048] by auto
  have "log_limits l" using l(4) by (simp add: log_limits_def)
  with append_adds_one_record [OF l(2) _ sample_set_valid l(5), of "\<lambda>_. 0" 7] l(1,3) show ?thesis
    by (fastforce simp: CommitLog_New_def)
qed

text \<open>
  C7: readers.  On every log in good order (also after retention has removed its head), a reader for
  an offset the log holds is found by the two binary searches, and what it reads, for every buffer
  size and across segment boundaries, is the records from one at or before that offset to the end of
  the log, in order and without a gap; the end is reported exactly when the buffer is not filled.
\<close>

theorem reader_never_skips:
  assumes "log_repr l rss" and "t < length (concat rss)"
    and "OldestOffset l = Ok base"
  shows "\<exists>rd k. NewReader (base + word_of_nat t) l = Ok rd \<and> k \<le> t \<and>
     (\<forall>n. \<exists>rd'. Reader_Read rd n l =
        (let data = concat (drop k (concat rss)) in
         Ok (take n data, if length data < n then Some EOF else None, rd')))"
proof -
  have "base = seg_BaseOffset (cl_segments l ! 0)"
    using assms(3) by (auto simp: OldestOffset_def split: list.splits)
  then obtain rd k where rd: "NewReader (base + word_of_nat t) l = Ok rd" "rd_idx rd < length (cl_segments l)" "k \<le> t"
      "stream (cl_segments l) (rd_idx rd) (rd_pos rd) = concat (drop k (concat rss))"
    using NewReader_stream [OF assms(1,2)] by blast
  have "\<forall>s\<in>set (cl_segments l). \<not> seg_closed s"
    using assms(1) all_open by (auto simp: log_repr_def)
  with rd have "\<exists>rd'. Reader_Read rd n l =
      (let data = concat (drop k (concat rss)) in
       Ok (take n data, if length data < n then Some EOF else None, rd'))" for n
    using read_loop_stream [of "cl_segments l" "rd_idx rd" "rd_pos rd" n]
    by (auto simp: Reader_Read_def Let_def)
  with rd(1,3) show ?thesis by blast
qed

theorem reader_never_skips_witness:
  "\<exists>l rss rd k. log_repr l rss \<and> concat rss = [stamp 0 (sample_set 7), stamp 1 (sample_set 8)] \<and>
     NewReader 1 l = Ok rd \<and> k \<le> 1 \<and>
     (\<forall>n. \<exists>rd'. Reader_Read rd n l =
        (let data = concat (drop k (concat rss)) in
         Ok (take n data, if length data < n then Some EOF else None, rd')))"
proof -
  obtain l where l: "log_repr l [[]]" "NewestOffset l = 0" "cl_MaxSegmentBytes l = 1024"
      "cl_cleaner l = DeleteCleaner (-1)"
    using CommitLog_New_fresh [of "''data''" "\<lambda>_. False" 1024 "-1"] by auto
  have "log_limits l" using l(3) by (simp add: log_limits_def)
  then obtain l' rss where l': "log_repr l' rss" "concat rss = [stamp 0 (sample_set 7), stamp 1 (sample_set 8)]"
      "NewestOffset l' = 2"
    using append_all_correct [OF l(1) _ l(4), of "[sample_set 7, sample_set 8]" "\<lambda>_. 0"] l(2) sample_set_valid
    by auto
  have "seg_BaseOffset (cl_segments l' ! 0) = 0" using newest_base [OF l'(1)] l'(2,3) by simp
  moreover have "cl_segments l' \<noteq> []" using l'(1) by (simp add: log_repr_def)
  ultimately have "OldestOffset l' = Ok 0" by (cases "cl_segments l'") (auto simp: OldestOffset_def)
  from reader_never_skips [OF l'(1) _ this, of 1] l'(1,2) show ?thesis
    by (intro exI [of _ l'] exI [of _ rss]) simp
qed

text \<open>
  C16: retention.  The delete cleaner keeps a non-empty suffix of the segments, always with the active
  one; what it keeps fits into the configured number of bytes unless it is the active segment alone,
  and it removes no segment that would still have fitted.
\<close>

theorem delete_cleaner_keeps_longest_suffix:
  assumes "segments \<noteq> []" and "\<forall>s\<in>set segments. \<not> seg_closed s \<and> 0 \<le> sint (seg_Position s)"
    and "sum_list (map (sint \<circ> seg_Position) segments) < 2 ^ 63" and "c \<noteq> -1"
  shows "\<exists>n<length segments. DeleteCleaner_Clean c segments = Ok (drop n segments) \<and>
     (n = length segments - 1 \<or> sum_list (map (sint \<circ> seg_Position) (drop n segments)) \<le> sint c) \<and>
     (n = 0 \<or> sint c < sum_list (map (sint \<circ> seg_Position) (drop (n - 1) segments)))"
proof -
  let ?xs = "butlast segments" and ?z = "last segments"
  let ?sum = "\<lambda>ss. sum_list (map (sint \<circ> seg_Position) ss)"
  define k where "k = retain_back c (seg_Position ?z) (rev ?xs)"
  let ?n = "length segments - 1 - k"
  have k: "k < length segments"
    using retain_back_le [of c "seg_Position ?z" "rev ?xs"] assms(1) by (auto simp: k_def neq_Nil_conv)
  have tail: "?sum (drop (length segments - 1 - j) segments) = sint (seg_Position ?z) + ?sum (take j (rev ?xs))"
    if "j < length segments" for j
    using retained_sum [OF that, of "sint \<circ> seg_Position"] by simp
  have "\<forall>s\<in>set (drop k (rev ?xs)). \<not> seg_closed s"
    using assms(2) by (metis in_set_butlastD in_set_dropD set_rev)
  then have clean: "DeleteCleaner_Clean c segments = Ok (drop ?n segments)"
    using assms(1,4) k by (simp add: DeleteCleaner_Clean_def Let_def k_def delete_all_open drop_butlast_last take_rev)
  have pos: "\<forall>s\<in>set (rev ?xs). 0 \<le> sint (seg_Position s)" "0 \<le> sint (seg_Position ?z)"
    using assms(1,2) by (auto dest: in_set_butlastD)
  have "sint (seg_Position ?z) + ?sum (rev ?xs) < 2 ^ 63"
    using tail [of "length segments - 1"] assms(1,3) by simp
  from retain_back_within [OF pos this, of c]
  have W: "k \<noteq> 0 \<longrightarrow> ?sum (drop ?n segments) \<le> sint c"
      "Suc k < length segments \<longrightarrow> sint c < ?sum (drop (length segments - 1 - Suc k) segments)"
    using tail [OF k] tail [of "Suc k"] by (auto simp: k_def)
  have "?n < length segments" using assms(1) by simp
  moreover have "?n = length segments - 1 \<or> ?sum (drop ?n segments) \<le> sint c"
    using W(1) by (cases "k = 0") auto
  moreover have "?n = 0 \<or> sint c < ?sum (drop (?n - 1) segments)"
    using W(2) by (cases "Suc k < length segments") auto
  ultimately show ?thesis using clean by blast
qed

definition sample_segment :: "int64 \<Rightarrow> int64 \<Rightarrow> Segment" where
  "sample_segment base n =
     \<lparr>seg_log = replicate (unat n) 0, seg_fpos = unat n, seg_closed = False,
      seg_Index = \<lparr>idx_bytes = 0, idx_baseOffset = base, idx_mmap = [], idx_position = 0\<rparr>,
      seg_BaseOffset = base, seg_NextOffset = base + 1, seg_Position = n, seg_maxBytes = 10,
      seg_path = ''data'', seg_suffix = []\<rparr>"

theorem delete_cleaner_keeps_longest_suffix_witness:
  "let segments = [sample_segment 0 8, sample_segment 1 9, sample_segment 2 3] in
   \<exists>n<length segments. DeleteCleaner_Clean 12 segments = Ok (drop n segments) \<and>
     (n = length segments - 1 \<or> sum_list (map (sint \<circ> seg_Position) (drop n segments)) \<le> sint (12 :: int64)) \<and>
     (n = 0 \<or> sint (12 :: int64) < sum_list (map (sint \<circ> seg_Position) (drop (n - 1) segments)))"
  unfolding Let_def by (rule delete_cleaner_keeps_longest_suffix) (simp_all add: sample_segment_def)



text \<open>
  C18: the lookup of an offset in a segment.  For the offset of record \<open>t\<close> the search returns an entry
  of the index, and never one behind record \<open>t\<close>: a reader that starts there cannot miss it.
\<close>

theorem find_entry_not_past:
  assumes "seg_repr s rs" and "t < length rs" and "2 * length rs \<le> idx_bytes (seg_Index s) div 8"
  shows "\<exists>k\<le>t. findEntry (seg_BaseOffset s + word_of_nat t) s =
     Ok \<lparr>e_Offset = seg_BaseOffset s + word_of_nat k, e_Position = word_of_nat (length (concat (take k rs)))\<rparr>"
  using findEntry_not_past [OF assms] by (simp add: entry_at_def)

definition seven :: "bytes list" where
  "seven = stamps 0 (map sample_set [1, 2, 3, 4, 5, 6, 7])"

lemma seven_repr: "seg_repr (seg_of 0 seven) seven" and length_seven: "length seven = 7"
proof -
  have "\<forall>b\<in>set (map sample_set [1, 2, 3, 4, 5, 6, 7]). valid_set b" by (simp add: sample_set_valid)
  then have "\<forall>k<length seven. is_record (0 + word_of_nat k) (seven ! k)"
    unfolding seven_def length_stamps by (intro allI impI stamps_records)
  then show "seg_repr (seg_of 0 seven) seven"
    by (rule seg_of_repr [rotated 3]) (simp_all add: seven_def stamp_def length_sample)
qed (simp add: seven_def)

theorem find_entry_not_past_witness:
  "\<exists>k\<le>3. findEntry (0 + word_of_nat 3) (seg_of 0 seven) =
     Ok \<lparr>e_Offset = 0 + word_of_nat k, e_Position = word_of_nat (length (concat (take k seven)))\<rparr>"
  using find_entry_not_past [OF seven_repr, of 3] length_seven by simp

text \<open>
  C19: the entry the lookup returns need not be the entry of the offset.  In a segment of seven records
  from offset 0 on, the lookup of offset 6 ends on the entry of record 5, although the index holds an
  entry for record 6: the probes behind the end of the index leave the entry of the probe before them
  in the variable.
\<close>

theorem find_entry_returns_stale_entry:
  assumes "seg_repr s rs" and "length rs = 7" and "seg_BaseOffset s = 0" and "idx_bytes (seg_Index s) = 10485760"
  shows "findEntry 6 s = Ok \<lparr>e_Offset = 5, e_Position = word_of_nat (length (concat (take 5 rs)))\<rparr> \<and>
     ReadEntryAtLogOffset 6 (seg_Index s) =
       Ok \<lparr>e_Offset = 6, e_Position = word_of_nat (length (concat (take 6 rs)))\<rparr>"
proof -
  have "index_repr (seg_Index s) (entries_of 0 rs)" using assms(1,3) by (simp add: seg_repr_def)
  from index.read_ok [OF this, of 6] assms(2)
  show ?thesis using findEntry_stale [OF assms] by (simp add: entry_at_def entries_of_nth)
qed

theorem find_entry_returns_stale_entry_witness:
  "findEntry 6 (seg_of 0 seven) = Ok \<lparr>e_Offset = 5, e_Position = word_of_nat (length (concat (take 5 seven)))\<rparr>"
  using find_entry_returns_stale_entry [OF seven_repr length_seven] by simp




text \<open>
  File names.  The base offset of a segment is read back from the name of its log file, so the
  segments a directory lists are reopened with the offsets they were created with.
\<close>

lemma base_offset_from_file_name:
  assumes "0 \<le> sint base"
  shows "HasSuffix (logName base []) ''.log'' \<and>
     map_option word_of_int (Atoi (TrimSuffix (logName base []) ''.log'')) = Some base"
proof -
  have "HasSuffix (logName base []) ''.log''" by (simp add: HasSuffix_def logName_def)
  moreover from this have "TrimSuffix (logName base []) ''.log'' = fmt020 (sint base)"
    by (simp add: TrimSuffix_def logName_def)
  moreover have "sint base < 2 ^ 63" using sint_less [of base] by simp
  ultimately show ?thesis using Atoi_fmt020 [OF assms] by simp
qed

lemma base_offset_from_file_name_sample:
  "map_option word_of_int (Atoi (TrimSuffix (logName 1234 []) ''.log'')) = Some (1234 :: int64)"
  using base_offset_from_file_name [of 1234] by simp

text \<open>
  C21: compaction.  On a log with the compact cleaner an append that finds the active segment full
  never succeeds, whatever the log holds: the split hands the cleaned segments to the list, but keeps
  the segment the cleaner has just closed and replaced as the active one.
\<close>

theorem compacted_log_rejects_append:
  assumes "cl_cleaner l = CompactCleaner m" and "checkSplit l"
  shows "\<forall>off l'. Append hash b l \<noteq> Some (Ok (off, l'))"
  using Append_compact_fails [OF assms] by blast

theorem compacted_log_rejects_append_witness:
  "let l = \<lparr>cl_Path = ''data'', cl_MaxSegmentBytes = 10, cl_cleaner = CompactCleaner (\<lambda>_. 0),
            cl_segments = [sample_segment 0 12], cl_active = Inl 0\<rparr> in
   checkSplit l \<and> (\<forall>off l'. Append (\<lambda>_. 0) (sample_set 1) l \<noteq> Some (Ok (off, l')))"
proof -
  let ?l = "\<lparr>cl_Path = ''data'', cl_MaxSegmentBytes = 10, cl_cleaner = CompactCleaner (\<lambda>_. 0),
            cl_segments = [sample_segment 0 12], cl_active = Inl 0\<rparr>"
  have "checkSplit ?l"
    by (simp add: checkSplit_def activeSegment_def IsFull_def sample_segment_def)
  with compacted_log_rejects_append [of ?l "\<lambda>_. 0" "\<lambda>_. 0" "sample_set 1"] show ?thesis by (simp add: Let_def)
qed

text \<open>
  C22: the messages of a set.  A set with one message gives that message; of a set with two messages
  the second of which is not longer than the first only the first is returned, because the offset of
  the loop is advanced by the size of a message twice.
\<close>

theorem messages_of_a_set:
  assumes "whole_message m" and "length n \<le> length m"
  shows "Messages (NewMessageSet off [m]) = Some (Ok [m]) \<and> Messages (NewMessageSet off [m, n]) = Some (Ok [m])"
  using Messages_one [OF assms(1)] Messages_two_loses [OF assms] by simp

theorem messages_of_a_set_witness:
  "Messages (NewMessageSet 3 [v0_message 0 0 [1] [2, 3], v0_message 0 0 [4] [5]]) =
     Some (Ok [v0_message 0 0 [1] [2, 3]])"
proof -
  have "whole_message (v0_message 0 0 [1] [2, 3])" by (rule v0_whole) simp
  moreover have "length (v0_message 0 0 [4] [5]) \<le> length (v0_message 0 0 [1] [2, 3])"
    by (simp add: v0_message_def)
  ultimately show ?thesis using messages_of_a_set by blast
qed



end
