(* ===== verification/Topic_Config.thy ===== *)
theory Topic_Config
  imports Prelude Complex_Main
begin

text \<open>
  Topic configuration (\<^verbatim>\<open>jocko/structs/topic_config.go\<close>): named entries with a default and possibly a
  value of their own.  An \<^verbatim>\<open>interface{}\<close> is nil or one of the kinds of constants the table holds; a
  floating-point default is the rational it denotes.
\<close>

datatype config_value = ValueNil | ValueString string | ValueInt int64 | ValueFloat rat | ValueBool bool

record ConfigEntry =
  ce_Default :: config_value
  ce_Name :: string
  ce_ValidValues :: "config_value list"
  ce_Value :: config_value

record TopicConfigEntry = ConfigEntry +
  tce_ServerDefault :: string

type_synonym TopicConfig = "string \<rightharpoonup> TopicConfigEntry"

text \<open>A composite literal: the fields it leaves out are zero values.\<close>

definition config_entry :: "string \<Rightarrow> config_value \<Rightarrow> string \<Rightarrow> TopicConfigEntry" where
  "config_entry name dflt server = \<lparr>ce_Default = dflt, ce_Name = name, ce_ValidValues = [], ce_Value = ValueNil,
     tce_ServerDefault = server\<rparr>"

definition TopicConfig_Set :: "TopicConfig \<Rightarrow> TopicConfigEntry \<Rightarrow> TopicConfig" where
  "TopicConfig_Set c e = c(ce_Name e \<mapsto> e)"

definition NewTopicConfig :: TopicConfig where
  "NewTopicConfig = foldl TopicConfig_Set (\<lambda>_. None) [
     config_entry ''cleanup.policy'' (ValueString ''delete'') ''log.cleanup.policy'',
     config_entry ''compression.type'' (ValueString ''producer'') ''compression.type'',
     config_entry ''delete.retention.ms'' (ValueInt 86400000) ''log.cleaner.delete.retention.ms'',
     config_entry ''file.delete.delay.ms'' (ValueInt 60000) ''log.segment.delete.delay.ms'',
     config_entry ''flush.messages'' (ValueInt 9223372036854) ''log.flush.interval.messages'',
     config_entry ''flush.ms'' (ValueInt 9223372036854775807) ''log.flush.interval.ms'',
     config_entry ''follower.replication.throttled.replicas'' ValueNil ''follower.replication.throttled.replicas'',
     config_entry ''index.interval.bytes'' (ValueInt 4096) ''log.index.interval.bytes'',
     config_entry ''leader.replication.throttled.replicas'' ValueNil ''leader.replication.throttled.replicas'',
     config_entry ''max.message.bytes'' (ValueInt 1000012) ''message.max.bytes'',
     config_entry ''message.format.version'' (ValueString ''1.1-IV0'') ''log.message.format.version'',
     config_entry ''message.timestamp.difference.max.ms'' (ValueInt 9223372036854775807) ''log.message.timestamp.difference.max.ms'',
     config_entry ''message.timestamp.type'' (ValueString ''CreateTime'') [],
     config_entry ''min.cleanable.dirty.ratio'' (ValueFloat (1 / 2)) ''log.cleaner.min.cleanable.ratio'',
     config_entry ''min.compaction.lag.ms'' (ValueInt 0) ''log.cleaner.min.compaction.lag.ms'',
     config_entry ''min.insync.replicas'' (ValueInt 1) ''min.insync.replicas'',
     config_entry ''preallocate'' (ValueBool False) ''log.preallocate'',
     config_entry ''retention.bytes'' (ValueInt (- 1)) ''log.retention.bytes'',
     config_entry ''retention.ms'' (ValueInt 604800000) ''log.retention.ms'',
     config_entry ''segment.bytes'' (ValueInt 1073741824) ''log.segment.bytes'',
     config_entry ''segment.index.bytes'' (ValueInt 10485760) ''log.index.size.max.bytes'',
     config_entry ''segment.jitter.ms'' (ValueInt 0) ''log.roll.jitter.ms'',
     config_entry ''segment.ms'' (ValueInt 604800000) ''log.roll.ms'',
     config_entry ''unclean.leader.election.enable'' (ValueString ''false'') ''unclean.leader.election.enable'']"

definition TopicConfig_Get :: "TopicConfig \<Rightarrow> string \<Rightarrow> TopicConfigEntry" where
  "TopicConfig_Get c name = (case c name of Some e \<Rightarrow> e | None \<Rightarrow> config_entry [] ValueNil [])"

definition GetValue :: "TopicConfig \<Rightarrow> string \<Rightarrow> config_value" where
  "GetValue c name =
     (case c name of None \<Rightarrow> ValueNil
      | Some e \<Rightarrow> if ce_Value e \<noteq> ValueNil then ce_Value e else ce_Default e)"

definition SetValue :: "TopicConfig \<Rightarrow> string \<Rightarrow> config_value \<Rightarrow> TopicConfig" where
  "SetValue c name v =
     (case c name of None \<Rightarrow> c | Some e \<Rightarrow> c(name \<mapsto> e\<lparr>ce_Value := v\<rparr>))"

section \<open>Laws\<close>

lemma TopicConfig_Get_Set [simp]: "TopicConfig_Get (TopicConfig_Set c e) (ce_Name e) = e"
  by (simp add: TopicConfig_Get_def TopicConfig_Set_def)

lemma GetValue_SetValue:
  "GetValue (SetValue c name v) other =
     (if other = name \<and> name \<in> dom c then
        if v = ValueNil then ce_Default (TopicConfig_Get c name) else v
      else GetValue c other)"
  by (auto simp: GetValue_def SetValue_def TopicConfig_Get_def split: option.splits)

lemma dom_SetValue [simp]: "dom (SetValue c name v) = dom c"
  by (auto simp: SetValue_def split: option.splits)

text \<open>Every entry is stored under its own name.\<close>

definition well_named :: "TopicConfig \<Rightarrow> bool" where
  "well_named c \<longleftrightarrow> (\<forall>name e. c name = Some e \<longrightarrow> ce_Name e = name)"

lemma well_named_Set: "well_named c \<Longrightarrow> well_named (TopicConfig_Set c e)"
  by (simp add: well_named_def TopicConfig_Set_def)

lemma well_named_Set_all: "well_named c \<Longrightarrow> well_named (foldl TopicConfig_Set c es)"
  by (induction es arbitrary: c) (simp_all add: well_named_Set)

lemma well_named_New: "well_named NewTopicConfig"
  unfolding NewTopicConfig_def by (rule well_named_Set_all) (simp add: well_named_def)

lemma well_named_SetValue: "well_named c \<Longrightarrow> well_named (SetValue c name v)"
  by (auto simp: well_named_def SetValue_def split: option.splits)

lemma cleanup_policy_default: "GetValue NewTopicConfig ''cleanup.policy'' = ValueString ''delete''"
  by (simp add: GetValue_def NewTopicConfig_def TopicConfig_Set_def config_entry_def)

end
