(* ===== verification/Structs.thy ===== *)
theory Structs
  imports Topic_Config
begin

text \<open>
  The records the brokers replicate (\<^verbatim>\<open>jocko/structs/structs.go\<close>) and the requests that change them.
  A Go map that is iterated over is the list of its entries.  The MessagePack codec is a package the
  sources only call: it is a parameter, with the documented round trip as its law.
\<close>

section \<open>Records\<close>

record RaftIndex =
  CreateIndex :: uint64
  ModifyIndex :: uint64

record HealthCheck =
  hc_Node :: string
  hc_CheckID :: string
  hc_Name :: string
  hc_Status :: string
  hc_Output :: string
  hc_RaftIndex :: RaftIndex

record structs_Node =
  nd_ID :: int32
  nd_Node :: int32
  nd_Address :: string
  nd_Check :: "HealthCheck option"
  nd_Meta :: "(string \<times> string) list"
  nd_RaftIndex :: RaftIndex

record structs_Topic =
  tp_ID :: string
  tp_Topic :: string
  tp_Partitions :: "(int32 \<times> int32 list) list"
  tp_Config :: "TopicConfig option"
  tp_Internal :: bool
  tp_RaftIndex :: RaftIndex

record structs_Partition =
  pt_ID :: int32
  pt_Partition :: int32
  pt_Topic :: string
  pt_ISR :: "int32 list"
  pt_AR :: "int32 list"
  pt_Leader :: int32
  pt_ControllerEpoch :: int32
  pt_LeaderEpoch :: int32
  pt_RaftIndex :: RaftIndex

record structs_Member =
  mb_ID :: string
  mb_Metadata :: "bytes option"
  mb_Assignment :: "bytes option"

datatype GroupState = GroupStatePreparingRebalance | GroupStateCompletingRebalance | GroupStateStable
  | GroupStateDead | GroupStateEmpty

fun group_state_code :: "GroupState \<Rightarrow> int32" where
  "group_state_code GroupStatePreparingRebalance = 0"
| "group_state_code GroupStateCompletingRebalance = 1"
| "group_state_code GroupStateStable = 2"
| "group_state_code GroupStateDead = 3"
| "group_state_code GroupStateEmpty = 4"

text \<open>The members are \<^const>\<open>None\<close> for a nil map, to which Go cannot assign.\<close>

record structs_Group =
  gr_ID :: string
  gr_Group :: string
  gr_Coordinator :: int32
  gr_LeaderID :: string
  gr_Members :: "(string \<times> structs_Member) list option"
  gr_State :: GroupState
  gr_GenerationID :: int32
  gr_RaftIndex :: RaftIndex

definition SerfCheckID :: string where "SerfCheckID = ''serf health''"
definition SerfCheckName :: string where "SerfCheckName = ''Serf health status''"
definition SerfCheckAliveOutput :: string where "SerfCheckAliveOutput = ''Node alive and reachable''"
definition SerfCheckFailedOutput :: string where "SerfCheckFailedOutput = ''Node not live or unreachable''"
definition HealthPassing :: string where "HealthPassing = ''passing''"
definition HealthCritical :: string where "HealthCritical = ''critical''"

section \<open>Requests\<close>

type_synonym MessageType = byte

definition RegisterNodeRequestType :: MessageType where "RegisterNodeRequestType = 0"
definition DeregisterNodeRequestType :: MessageType where "DeregisterNodeRequestType = 1"
definition RegisterTopicRequestType :: MessageType where "RegisterTopicRequestType = 2"
definition DeregisterTopicRequestType :: MessageType where "DeregisterTopicRequestType = 3"
definition RegisterPartitionRequestType :: MessageType where "RegisterPartitionRequestType = 4"
definition DeregisterPartitionRequestType :: MessageType where "DeregisterPartitionRequestType = 5"
definition RegisterGroupRequestType :: MessageType where "RegisterGroupRequestType = 6"

lemmas message_type_defs = RegisterNodeRequestType_def DeregisterNodeRequestType_def
  RegisterTopicRequestType_def DeregisterTopicRequestType_def RegisterPartitionRequestType_def
  DeregisterPartitionRequestType_def RegisterGroupRequestType_def

datatype request =
    RegisterGroupRequest structs_Group
  | RegisterNodeRequest structs_Node
  | DeregisterNodeRequest structs_Node
  | RegisterTopicRequest structs_Topic
  | DeregisterTopicRequest structs_Topic
  | RegisterPartitionRequest structs_Partition
  | DeregisterPartitionRequest structs_Partition

fun request_type :: "request \<Rightarrow> MessageType" where
  "request_type (RegisterGroupRequest _) = RegisterGroupRequestType"
| "request_type (RegisterNodeRequest _) = RegisterNodeRequestType"
| "request_type (DeregisterNodeRequest _) = DeregisterNodeRequestType"
| "request_type (RegisterTopicRequest _) = RegisterTopicRequestType"
| "request_type (DeregisterTopicRequest _) = DeregisterTopicRequestType"
| "request_type (RegisterPartitionRequest _) = RegisterPartitionRequestType"
| "request_type (DeregisterPartitionRequest _) = DeregisterPartitionRequestType"

text \<open>
  The codec: writing a request, reading a request into a variable of the type a message type stands
  for, and the same for the header of a snapshot, which leaves the rest of the stream.
\<close>

record msgpack =
  mp_Encode :: "request \<Rightarrow> (string, bytes) outcome"
  mp_Decode :: "MessageType \<Rightarrow> bytes \<Rightarrow> (string, request) outcome"
  mp_EncodeHeader :: "uint64 \<Rightarrow> (string, bytes) outcome"
  mp_DecodeHeader :: "bytes \<Rightarrow> (string, uint64 \<times> bytes) outcome"

text \<open>Values of type \<^verbatim>\<open>interface{}\<close> in a configuration do not keep their type; nothing else is lost.\<close>

fun codable :: "request \<Rightarrow> bool" where
  "codable (RegisterTopicRequest t) \<longleftrightarrow> tp_Config t = None"
| "codable (DeregisterTopicRequest t) \<longleftrightarrow> tp_Config t = None"
| "codable _ \<longleftrightarrow> True"

definition msgpack_ok :: "msgpack \<Rightarrow> bool" where
  "msgpack_ok C \<longleftrightarrow>
     (\<forall>r b. codable r \<longrightarrow> mp_Encode C r = Ok b \<longrightarrow> mp_Decode C (request_type r) b = Ok r) \<and>
     (\<forall>h b rest. mp_EncodeHeader C h = Ok b \<longrightarrow> mp_DecodeHeader C (b @ rest) = Ok (h, rest))"

definition structs_Encode :: "msgpack \<Rightarrow> MessageType \<Rightarrow> request \<Rightarrow> (string, bytes) outcome" where
  "structs_Encode C t msg = out_bind (mp_Encode C msg) (\<lambda>b. Ok (t # b))"

definition structs_Decode :: "msgpack \<Rightarrow> MessageType \<Rightarrow> bytes \<Rightarrow> (string, request) outcome" where
  "structs_Decode C out buf = mp_Decode C out buf"

lemma structs_Encode_Decode:
  assumes "msgpack_ok C" and "codable r" and "structs_Encode C (request_type r) r = Ok buf"
  shows "\<exists>b. buf = request_type r # b \<and> structs_Decode C (request_type r) b = Ok r"
  using assms by (auto simp: structs_Encode_def structs_Decode_def msgpack_ok_def out_bind_eq_Ok)

end
