(* ===== verification/Mem_Index.thy ===== *)
theory Mem_Index
  imports Structs
begin

text \<open>
  The tables of the state store and their indexes (\<^verbatim>\<open>jocko/fsm/index.go\<close>, the schemas of
  \<^verbatim>\<open>jocko/fsm/fsm.go\<close>).  The in-memory database go-memdb is a package the sources only call: it is a
  record of its operations, with their documented behaviour as the predicate \<open>memdb_ok\<close>.
\<close>

section \<open>Stored objects and reflection\<close>

record IndexEntry =
  ie_Key :: string
  ie_Value :: uint64

datatype db_obj = ObjIndex IndexEntry | ObjNode structs_Node | ObjTopic structs_Topic
  | ObjPartition structs_Partition | ObjGroup structs_Group

datatype Kind = KInt | KInt8 | KInt16 | KInt32 | KInt64 | KString | KOther

text \<open>A \<^verbatim>\<open>reflect.Value\<close>: a signed integer of some kind, a string, another value, or the invalid one.\<close>

datatype reflect_value = VInt Kind int64 | VString string | VOther | VInvalid

fun kind_of :: "reflect_value \<Rightarrow> Kind" where
  "kind_of (VInt k _) = k"
| "kind_of (VString _) = KString"
| "kind_of _ = KOther"

definition VInt32 :: "int32 \<Rightarrow> reflect_value" where
  "VInt32 w = VInt KInt32 (word_of_int (sint w))"

text \<open>\<^verbatim>\<open>FieldByName\<close> on the pointed-to struct.\<close>

fun FieldByName :: "db_obj \<Rightarrow> string \<Rightarrow> reflect_value" where
  "FieldByName (ObjIndex e) f =
     (if f = ''Key'' then VString (ie_Key e) else if f = ''Value'' then VOther else VInvalid)"
| "FieldByName (ObjNode n) f =
     (if f = ''ID'' then VInt32 (nd_ID n) else if f = ''Node'' then VInt32 (nd_Node n)
      else if f = ''Address'' then VString (nd_Address n)
      else if f \<in> {''Check'', ''Meta'', ''RaftIndex'', ''CreateIndex'', ''ModifyIndex''} then VOther else VInvalid)"
| "FieldByName (ObjTopic t) f =
     (if f = ''ID'' then VString (tp_ID t) else if f = ''Topic'' then VString (tp_Topic t)
      else if f \<in> {''Partitions'', ''Config'', ''Internal'', ''RaftIndex'', ''CreateIndex'', ''ModifyIndex''}
      then VOther else VInvalid)"
| "FieldByName (ObjPartition p) f =
     (if f = ''ID'' then VInt32 (pt_ID p) else if f = ''Partition'' then VInt32 (pt_Partition p)
      else if f = ''Topic'' then VString (pt_Topic p) else if f = ''Leader'' then VInt32 (pt_Leader p)
      else if f = ''ControllerEpoch'' then VInt32 (pt_ControllerEpoch p)
      else if f = ''LeaderEpoch'' then VInt32 (pt_LeaderEpoch p)
      else if f \<in> {''ISR'', ''AR'', ''RaftIndex'', ''CreateIndex'', ''ModifyIndex''} then VOther else VInvalid)"
| "FieldByName (ObjGroup g) f =
     (if f = ''ID'' then VString (gr_ID g) else if f = ''Group'' then VString (gr_Group g)
      else if f = ''Coordinator'' then VInt32 (gr_Coordinator g) else if f = ''LeaderID'' then VString (gr_LeaderID g)
      else if f = ''GenerationID'' then VInt32 (gr_GenerationID g)
      else if f = ''State'' then VInt32 (group_state_code (gr_State g))
      else if f \<in> {''Members'', ''RaftIndex'', ''CreateIndex'', ''ModifyIndex''} then VOther else VInvalid)"

section \<open>Variable length integers\<close>

text \<open>\<^verbatim>\<open>binary.PutUvarint\<close>: seven bits a byte, the lowest first; \<^verbatim>\<open>binary.PutVarint\<close> zigzags the sign.\<close>

fun uvarint :: "nat \<Rightarrow> bytes" where
  "uvarint x = (if x < 128 then [word_of_nat x] else word_of_nat (x mod 128 + 128) # uvarint (x div 128))"

declare uvarint.simps [simp del]

definition zigzag :: "int64 \<Rightarrow> uint64" where
  "zigzag x = (let ux = push_bit 1 x in if sint x < 0 then NOT ux else ux)"

definition PutVarint :: "nat \<Rightarrow> int64 \<Rightarrow> (string, bytes) outcome" where
  "PutVarint sz x =
     (let bs = uvarint (unat (zigzag x)) in
      if length bs \<le> sz then Ok (bs @ replicate (sz - length bs) 0) else Panic)"

fun IsIntType :: "Kind \<Rightarrow> nat option" where
  "IsIntType KInt = Some 10"
| "IsIntType KInt8 = Some 2"
| "IsIntType KInt16 = Some 3"
| "IsIntType KInt32 = Some 5"
| "IsIntType KInt64 = Some 10"
| "IsIntType _ = None"

section \<open>Indexers and schemas\<close>

text \<open>
  An \<^verbatim>\<open>Indexer\<close>: the keys of an object (none when the value is missing, one for a
  \<^verbatim>\<open>SingleIndexer\<close>, any number for a \<^verbatim>\<open>MultiIndexer\<close>) and the key of the arguments of a query.
\<close>

record Indexer =
  FromObject :: "db_obj \<Rightarrow> (string, bytes list) outcome"
  FromArgs :: "reflect_value list \<Rightarrow> (string, bytes) outcome"

definition IntFieldIndex_FromObject :: "string \<Rightarrow> db_obj \<Rightarrow> (string, bytes list) outcome" where
  "IntFieldIndex_FromObject field obj =
     (case FieldByName obj field of
        VInvalid \<Rightarrow> Err (''field '' @ field @ '' is invalid'')
      | VInt k val \<Rightarrow>
          (case IsIntType k of
             None \<Rightarrow> Err (''field '' @ field @ '' is not a int'')
           | Some sz \<Rightarrow> out_bind (PutVarint sz val) (\<lambda>buf. Ok [buf]))
      | _ \<Rightarrow> Err (''field '' @ field @ '' is not a int''))"

definition IntFieldIndex_FromArgs :: "reflect_value list \<Rightarrow> (string, bytes) outcome" where
  "IntFieldIndex_FromArgs args =
     (case args of
        [v] \<Rightarrow>
          (case v of
             VInvalid \<Rightarrow> Err ''arg is invalid''
           | VInt k val \<Rightarrow>
               (case IsIntType k of
                  None \<Rightarrow> Err ''arg is not a int''
                | Some sz \<Rightarrow> PutVarint sz val)
           | _ \<Rightarrow> Err ''arg is not a int'')
      | _ \<Rightarrow> Err ''must provide only a single argument'')"

definition IntFieldIndex :: "string \<Rightarrow> Indexer" where
  "IntFieldIndex field = \<lparr>FromObject = IntFieldIndex_FromObject field, FromArgs = IntFieldIndex_FromArgs\<rparr>"

record IndexSchema =
  is_Name :: string
  is_AllowMissing :: bool
  is_Unique :: bool
  is_Indexer :: Indexer

record TableSchema =
  ts_Name :: string
  ts_Indexes :: "(string \<times> IndexSchema) list"

text \<open>
  The operations of go-memdb: its three indexers, a new database, and reads and writes of a
  transaction.  A write transaction is the database it would leave if it were committed.
\<close>

record 'db memdb =
  StringFieldIndex :: "string \<Rightarrow> bool \<Rightarrow> Indexer"
  StringMapFieldIndex :: "string \<Rightarrow> bool \<Rightarrow> Indexer"
  CompoundIndex :: "Indexer list \<Rightarrow> Indexer"
  NewMemDB :: "(string \<times> TableSchema) list \<Rightarrow> (string, 'db) outcome"
  First :: "'db \<Rightarrow> string \<Rightarrow> string \<Rightarrow> reflect_value list \<Rightarrow> (string, db_obj option) outcome"
  Get :: "'db \<Rightarrow> string \<Rightarrow> string \<Rightarrow> reflect_value list \<Rightarrow> (string, db_obj list) outcome"
  Insert :: "'db \<Rightarrow> string \<Rightarrow> db_obj \<Rightarrow> (string, 'db) outcome"
  Delete :: "'db \<Rightarrow> string \<Rightarrow> db_obj \<Rightarrow> (string, 'db) outcome"

definition indexTableSchema :: "'db memdb \<Rightarrow> TableSchema" where
  "indexTableSchema M = \<lparr>ts_Name = ''index'', ts_Indexes =
     [(''id'', \<lparr>is_Name = ''id'', is_AllowMissing = False, is_Unique = True,
        is_Indexer = StringFieldIndex M ''Key'' True\<rparr>)]\<rparr>"

definition nodesTableSchema :: "'db memdb \<Rightarrow> TableSchema" where
  "nodesTableSchema M = \<lparr>ts_Name = ''nodes'', ts_Indexes =
     [(''id'', \<lparr>is_Name = ''id'', is_AllowMissing = False, is_Unique = True,
        is_Indexer = IntFieldIndex ''Node''\<rparr>),
      (''meta'', \<lparr>is_Name = ''meta'', is_AllowMissing = True, is_Unique = False,
        is_Indexer = StringMapFieldIndex M ''Meta'' False\<rparr>)]\<rparr>"

definition topicsTableSchema :: "'db memdb \<Rightarrow> TableSchema" where
  "topicsTableSchema M = \<lparr>ts_Name = ''topics'', ts_Indexes =
     [(''id'', \<lparr>is_Name = ''id'', is_AllowMissing = False, is_Unique = True,
        is_Indexer = StringFieldIndex M ''Topic'' True\<rparr>)]\<rparr>"

definition partitionsTableSchema :: "'db memdb \<Rightarrow> TableSchema" where
  "partitionsTableSchema M = \<lparr>ts_Name = ''partitions'', ts_Indexes =
     [(''id'', \<lparr>is_Name = ''id'', is_AllowMissing = False, is_Unique = True,
        is_Indexer = CompoundIndex M [StringFieldIndex M ''Topic'' False, IntFieldIndex ''Partition'']\<rparr>),
      (''partition'', \<lparr>is_Name = ''partition'', is_AllowMissing = False, is_Unique = False,
        is_Indexer = IntFieldIndex ''Partition''\<rparr>),
      (''topic'', \<lparr>is_Name = ''topic'', is_AllowMissing = False, is_Unique = False,
        is_Indexer = StringFieldIndex M ''Topic'' False\<rparr>),
      (''leader'', \<lparr>is_Name = ''leader'', is_AllowMissing = False, is_Unique = False,
        is_Indexer = IntFieldIndex ''Leader''\<rparr>)]\<rparr>"

definition groupTableSchema :: "'db memdb \<Rightarrow> TableSchema" where
  "groupTableSchema M = \<lparr>ts_Name = ''groups'', ts_Indexes =
     [(''id'', \<lparr>is_Name = ''id'', is_AllowMissing = False, is_Unique = True,
        is_Indexer = StringFieldIndex M ''Group'' True\<rparr>),
      (''coordinator'', \<lparr>is_Name = ''coordinator'', is_AllowMissing = False, is_Unique = False,
        is_Indexer = IntFieldIndex ''Coordinator''\<rparr>)]\<rparr>"

text \<open>What \<^verbatim>\<open>registerSchema\<close> has collected after \<^verbatim>\<open>init\<close>.\<close>

definition schemas :: "'db memdb \<Rightarrow> TableSchema list" where
  "schemas M = [indexTableSchema M, nodesTableSchema M, topicsTableSchema M, partitionsTableSchema M,
     groupTableSchema M]"

section \<open>Integer keys\<close>

text \<open>\<^verbatim>\<open>binary.Uvarint\<close>, which undoes \<^const>\<open>uvarint\<close> whatever follows.\<close>

fun read_uvarint :: "bytes \<Rightarrow> nat" where
  "read_uvarint [] = 0"
| "read_uvarint (b # bs) = (if unat b < 128 then unat b else (unat b - 128) + 128 * read_uvarint bs)"

lemma unat_high_byte: "unat (word_of_nat (n mod 128 + 128) :: byte) = n mod 128 + 128"
proof -
  have "n mod 128 < 128" by simp
  then have "n mod 128 + 128 < 2 ^ LENGTH(8)" by simp
  then show ?thesis by (simp only: unat_of_nat mod_less)
qed

lemma read_uvarint_uvarint: "read_uvarint (uvarint n @ rest) = n"
proof (induction n rule: uvarint.induct)
  case (1 n)
  have "n < 128 \<Longrightarrow> unat (word_of_nat n :: byte) = n" by (simp add: unat_of_nat)
  then show ?case
    using 1 mult_div_mod_eq [of 128 n] unat_high_byte [of n]
    by (subst uvarint.simps) (auto simp: add.commute simp del: of_nat_add)
qed

lemma length_uvarint: "n < 128 ^ Suc k \<Longrightarrow> length (uvarint n) \<le> Suc k"
proof (induction k arbitrary: n)
  case (Suc k)
  then have "n div 128 < 128 ^ Suc k" by (simp add: less_mult_imp_div_less mult.commute)
  from Suc.IH [OF this] show ?case by (subst uvarint.simps) simp
qed (subst uvarint.simps, simp)

lemma uint_zigzag: "uint (zigzag x) = (if sint x < 0 then - 2 * sint x - 1 else 2 * sint x)"
proof -
  let ?z = "if sint x < 0 then - 2 * sint x - 1 else 2 * sint x"
  have push: "push_bit 1 x = word_of_int (2 * sint x)"
    by (simp add: push_bit_eq_mult mult.commute)
  have "zigzag x = word_of_int ?z"
    unfolding zigzag_def Let_def push not_eq_complement by (simp add: algebra_simps)
  moreover have "0 \<le> ?z" and "?z < 2 ^ LENGTH(64)"
    using sint_range_size [of x] by (auto simp: word_size split: if_splits)
  ultimately show ?thesis by (simp only: uint_word_of_int mod_pos_pos_trivial)
qed

lemma zigzag_inj:
  assumes "zigzag x = zigzag y"
  shows "x = y"
proof -
  have "sint x = sint y"
    using arg_cong [OF assms, of uint] unfolding uint_zigzag by (simp split: if_splits; presburger)
  then show ?thesis by (rule signed_word_eqI)
qed

lemma PutVarint_read:
  assumes "PutVarint n x = Ok b"
  shows "read_uvarint b = unat (zigzag x)"
proof -
  let ?bs = "uvarint (unat (zigzag x))"
  have "b = ?bs @ replicate (n - length ?bs) 0"
    using assms unfolding PutVarint_def Let_def by (metis outcome.distinct(3) outcome.inject(1))
  then show ?thesis by (simp only: read_uvarint_uvarint)
qed

lemma PutVarint_inj:
  assumes "PutVarint n x = Ok b" and "PutVarint m y = Ok b"
  shows "x = y"
proof -
  have "unat (zigzag x) = unat (zigzag y)"
    using assms by (metis PutVarint_read)
  then show ?thesis by (rule zigzag_inj [OF unsigned_word_eqI])
qed

text \<open>The values a kind of signed integer holds.\<close>

fun in_kind :: "Kind \<Rightarrow> int64 \<Rightarrow> bool" where
  "in_kind KInt8 x \<longleftrightarrow> - 128 \<le> sint x \<and> sint x < 128"
| "in_kind KInt16 x \<longleftrightarrow> - 32768 \<le> sint x \<and> sint x < 32768"
| "in_kind KInt32 x \<longleftrightarrow> - 2147483648 \<le> sint x \<and> sint x < 2147483648"
| "in_kind _ x \<longleftrightarrow> True"

lemma zigzag_bound:
  assumes "IsIntType k = Some n" and "in_kind k x"
  shows "unat (zigzag x) < 128 ^ n"
proof -
  have "uint (zigzag x) < 2 ^ 64"
    using unsigned_less [of "zigzag x", where ?'a = int] by simp
  moreover have "uint (zigzag x) \<le> 2 * \<bar>sint x\<bar>"
    by (simp add: uint_zigzag)
  ultimately have "uint (zigzag x) < 128 ^ n"
    using assms by (cases k) (simp_all, linarith+)
  then have "int (unat (zigzag x)) < int (128 ^ n)" by simp
  then show ?thesis by (simp only: of_nat_less_iff)
qed

lemma PutVarint_ok:
  assumes "IsIntType k = Some n" and "in_kind k x"
  shows "\<exists>b. PutVarint n x = Ok b \<and> length b = n"
proof -
  obtain j where "n = Suc j" using assms(1) by (cases k) auto
  with length_uvarint [of "unat (zigzag x)" j] zigzag_bound [OF assms] have "length (uvarint (unat (zigzag x))) \<le> n"
    by simp
  then show ?thesis by (simp add: PutVarint_def Let_def)
qed

definition int_key :: "int32 \<Rightarrow> bytes" where
  "int_key w = the_ok (PutVarint 5 (word_of_int (sint w)))"

lemma sint_widen: "sint (word_of_int (sint (w :: int32)) :: int64) = sint w"
  using sint_range_size [of w] by (intro sint_word_of_int_64) (auto simp: word_size)

lemma PutVarint_int_key: "PutVarint 5 (word_of_int (sint w)) = Ok (int_key w) \<and> length (int_key w) = 5"
proof -
  have "in_kind KInt32 (word_of_int (sint w))"
    using sint_range_size [of w] unfolding in_kind.simps sint_widen by (auto simp: word_size)
  from PutVarint_ok [OF _ this, of 5] show ?thesis by (auto simp: int_key_def)
qed

lemma length_int_key [simp]: "length (int_key w) = 5"
  using PutVarint_int_key by simp

lemma int_key_inject [simp]: "int_key v = int_key w \<longleftrightarrow> v = w"
proof
  assume "int_key v = int_key w"
  with PutVarint_int_key have "(word_of_int (sint v) :: int64) = word_of_int (sint w)"
    by (metis PutVarint_inj)
  then have "sint v = sint w" by (metis sint_widen)
  then show "v = w" by (rule signed_word_eqI)
qed simp

lemma IntFieldIndex_key [simp]:
  assumes "FieldByName obj f = VInt32 w"
  shows "FromObject (IntFieldIndex f) obj = Ok [int_key w]"
proof -
  have "IntFieldIndex_FromObject f obj = out_bind (PutVarint 5 (word_of_int (sint w))) (\<lambda>buf. Ok [buf])"
    unfolding IntFieldIndex_FromObject_def assms VInt32_def by (simp only: reflect_value.case IsIntType.simps option.case)
  then show ?thesis
    using PutVarint_int_key [of w] by (simp only: IntFieldIndex_def Indexer.select_convs out_bind.simps)
qed

lemma IntFieldIndex_arg_key [simp]: "FromArgs (IntFieldIndex f) [VInt32 w] = Ok (int_key w)"
proof -
  have "IntFieldIndex_FromArgs [VInt32 w] = PutVarint 5 (word_of_int (sint w))"
    unfolding IntFieldIndex_FromArgs_def VInt32_def
    by (simp only: reflect_value.case IsIntType.simps option.case list.case)
  then show ?thesis
    using PutVarint_int_key [of w] by (simp only: IntFieldIndex_def Indexer.select_convs)
qed

section \<open>Documented behaviour of the database\<close>

text \<open>
  A view of the database for its specification: the schema it was made with, the rows of each table
  by the key of their \<^verbatim>\<open>id\<close> index, the key of a string, and \<^verbatim>\<open>strings.ToLower\<close>.
\<close>

record 'db memdb_view =
  db_schema :: "'db \<Rightarrow> (string \<times> TableSchema) list"
  db_rows :: "'db \<Rightarrow> string \<Rightarrow> bytes \<rightharpoonup> db_obj"
  db_key :: "string \<Rightarrow> bytes"
  db_lower :: "string \<Rightarrow> string"

definition string_key :: "'db memdb_view \<Rightarrow> bool \<Rightarrow> string \<Rightarrow> bytes" where
  "string_key V lc s = db_key V (if lc then db_lower V s else s)"

definition string_keys_ok :: "'db memdb_view \<Rightarrow> bool" where
  "string_keys_ok V \<longleftrightarrow> inj (db_key V) \<and>
     (\<forall>s. (\<forall>c\<in>set s. c \<in> set ''abcdefghijklmnopqrstuvwxyz'') \<longrightarrow> db_lower V s = s)"

definition string_index_ok :: "'db memdb \<Rightarrow> 'db memdb_view \<Rightarrow> bool" where
  "string_index_ok M V \<longleftrightarrow>
     (\<forall>f lc obj s. FieldByName obj f = VString s \<longrightarrow>
        FromObject (StringFieldIndex M f lc) obj = Ok (if s = [] then [] else [string_key V lc s])) \<and>
     (\<forall>f lc s. FromArgs (StringFieldIndex M f lc) [VString s] = Ok (string_key V lc s))"

definition map_index_ok :: "'db memdb \<Rightarrow> bool" where
  "map_index_ok M \<longleftrightarrow> (\<forall>n. \<exists>ks. FromObject (StringMapFieldIndex M ''Meta'' False) (ObjNode n) = Ok ks)"

definition compound_index_ok :: "'db memdb \<Rightarrow> bool" where
  "compound_index_ok M \<longleftrightarrow>
     (\<forall>a b obj ks ls. FromObject a obj = Ok ks \<longrightarrow> FromObject b obj = Ok ls \<longrightarrow>
        FromObject (CompoundIndex M [a, b]) obj = Ok (case (ks, ls) of ([k], [l]) \<Rightarrow> [k @ l] | _ \<Rightarrow> [])) \<and>
     (\<forall>a b u v k l. FromArgs a [u] = Ok k \<longrightarrow> FromArgs b [v] = Ok l \<longrightarrow>
        FromArgs (CompoundIndex M [a, b]) [u, v] = Ok (k @ l))"

definition indexers_ok :: "'db memdb \<Rightarrow> 'db memdb_view \<Rightarrow> bool" where
  "indexers_ok M V \<longleftrightarrow> string_keys_ok V \<and> string_index_ok M V \<and> map_index_ok M \<and> compound_index_ok M"

text \<open>\<^verbatim>\<open>Validate\<close> of a schema, and the objects all of whose required indexes have a value.\<close>

definition schema_valid :: "(string \<times> TableSchema) list \<Rightarrow> bool" where
  "schema_valid sch \<longleftrightarrow> sch \<noteq> [] \<and> distinct (map fst sch) \<and>
     (\<forall>(n, ts)\<in>set sch. n \<noteq> [] \<and> ts_Name ts = n \<and> distinct (map fst (ts_Indexes ts)) \<and>
        (\<forall>(i, ix)\<in>set (ts_Indexes ts). i \<noteq> [] \<and> is_Name ix = i) \<and>
        (\<exists>ix. map_of (ts_Indexes ts) ''id'' = Some ix \<and> is_Unique ix \<and> \<not> is_AllowMissing ix))"

definition id_index :: "TableSchema \<Rightarrow> Indexer" where
  "id_index ts = is_Indexer (the (map_of (ts_Indexes ts) ''id''))"

definition indexable :: "TableSchema \<Rightarrow> db_obj \<Rightarrow> bool" where
  "indexable ts obj \<longleftrightarrow> (\<forall>(i, ix)\<in>set (ts_Indexes ts).
     case FromObject (is_Indexer ix) obj of Ok ks \<Rightarrow> ks \<noteq> [] \<or> is_AllowMissing ix | _ \<Rightarrow> False)"

definition table_of :: "'db memdb_view \<Rightarrow> 'db \<Rightarrow> string \<Rightarrow> TableSchema option" where
  "table_of V db t = map_of (db_schema V db) t"

definition new_ok :: "'db memdb \<Rightarrow> 'db memdb_view \<Rightarrow> bool" where
  "new_ok M V \<longleftrightarrow> (\<forall>sch. schema_valid sch \<longrightarrow>
     (\<exists>db. NewMemDB M sch = Ok db \<and> db_schema V db = sch \<and> db_rows V db = (\<lambda>_ _. None)))"

definition first_ok :: "'db memdb \<Rightarrow> 'db memdb_view \<Rightarrow> bool" where
  "first_ok M V \<longleftrightarrow> (\<forall>db t ts args k. table_of V db t = Some ts \<longrightarrow> FromArgs (id_index ts) args = Ok k \<longrightarrow>
     First M db t ''id'' args = Ok (db_rows V db t k))"

definition get_ok :: "'db memdb \<Rightarrow> 'db memdb_view \<Rightarrow> bool" where
  "get_ok M V \<longleftrightarrow>
     (\<forall>db t ts. table_of V db t = Some ts \<longrightarrow>
        (\<exists>objs. Get M db t ''id'' [] = Ok objs \<and> set objs = ran (db_rows V db t))) \<and>
     (\<forall>db t ts i ix args k. table_of V db t = Some ts \<longrightarrow> map_of (ts_Indexes ts) i = Some ix \<longrightarrow> args \<noteq> [] \<longrightarrow>
        FromArgs (is_Indexer ix) args = Ok k \<longrightarrow>
        (\<exists>objs. Get M db t i args = Ok objs \<and>
           set objs = {obj \<in> ran (db_rows V db t). \<exists>ks. FromObject (is_Indexer ix) obj = Ok ks \<and> k \<in> set ks}))"

definition insert_ok :: "'db memdb \<Rightarrow> 'db memdb_view \<Rightarrow> bool" where
  "insert_ok M V \<longleftrightarrow>
     (\<forall>db t ts obj k. table_of V db t = Some ts \<longrightarrow> FromObject (id_index ts) obj = Ok [k] \<longrightarrow> indexable ts obj \<longrightarrow>
        (\<exists>db'. Insert M db t obj = Ok db' \<and> db_schema V db' = db_schema V db \<and>
           db_rows V db' = (db_rows V db)(t := (db_rows V db t)(k \<mapsto> obj)))) \<and>
     (\<forall>db t ts obj. table_of V db t = Some ts \<longrightarrow> FromObject (id_index ts) obj = Ok [] \<longrightarrow>
        (\<exists>e. Insert M db t obj = Err e))"

definition delete_ok :: "'db memdb \<Rightarrow> 'db memdb_view \<Rightarrow> bool" where
  "delete_ok M V \<longleftrightarrow>
     (\<forall>db t ts obj k. table_of V db t = Some ts \<longrightarrow> FromObject (id_index ts) obj = Ok [k] \<longrightarrow>
        k \<in> dom (db_rows V db t) \<longrightarrow>
        (\<exists>db'. Delete M db t obj = Ok db' \<and> db_schema V db' = db_schema V db \<and>
           db_rows V db' = (db_rows V db)(t := (db_rows V db t)(k := None))))"

definition memdb_ok :: "'db memdb \<Rightarrow> 'db memdb_view \<Rightarrow> bool" where
  "memdb_ok M V \<longleftrightarrow> indexers_ok M V \<and> new_ok M V \<and> first_ok M V \<and> get_ok M V \<and> insert_ok M V \<and> delete_ok M V"

end
