(* ===== verification/State_Store.thy ===== *)
theory State_Store
  imports Mem_Index
begin

text \<open>
  The state store of a broker (\<^verbatim>\<open>Store\<close> in \<^verbatim>\<open>jocko/fsm/fsm.go\<close>): nodes, topics, partitions and groups in
  tables of the in-memory database, and for each table the index of the last change.  A write
  transaction that returns an error is aborted and leaves the database as it was.
\<close>

section \<open>The store\<close>

record 'db Store =
  st_schema :: "string list"
  st_db :: 'db
  st_abandoned :: bool

fun collect_schemas :: "TableSchema list \<Rightarrow> (string \<times> TableSchema) list \<Rightarrow>
    (string, (string \<times> TableSchema) list) outcome" where
  "collect_schemas [] tables = Ok tables"
| "collect_schemas (schema # rest) tables =
     (if ts_Name schema \<in> fst ` set tables then Panic
      else collect_schemas rest (tables @ [(ts_Name schema, schema)]))"

definition NewStore :: "'db memdb \<Rightarrow> (string, 'db Store) outcome" where
  "NewStore M =
     out_bind (collect_schemas (schemas M) []) (\<lambda>tables.
     out_bind (NewMemDB M tables) (\<lambda>db.
     Ok \<lparr>st_schema = map fst tables, st_db = db, st_abandoned = False\<rparr>))"

text \<open>Closing a channel twice panics.\<close>

definition Abandon :: "'db Store \<Rightarrow> (string, 'db Store) outcome" where
  "Abandon s = (if st_abandoned s then Panic else Ok (s\<lparr>st_abandoned := True\<rparr>))"

text \<open>Type assertions \<^verbatim>\<open>x.(*structs.T)\<close>: they panic for an object of another type.\<close>

fun as_Node :: "db_obj \<Rightarrow> structs_Node option" where
  "as_Node (ObjNode n) = Some n" | "as_Node _ = None"

fun as_Topic :: "db_obj \<Rightarrow> structs_Topic option" where
  "as_Topic (ObjTopic t) = Some t" | "as_Topic _ = None"

fun as_Partition :: "db_obj \<Rightarrow> structs_Partition option" where
  "as_Partition (ObjPartition p) = Some p" | "as_Partition _ = None"

fun as_Group :: "db_obj \<Rightarrow> structs_Group option" where
  "as_Group (ObjGroup g) = Some g" | "as_Group _ = None"

fun as_Index :: "db_obj \<Rightarrow> IndexEntry option" where
  "as_Index (ObjIndex e) = Some e" | "as_Index _ = None"

definition assert_type :: "(db_obj \<Rightarrow> 'a option) \<Rightarrow> db_obj \<Rightarrow> (string, 'a) outcome" where
  "assert_type as obj = (case as obj of Some x \<Rightarrow> Ok x | None \<Rightarrow> Panic)"

fun assert_found :: "(db_obj \<Rightarrow> 'a option) \<Rightarrow> db_obj option \<Rightarrow> (string, 'a option) outcome" where
  "assert_found as None = Ok None"
| "assert_found as (Some obj) = out_bind (assert_type as obj) (\<lambda>x. Ok (Some x))"

fun assert_all :: "(db_obj \<Rightarrow> 'a option) \<Rightarrow> db_obj list \<Rightarrow> (string, 'a list) outcome" where
  "assert_all as [] = Ok []"
| "assert_all as (obj # objs) = out_bind (assert_type as obj) (\<lambda>x. out_bind (assert_all as objs) (\<lambda>xs. Ok (x # xs)))"

fun maxIndexTxn :: "'db memdb \<Rightarrow> 'db \<Rightarrow> string list \<Rightarrow> uint64 \<Rightarrow> (string, uint64) outcome" where
  "maxIndexTxn M db [] lindex = Ok lindex"
| "maxIndexTxn M db (table # tables) lindex =
     (case First M db ''index'' ''id'' [VString table] of
        Ok ti \<Rightarrow> maxIndexTxn M db tables
          (case Option.bind ti as_Index of
             Some idx \<Rightarrow> if ie_Value idx > lindex then ie_Value idx else lindex
           | None \<Rightarrow> lindex)
      | _ \<Rightarrow> Panic)"

definition maxIndex :: "'db memdb \<Rightarrow> 'db Store \<Rightarrow> string list \<Rightarrow> (string, uint64) outcome" where
  "maxIndex M s tables = maxIndexTxn M (st_db s) tables 0"

text \<open>The indexes a write stamps on an object, given those of the object it replaces.\<close>

definition restamp :: "uint64 \<Rightarrow> RaftIndex option \<Rightarrow> RaftIndex" where
  "restamp idx old =
     (case old of Some r \<Rightarrow> \<lparr>CreateIndex = CreateIndex r, ModifyIndex = idx\<rparr>
      | None \<Rightarrow> \<lparr>CreateIndex = idx, ModifyIndex = idx\<rparr>)"

section \<open>Nodes\<close>

definition GetNode :: "'db memdb \<Rightarrow> 'db Store \<Rightarrow> int32 \<Rightarrow> (string, uint64 \<times> structs_Node option) outcome" where
  "GetNode M s id' =
     out_bind (maxIndexTxn M (st_db s) [''nodes''] 0) (\<lambda>idx.
     out_bind (wrap_err ''node lookup failed'' (First M (st_db s) ''nodes'' ''id'' [VInt32 id'])) (\<lambda>node.
     out_bind (assert_found as_Node node) (\<lambda>node. Ok (idx, node))))"

definition GetNodes :: "'db memdb \<Rightarrow> 'db Store \<Rightarrow> (string, uint64 \<times> structs_Node list) outcome" where
  "GetNodes M s =
     out_bind (maxIndexTxn M (st_db s) [''nodes''] 0) (\<lambda>idx.
     out_bind (wrap_err ''node lookup failed'' (Get M (st_db s) ''nodes'' ''id'' [])) (\<lambda>it.
     out_bind (assert_all as_Node it) (\<lambda>nodes. Ok (idx, nodes))))"

definition ensureNodeTxn :: "'db memdb \<Rightarrow> 'db \<Rightarrow> uint64 \<Rightarrow> structs_Node \<Rightarrow> (string, 'db) outcome" where
  "ensureNodeTxn M tx idx node =
     out_bind (wrap_err ''node lookup failed'' (First M tx ''nodes'' ''id'' [VInt32 (nd_Node node)])) (\<lambda>existing.
     out_bind (assert_found as_Node existing) (\<lambda>t.
     let node' = node\<lparr>nd_RaftIndex := restamp idx (map_option nd_RaftIndex t)\<rparr> in
     out_bind (wrap_err ''failed inserting node'' (Insert M tx ''nodes'' (ObjNode node'))) (\<lambda>tx.
     wrap_err ''failed updating index'' (Insert M tx ''index'' (ObjIndex \<lparr>ie_Key = ''nodes'', ie_Value = idx\<rparr>)))))"

definition EnsureNode :: "'db memdb \<Rightarrow> 'db Store \<Rightarrow> uint64 \<Rightarrow> structs_Node \<Rightarrow> (string, 'db Store) outcome" where
  "EnsureNode M s idx node = out_bind (ensureNodeTxn M (st_db s) idx node) (\<lambda>db. Ok (s\<lparr>st_db := db\<rparr>))"

definition deleteNodeTxn :: "'db memdb \<Rightarrow> 'db \<Rightarrow> uint64 \<Rightarrow> int32 \<Rightarrow> (string, 'db) outcome" where
  "deleteNodeTxn M tx idx id' =
     out_bind (First M tx ''nodes'' ''id'' [VInt32 id']) (\<lambda>node.
     case node of None \<Rightarrow> Ok tx
     | Some node \<Rightarrow>
         out_bind (Delete M tx ''nodes'' node) (\<lambda>tx.
         Insert M tx ''index'' (ObjIndex \<lparr>ie_Key = ''nodes'', ie_Value = idx\<rparr>)))"

definition DeleteNode :: "'db memdb \<Rightarrow> 'db Store \<Rightarrow> uint64 \<Rightarrow> int32 \<Rightarrow> (string, 'db Store) outcome" where
  "DeleteNode M s idx id' = out_bind (deleteNodeTxn M (st_db s) idx id') (\<lambda>db. Ok (s\<lparr>st_db := db\<rparr>))"

definition ensureRegistration :: "'db memdb \<Rightarrow> 'db \<Rightarrow> uint64 \<Rightarrow> structs_Node \<Rightarrow> (string, 'db) outcome" where
  "ensureRegistration M tx idx node =
     out_bind (First M tx ''nodes'' ''id'' [VInt32 (nd_Node node)]) (\<lambda>existing.
     if existing = None then ensureNodeTxn M tx idx node else Ok tx)"

definition EnsureRegistration :: "'db memdb \<Rightarrow> 'db Store \<Rightarrow> uint64 \<Rightarrow> structs_Node \<Rightarrow> (string, 'db Store) outcome" where
  "EnsureRegistration M s idx node = out_bind (ensureRegistration M (st_db s) idx node) (\<lambda>db. Ok (s\<lparr>st_db := db\<rparr>))"

section \<open>Topics\<close>

definition GetTopic :: "'db memdb \<Rightarrow> 'db Store \<Rightarrow> string \<Rightarrow> (string, uint64 \<times> structs_Topic option) outcome" where
  "GetTopic M s id' =
     out_bind (maxIndexTxn M (st_db s) [''topics''] 0) (\<lambda>idx.
     out_bind (wrap_err ''topic lookup failed'' (First M (st_db s) ''topics'' ''id'' [VString id'])) (\<lambda>topic.
     out_bind (assert_found as_Topic topic) (\<lambda>topic. Ok (idx, topic))))"

definition GetTopics :: "'db memdb \<Rightarrow> 'db Store \<Rightarrow> (string, uint64 \<times> structs_Topic list) outcome" where
  "GetTopics M s =
     out_bind (maxIndexTxn M (st_db s) [''topics''] 0) (\<lambda>idx.
     out_bind (Get M (st_db s) ''topics'' ''id'' []) (\<lambda>it.
     out_bind (assert_all as_Topic it) (\<lambda>topics. Ok (idx, topics))))"

definition ensureTopicTxn :: "'db memdb \<Rightarrow> 'db \<Rightarrow> uint64 \<Rightarrow> structs_Topic \<Rightarrow> (string, 'db) outcome" where
  "ensureTopicTxn M tx idx topic =
     out_bind (wrap_err ''topic lookup failed'' (First M tx ''topics'' ''id'' [VString (tp_Topic topic)])) (\<lambda>existing.
     out_bind (assert_found as_Topic existing) (\<lambda>t.
     let topic' = topic\<lparr>tp_RaftIndex := restamp idx (map_option tp_RaftIndex t)\<rparr> in
     out_bind (wrap_err ''failed inserting topic'' (Insert M tx ''topics'' (ObjTopic topic'))) (\<lambda>tx.
     wrap_err ''failed updating index'' (Insert M tx ''index'' (ObjIndex \<lparr>ie_Key = ''topics'', ie_Value = idx\<rparr>)))))"

definition EnsureTopic :: "'db memdb \<Rightarrow> 'db Store \<Rightarrow> uint64 \<Rightarrow> structs_Topic \<Rightarrow> (string, 'db Store) outcome" where
  "EnsureTopic M s idx topic =
     (let topic = (if tp_Config topic = None then topic\<lparr>tp_Config := Some NewTopicConfig\<rparr> else topic) in
      out_bind (ensureTopicTxn M (st_db s) idx topic) (\<lambda>db. Ok (s\<lparr>st_db := db\<rparr>)))"

definition deleteTopicTxn :: "'db memdb \<Rightarrow> 'db \<Rightarrow> uint64 \<Rightarrow> string \<Rightarrow> (string, 'db) outcome" where
  "deleteTopicTxn M tx idx id' =
     out_bind (First M tx ''topics'' ''id'' [VString id']) (\<lambda>topic.
     case topic of None \<Rightarrow> Ok tx
     | Some topic \<Rightarrow>
         out_bind (Delete M tx ''topics'' topic) (\<lambda>tx.
         Insert M tx ''index'' (ObjIndex \<lparr>ie_Key = ''topics'', ie_Value = idx\<rparr>)))"

definition DeleteTopic :: "'db memdb \<Rightarrow> 'db Store \<Rightarrow> uint64 \<Rightarrow> string \<Rightarrow> (string, 'db Store) outcome" where
  "DeleteTopic M s idx id' = out_bind (deleteTopicTxn M (st_db s) idx id') (\<lambda>db. Ok (s\<lparr>st_db := db\<rparr>))"

section \<open>Groups\<close>

definition GetGroup :: "'db memdb \<Rightarrow> 'db Store \<Rightarrow> string \<Rightarrow> (string, uint64 \<times> structs_Group option) outcome" where
  "GetGroup M s id' =
     out_bind (maxIndexTxn M (st_db s) [''groups''] 0) (\<lambda>idx.
     out_bind (wrap_err ''group lookup failed'' (First M (st_db s) ''groups'' ''id'' [VString id'])) (\<lambda>gp.
     out_bind (assert_found as_Group gp) (\<lambda>gp. Ok (idx, gp))))"

definition GetGroups :: "'db memdb \<Rightarrow> 'db Store \<Rightarrow> (string, uint64 \<times> structs_Group list) outcome" where
  "GetGroups M s =
     out_bind (maxIndexTxn M (st_db s) [''groups''] 0) (\<lambda>idx.
     out_bind (wrap_err ''group lookup failed'' (Get M (st_db s) ''groups'' ''id'' [])) (\<lambda>it.
     out_bind (assert_all as_Group it) (\<lambda>groups. Ok (idx, groups))))"

definition ensureGroupTxn :: "'db memdb \<Rightarrow> 'db \<Rightarrow> uint64 \<Rightarrow> structs_Group \<Rightarrow> (string, 'db) outcome" where
  "ensureGroupTxn M tx idx gp =
     out_bind (wrap_err ''group lookup failed'' (First M tx ''groups'' ''id'' [VString (gr_Group gp)])) (\<lambda>existing.
     out_bind (assert_found as_Group existing) (\<lambda>t.
     let gp' = gp\<lparr>gr_RaftIndex := restamp idx (map_option gr_RaftIndex t)\<rparr> in
     out_bind (wrap_err ''failed inserting group'' (Insert M tx ''groups'' (ObjGroup gp'))) (\<lambda>tx.
     wrap_err ''failed updating index'' (Insert M tx ''index'' (ObjIndex \<lparr>ie_Key = ''groups'', ie_Value = idx\<rparr>)))))"

definition EnsureGroup :: "'db memdb \<Rightarrow> 'db Store \<Rightarrow> uint64 \<Rightarrow> structs_Group \<Rightarrow> (string, 'db Store) outcome" where
  "EnsureGroup M s idx gp = out_bind (ensureGroupTxn M (st_db s) idx gp) (\<lambda>db. Ok (s\<lparr>st_db := db\<rparr>))"

definition deleteGroupTxn :: "'db memdb \<Rightarrow> 'db \<Rightarrow> uint64 \<Rightarrow> string \<Rightarrow> (string, 'db) outcome" where
  "deleteGroupTxn M tx idx id' =
     out_bind (First M tx ''groups'' ''id'' [VString id']) (\<lambda>gp.
     case gp of None \<Rightarrow> Ok tx
     | Some gp \<Rightarrow>
         out_bind (Delete M tx ''groups'' gp) (\<lambda>tx.
         Insert M tx ''index'' (ObjIndex \<lparr>ie_Key = ''groups'', ie_Value = idx\<rparr>)))"

definition DeleteGroup :: "'db memdb \<Rightarrow> 'db Store \<Rightarrow> uint64 \<Rightarrow> string \<Rightarrow> (string, 'db Store) outcome" where
  "DeleteGroup M s idx id' = out_bind (deleteGroupTxn M (st_db s) idx id') (\<lambda>db. Ok (s\<lparr>st_db := db\<rparr>))"

definition GetGroupsByCoordinator ::
    "'db memdb \<Rightarrow> 'db Store \<Rightarrow> int32 \<Rightarrow> (string, uint64 \<times> structs_Group list) outcome" where
  "GetGroupsByCoordinator M s coordinator =
     out_bind (maxIndexTxn M (st_db s) [''groups''] 0) (\<lambda>idx.
     out_bind (wrap_err ''group lookup failed'' (Get M (st_db s) ''groups'' ''coordinator'' [VInt32 coordinator])) (\<lambda>it.
     out_bind (assert_all as_Group it) (\<lambda>groups. Ok (idx, groups))))"

section \<open>Partitions\<close>

definition GetPartition :: "'db memdb \<Rightarrow> 'db Store \<Rightarrow> string \<Rightarrow> int32 \<Rightarrow> (string, uint64 \<times> structs_Partition option) outcome" where
  "GetPartition M s topic id' =
     out_bind (maxIndexTxn M (st_db s) [''partitions''] 0) (\<lambda>idx.
     out_bind (wrap_err ''partition lookup failed'' (First M (st_db s) ''partitions'' ''id'' [VString topic, VInt32 id'])) (\<lambda>part.
     out_bind (assert_found as_Partition part) (\<lambda>part. Ok (idx, part))))"

definition GetPartitions :: "'db memdb \<Rightarrow> 'db Store \<Rightarrow> (string, uint64 \<times> structs_Partition list) outcome" where
  "GetPartitions M s =
     out_bind (maxIndexTxn M (st_db s) [''partitions''] 0) (\<lambda>idx.
     out_bind (Get M (st_db s) ''partitions'' ''id'' []) (\<lambda>it.
     out_bind (assert_all as_Partition it) (\<lambda>partitions. Ok (idx, partitions))))"

definition ensurePartitionTxn :: "'db memdb \<Rightarrow> 'db \<Rightarrow> uint64 \<Rightarrow> structs_Partition \<Rightarrow> (string, 'db) outcome" where
  "ensurePartitionTxn M tx idx part =
     out_bind (wrap_err ''partition lookup failed'' (First M tx ''partitions'' ''id'' [VString (pt_Topic part), VInt32 (pt_Partition part)])) (\<lambda>existing.
     out_bind (assert_found as_Partition existing) (\<lambda>t.
     let part' = part\<lparr>pt_RaftIndex := restamp idx (map_option pt_RaftIndex t)\<rparr> in
     out_bind (wrap_err ''failed inserting partition'' (Insert M tx ''partitions'' (ObjPartition part'))) (\<lambda>tx.
     wrap_err ''failed updating index'' (Insert M tx ''index'' (ObjIndex \<lparr>ie_Key = ''partitions'', ie_Value = idx\<rparr>)))))"

definition EnsurePartition :: "'db memdb \<Rightarrow> 'db Store \<Rightarrow> uint64 \<Rightarrow> structs_Partition \<Rightarrow> (string, 'db Store) outcome" where
  "EnsurePartition M s idx part = out_bind (ensurePartitionTxn M (st_db s) idx part) (\<lambda>db. Ok (s\<lparr>st_db := db\<rparr>))"

definition deletePartitionTxn :: "'db memdb \<Rightarrow> 'db \<Rightarrow> uint64 \<Rightarrow> string \<Rightarrow> int32 \<Rightarrow> (string, 'db) outcome" where
  "deletePartitionTxn M tx idx topic id' =
     out_bind (First M tx ''partitions'' ''id'' [VString topic, VInt32 id']) (\<lambda>part.
     case part of None \<Rightarrow> Ok tx
     | Some part \<Rightarrow>
         out_bind (Delete M tx ''partitions'' part) (\<lambda>tx.
         Insert M tx ''index'' (ObjIndex \<lparr>ie_Key = ''partitions'', ie_Value = idx\<rparr>)))"

definition DeletePartition :: "'db memdb \<Rightarrow> 'db Store \<Rightarrow> uint64 \<Rightarrow> string \<Rightarrow> int32 \<Rightarrow> (string, 'db Store) outcome" where
  "DeletePartition M s idx topic id' = out_bind (deletePartitionTxn M (st_db s) idx topic id') (\<lambda>db. Ok (s\<lparr>st_db := db\<rparr>))"

definition PartitionsByLeader ::
    "'db memdb \<Rightarrow> 'db Store \<Rightarrow> int32 \<Rightarrow> (string, uint64 \<times> structs_Partition list) outcome" where
  "PartitionsByLeader M s leader =
     out_bind (maxIndexTxn M (st_db s) [''partitions''] 0) (\<lambda>idx.
     out_bind (Get M (st_db s) ''partitions'' ''leader'' [VInt32 leader]) (\<lambda>it.
     out_bind (assert_all as_Partition it) (\<lambda>partitions. Ok (idx, partitions))))"

section \<open>Invariant\<close>

text \<open>An object in its table under its key, and with a value for the key.\<close>

fun stored :: "'db memdb_view \<Rightarrow> string \<Rightarrow> bytes \<Rightarrow> db_obj \<Rightarrow> bool" where
  "stored V t k (ObjIndex e) \<longleftrightarrow> t = ''index'' \<and> k = string_key V True (ie_Key e)"
| "stored V t k (ObjNode n) \<longleftrightarrow> t = ''nodes'' \<and> k = int_key (nd_Node n)"
| "stored V t k (ObjTopic tp) \<longleftrightarrow> t = ''topics'' \<and> k = string_key V True (tp_Topic tp)"
| "stored V t k (ObjPartition p) \<longleftrightarrow> t = ''partitions'' \<and> k = string_key V False (pt_Topic p) @ int_key (pt_Partition p)"
| "stored V t k (ObjGroup g) \<longleftrightarrow> t = ''groups'' \<and> k = string_key V True (gr_Group g)"

fun has_name :: "db_obj \<Rightarrow> bool" where
  "has_name (ObjIndex e) \<longleftrightarrow> ie_Key e \<noteq> []"
| "has_name (ObjNode n) \<longleftrightarrow> True"
| "has_name (ObjTopic tp) \<longleftrightarrow> tp_Topic tp \<noteq> []"
| "has_name (ObjPartition p) \<longleftrightarrow> pt_Topic p \<noteq> []"
| "has_name (ObjGroup g) \<longleftrightarrow> gr_Group g \<noteq> []"

definition tables :: "'db memdb \<Rightarrow> (string \<times> TableSchema) list" where
  "tables M = [(''index'', indexTableSchema M), (''nodes'', nodesTableSchema M), (''topics'', topicsTableSchema M),
     (''partitions'', partitionsTableSchema M), (''groups'', groupTableSchema M)]"

lemmas schema_defs = indexTableSchema_def nodesTableSchema_def topicsTableSchema_def partitionsTableSchema_def
  groupTableSchema_def

definition db_ok :: "'db memdb \<Rightarrow> 'db memdb_view \<Rightarrow> 'db \<Rightarrow> bool" where
  "db_ok M V db \<longleftrightarrow> memdb_ok M V \<and> db_schema V db = tables M \<and>
     (\<forall>t k obj. db_rows V db t k = Some obj \<longrightarrow> stored V t k obj \<and> has_name obj)"

definition store_ok :: "'db memdb \<Rightarrow> 'db memdb_view \<Rightarrow> 'db Store \<Rightarrow> bool" where
  "store_ok M V s \<longleftrightarrow> db_ok M V (st_db s) \<and> st_schema s = map fst (tables M)"

lemma db_okD:
  assumes "db_ok M V db"
  shows "memdb_ok M V" "indexers_ok M V" "db_schema V db = tables M"
    "db_rows V db t k = Some obj \<Longrightarrow> stored V t k obj" "db_rows V db t k = Some obj \<Longrightarrow> has_name obj"
  using assms unfolding db_ok_def memdb_ok_def by blast+

lemma collect_schemas_tables: "collect_schemas (schemas M) [] = Ok (tables M)"
  by (simp add: schemas_def tables_def schema_defs)

lemma tables_valid: "schema_valid (tables M)"
  by (simp add: schema_valid_def tables_def schema_defs)

lemma id_index_tables [simp]:
  "id_index (indexTableSchema M) = StringFieldIndex M ''Key'' True"
  "id_index (nodesTableSchema M) = IntFieldIndex ''Node''"
  "id_index (topicsTableSchema M) = StringFieldIndex M ''Topic'' True"
  "id_index (partitionsTableSchema M) = CompoundIndex M [StringFieldIndex M ''Topic'' False, IntFieldIndex ''Partition'']"
  "id_index (groupTableSchema M) = StringFieldIndex M ''Group'' True"
  by (simp_all add: id_index_def schema_defs)

lemma string_index_key:
  "indexers_ok M V \<Longrightarrow> FieldByName obj f = VString n \<Longrightarrow>
   FromObject (StringFieldIndex M f lc) obj = Ok (if n = [] then [] else [string_key V lc n])"
  unfolding indexers_ok_def string_index_ok_def by (elim conjE allE impE) assumption+

lemma string_index_arg: "indexers_ok M V \<Longrightarrow> FromArgs (StringFieldIndex M f lc) [VString n] = Ok (string_key V lc n)"
  unfolding indexers_ok_def string_index_ok_def by (elim conjE allE)

lemma compound_index_key:
  "indexers_ok M V \<Longrightarrow> FromObject a obj = Ok [k] \<Longrightarrow> FromObject b obj = Ok [l] \<Longrightarrow>
   FromObject (CompoundIndex M [a, b]) obj = Ok [k @ l]"
  by (simp add: indexers_ok_def compound_index_ok_def)

lemma compound_index_missing:
  "indexers_ok M V \<Longrightarrow> FromObject a obj = Ok [] \<Longrightarrow> FromObject b obj = Ok [l] \<Longrightarrow>
   FromObject (CompoundIndex M [a, b]) obj = Ok []"
  by (simp add: indexers_ok_def compound_index_ok_def)

lemma compound_index_arg:
  "indexers_ok M V \<Longrightarrow> FromArgs a [u] = Ok k \<Longrightarrow> FromArgs b [v] = Ok l \<Longrightarrow>
   FromArgs (CompoundIndex M [a, b]) [u, v] = Ok (k @ l)"
  by (simp add: indexers_ok_def compound_index_ok_def)

lemma meta_index_key: "indexers_ok M V \<Longrightarrow> \<exists>ks. FromObject (StringMapFieldIndex M ''Meta'' False) (ObjNode nd) = Ok ks"
  by (simp add: indexers_ok_def map_index_ok_def)

lemma db_key_inject: "indexers_ok M V \<Longrightarrow> db_key V x = db_key V y \<longleftrightarrow> x = y"
  by (auto simp: indexers_ok_def string_keys_ok_def dest: injD)

lemma lower_id: "indexers_ok M V \<Longrightarrow> \<forall>c\<in>set x. c \<in> set ''abcdefghijklmnopqrstuvwxyz'' \<Longrightarrow> db_lower V x = x"
  by (simp add: indexers_ok_def string_keys_ok_def del: set_simps)

text \<open>The key under which an object is stored is the one its table's index computes.\<close>

lemma case_Ok_iff: "(case m of Ok ks \<Rightarrow> P ks | _ \<Rightarrow> False) \<longleftrightarrow> (\<exists>ks. m = Ok ks \<and> P ks)"
  by (cases m) simp_all

lemma indexable_tables:
  "indexable (indexTableSchema M) obj \<longleftrightarrow> (\<exists>ks. FromObject (StringFieldIndex M ''Key'' True) obj = Ok ks \<and> ks \<noteq> [])"
  "indexable (nodesTableSchema M) obj \<longleftrightarrow> (\<exists>ks. FromObject (IntFieldIndex ''Node'') obj = Ok ks \<and> ks \<noteq> []) \<and>
     (\<exists>ks. FromObject (StringMapFieldIndex M ''Meta'' False) obj = Ok ks)"
  "indexable (topicsTableSchema M) obj \<longleftrightarrow> (\<exists>ks. FromObject (StringFieldIndex M ''Topic'' True) obj = Ok ks \<and> ks \<noteq> [])"
  "indexable (groupTableSchema M) obj \<longleftrightarrow> (\<exists>ks. FromObject (StringFieldIndex M ''Group'' True) obj = Ok ks \<and> ks \<noteq> []) \<and>
     (\<exists>ks. FromObject (IntFieldIndex ''Coordinator'') obj = Ok ks \<and> ks \<noteq> [])"
  by (simp_all add: indexable_def schema_defs case_Ok_iff)

lemma stored_key:
  assumes "indexers_ok M V" and "stored V t k obj" and "has_name obj"
  shows "\<exists>ts. map_of (tables M) t = Some ts \<and> FromObject (id_index ts) obj = Ok [k] \<and> indexable ts obj"
proof (cases obj)
  case (ObjIndex e)
  with string_index_key [OF assms(1), of obj "''Key''" "ie_Key e" True] assms(2,3) show ?thesis
    by (simp add: tables_def indexable_tables)
next
  case (ObjNode n)
  with meta_index_key [OF assms(1), of n] assms(2) show ?thesis by (simp add: tables_def indexable_tables)
next
  case (ObjTopic tp)
  with string_index_key [OF assms(1), of obj "''Topic''" "tp_Topic tp" True] assms(2,3) show ?thesis
    by (simp add: tables_def indexable_tables)
next
  case (ObjPartition p)
  have str: "FromObject (StringFieldIndex M ''Topic'' False) obj = Ok [string_key V False (pt_Topic p)]"
    using string_index_key [OF assms(1), of obj "''Topic''" "pt_Topic p" False] assms(3) ObjPartition by simp
  have int: "FromObject (IntFieldIndex ''Partition'') obj = Ok [int_key (pt_Partition p)]"
    "FromObject (IntFieldIndex ''Leader'') obj = Ok [int_key (pt_Leader p)]"
    using ObjPartition by simp_all
  note id = compound_index_key [OF assms(1) str int(1)]
  have "indexable (partitionsTableSchema M) obj"
    using str int id unfolding indexable_def partitionsTableSchema_def by simp
  with id show ?thesis using assms(2) ObjPartition by (simp add: tables_def)
next
  case (ObjGroup g)
  with string_index_key [OF assms(1), of obj "''Group''" "gr_Group g" True] assms(2,3) show ?thesis
    by (simp add: tables_def indexable_tables)
qed

section \<open>Rows\<close>

lemma table_of_ok: "db_ok M V db \<Longrightarrow> table_of V db t = map_of (tables M) t"
  by (simp add: table_of_def db_okD(3))

lemma Insert_stored:
  assumes "db_ok M V db" and "stored V t k obj" and "has_name obj"
  shows "\<exists>db'. Insert M db t obj = Ok db' \<and> db_ok M V db' \<and>
    db_rows V db' = (db_rows V db)(t := (db_rows V db t)(k \<mapsto> obj))"
proof -
  obtain ts where ts: "map_of (tables M) t = Some ts" "FromObject (id_index ts) obj = Ok [k]" "indexable ts obj"
    using stored_key [OF db_okD(2) [OF assms(1)] assms(2,3)] by blast
  have "insert_ok M V" using db_okD(1) [OF assms(1)] by (simp add: memdb_ok_def)
  then obtain db' where db': "Insert M db t obj = Ok db'" "db_schema V db' = db_schema V db"
      "db_rows V db' = (db_rows V db)(t := (db_rows V db t)(k \<mapsto> obj))"
    using ts table_of_ok [OF assms(1), of t] unfolding insert_ok_def by metis
  have "db_ok M V db'"
    using db'(2,3) db_okD [OF assms(1)] assms(2,3) by (auto simp: db_ok_def split: if_splits)
  with db' show ?thesis by blast
qed

lemma Delete_stored:
  assumes "db_ok M V db" and "db_rows V db t k = Some obj"
  shows "\<exists>db'. Delete M db t obj = Ok db' \<and> db_ok M V db' \<and>
    db_rows V db' = (db_rows V db)(t := (db_rows V db t)(k := None))"
proof -
  obtain ts where ts: "map_of (tables M) t = Some ts" "FromObject (id_index ts) obj = Ok [k]"
    using stored_key [OF db_okD(2) [OF assms(1)] db_okD(4,5) [OF assms]] by blast
  have "delete_ok M V" using db_okD(1) [OF assms(1)] by (simp add: memdb_ok_def)
  then obtain db' where db': "Delete M db t obj = Ok db'" "db_schema V db' = db_schema V db"
      "db_rows V db' = (db_rows V db)(t := (db_rows V db t)(k := None))"
    using ts table_of_ok [OF assms(1), of t] assms(2) unfolding delete_ok_def by (metis domI)
  have "db_ok M V db'"
    using db'(2,3) db_okD [OF assms(1)] by (auto simp: db_ok_def split: if_splits)
  with db' show ?thesis by blast
qed

text \<open>The write and the entry of the index table that every change makes.\<close>

lemma index_stored: "indexers_ok M V \<Longrightarrow> t \<in> {''nodes'', ''topics'', ''partitions'', ''groups''} \<Longrightarrow>
  stored V ''index'' (db_key V t) (ObjIndex \<lparr>ie_Key = t, ie_Value = idx\<rparr>) \<and>
  has_name (ObjIndex \<lparr>ie_Key = t, ie_Value = idx\<rparr>)"
  using lower_id [of M V t] by (auto simp: string_key_def)

definition indexed :: "'db memdb_view \<Rightarrow> string \<Rightarrow> uint64 \<Rightarrow> (string \<Rightarrow> bytes \<rightharpoonup> db_obj) \<Rightarrow> string \<Rightarrow> bytes \<rightharpoonup> db_obj" where
  "indexed V t idx R = R(''index'' := (R ''index'')(db_key V t \<mapsto> ObjIndex \<lparr>ie_Key = t, ie_Value = idx\<rparr>))"

lemma Insert_indexed:
  assumes "db_ok M V db" and "t \<in> {''nodes'', ''topics'', ''partitions'', ''groups''}"
  shows "\<exists>db'. Insert M db ''index'' (ObjIndex \<lparr>ie_Key = t, ie_Value = idx\<rparr>) = Ok db' \<and> db_ok M V db' \<and>
    db_rows V db' = indexed V t idx (db_rows V db)"
  using Insert_stored [OF assms(1)] index_stored [OF db_okD(2) [OF assms(1)] assms(2)]
  unfolding indexed_def by blast

lemma First_row:
  assumes "db_ok M V db" and "map_of (tables M) t = Some ts" and "FromArgs (id_index ts) args = Ok k"
  shows "First M db t ''id'' args = Ok (db_rows V db t k)"
proof -
  have "first_ok M V" using db_okD(1) [OF assms(1)] by (simp add: memdb_ok_def)
  then show ?thesis
    using assms(2,3) table_of_ok [OF assms(1), of t] unfolding first_ok_def by metis
qed

lemma First_rows:
  assumes "db_ok M V db"
  shows "First M db ''index'' ''id'' [VString n] = Ok (db_rows V db ''index'' (string_key V True n))"
    "First M db ''nodes'' ''id'' [VInt32 i] = Ok (db_rows V db ''nodes'' (int_key i))"
    "First M db ''topics'' ''id'' [VString n] = Ok (db_rows V db ''topics'' (string_key V True n))"
    "First M db ''partitions'' ''id'' [VString n, VInt32 i] =
       Ok (db_rows V db ''partitions'' (string_key V False n @ int_key i))"
    "First M db ''groups'' ''id'' [VString n] = Ok (db_rows V db ''groups'' (string_key V True n))"
proof -
  note ix = db_okD(2) [OF assms]
  note args = string_index_arg [OF ix] compound_index_arg [OF ix string_index_arg [OF ix] IntFieldIndex_arg_key]
  show "First M db ''index'' ''id'' [VString n] = Ok (db_rows V db ''index'' (string_key V True n))"
    by (rule First_row [OF assms, where ts = "indexTableSchema M"]) (simp_all add: tables_def args)
  show "First M db ''nodes'' ''id'' [VInt32 i] = Ok (db_rows V db ''nodes'' (int_key i))"
    by (rule First_row [OF assms, where ts = "nodesTableSchema M"]) (simp_all add: tables_def)
  show "First M db ''topics'' ''id'' [VString n] = Ok (db_rows V db ''topics'' (string_key V True n))"
    by (rule First_row [OF assms, where ts = "topicsTableSchema M"]) (simp_all add: tables_def args)
  show "First M db ''partitions'' ''id'' [VString n, VInt32 i] =
      Ok (db_rows V db ''partitions'' (string_key V False n @ int_key i))"
    by (rule First_row [OF assms, where ts = "partitionsTableSchema M"]) (simp_all add: tables_def args)
  show "First M db ''groups'' ''id'' [VString n] = Ok (db_rows V db ''groups'' (string_key V True n))"
    by (rule First_row [OF assms, where ts = "groupTableSchema M"]) (simp_all add: tables_def args)
qed

lemma Get_rows:
  assumes "db_ok M V db" and "map_of (tables M) t = Some ts"
  shows "\<exists>objs. Get M db t ''id'' [] = Ok objs \<and> set objs = ran (db_rows V db t)"
    "map_of (ts_Indexes ts) i = Some ix \<Longrightarrow> args \<noteq> [] \<Longrightarrow> FromArgs (is_Indexer ix) args = Ok k \<Longrightarrow>
      \<exists>objs. Get M db t i args = Ok objs \<and>
        set objs = {obj \<in> ran (db_rows V db t). \<exists>ks. FromObject (is_Indexer ix) obj = Ok ks \<and> k \<in> set ks}"
proof -
  have "get_ok M V" using db_okD(1) [OF assms(1)] by (simp add: memdb_ok_def)
  moreover have "table_of V db t = Some ts" using table_of_ok [OF assms(1)] assms(2) by simp
  ultimately show "\<exists>objs. Get M db t ''id'' [] = Ok objs \<and> set objs = ran (db_rows V db t)"
    "map_of (ts_Indexes ts) i = Some ix \<Longrightarrow> args \<noteq> [] \<Longrightarrow> FromArgs (is_Indexer ix) args = Ok k \<Longrightarrow>
      \<exists>objs. Get M db t i args = Ok objs \<and>
        set objs = {obj \<in> ran (db_rows V db t). \<exists>ks. FromObject (is_Indexer ix) obj = Ok ks \<and> k \<in> set ks}"
    unfolding get_ok_def by blast+
qed

lemma NewStore_ok:
  assumes "memdb_ok M V"
  shows "\<exists>s. NewStore M = Ok s \<and> store_ok M V s \<and> db_rows V (st_db s) = (\<lambda>_ _. None) \<and> \<not> st_abandoned s"
proof -
  have "new_ok M V" using assms by (simp add: memdb_ok_def)
  then obtain db where db: "NewMemDB M (tables M) = Ok db" "db_schema V db = tables M" "db_rows V db = (\<lambda>_ _. None)"
    using tables_valid unfolding new_ok_def by blast
  with assms show ?thesis
    by (simp add: NewStore_def collect_schemas_tables store_ok_def db_ok_def)
qed

section \<open>The abstract catalogue\<close>

text \<open>
  What the store means: finite maps from names to records.  Topics and groups are found by their
  lower case names, partitions by the exact name of their topic.
\<close>

record catalog =
  cat_index :: "string \<rightharpoonup> uint64"
  cat_nodes :: "int32 \<rightharpoonup> structs_Node"
  cat_topics :: "string \<rightharpoonup> structs_Topic"
  cat_groups :: "string \<rightharpoonup> structs_Group"
  cat_partitions :: "string \<times> int32 \<rightharpoonup> structs_Partition"

definition catalog_of :: "'db memdb_view \<Rightarrow> (string \<Rightarrow> bytes \<rightharpoonup> db_obj) \<Rightarrow> catalog" where
  "catalog_of V R =
     \<lparr>cat_index = (\<lambda>t. map_option ie_Value (Option.bind (R ''index'' (db_key V t)) as_Index)),
      cat_nodes = (\<lambda>i. Option.bind (R ''nodes'' (int_key i)) as_Node),
      cat_topics = (\<lambda>n. Option.bind (R ''topics'' (db_key V n)) as_Topic),
      cat_groups = (\<lambda>n. Option.bind (R ''groups'' (db_key V n)) as_Group),
      cat_partitions = (\<lambda>(n, i). Option.bind (R ''partitions'' (db_key V n @ int_key i)) as_Partition)\<rparr>"

definition catalog_abs :: "'db memdb_view \<Rightarrow> 'db Store \<Rightarrow> catalog" where
  "catalog_abs V s = catalog_of V (db_rows V (st_db s))"

definition touch :: "string \<Rightarrow> uint64 \<Rightarrow> catalog \<Rightarrow> catalog" where
  "touch t idx c = c\<lparr>cat_index := (cat_index c)(t \<mapsto> idx)\<rparr>"

definition spec_EnsureNode :: "uint64 \<Rightarrow> structs_Node \<Rightarrow> catalog \<Rightarrow> catalog" where
  "spec_EnsureNode idx n c = touch ''nodes'' idx (c\<lparr>cat_nodes := (cat_nodes c)(nd_Node n \<mapsto>
     n\<lparr>nd_RaftIndex := restamp idx (map_option nd_RaftIndex (cat_nodes c (nd_Node n)))\<rparr>)\<rparr>)"

definition spec_DeleteNode :: "uint64 \<Rightarrow> int32 \<Rightarrow> catalog \<Rightarrow> catalog" where
  "spec_DeleteNode idx i c =
     (if cat_nodes c i = None then c else touch ''nodes'' idx (c\<lparr>cat_nodes := (cat_nodes c)(i := None)\<rparr>))"

definition spec_EnsureTopic :: "(string \<Rightarrow> string) \<Rightarrow> uint64 \<Rightarrow> structs_Topic \<Rightarrow> catalog \<Rightarrow> catalog" where
  "spec_EnsureTopic lower idx t c = touch ''topics'' idx (c\<lparr>cat_topics := (cat_topics c)(lower (tp_Topic t) \<mapsto>
     t\<lparr>tp_Config := Some (case tp_Config t of None \<Rightarrow> NewTopicConfig | Some cfg \<Rightarrow> cfg),
       tp_RaftIndex := restamp idx (map_option tp_RaftIndex (cat_topics c (lower (tp_Topic t))))\<rparr>)\<rparr>)"

definition spec_DeleteTopic :: "(string \<Rightarrow> string) \<Rightarrow> uint64 \<Rightarrow> string \<Rightarrow> catalog \<Rightarrow> catalog" where
  "spec_DeleteTopic lower idx n c =
     (if cat_topics c (lower n) = None then c
      else touch ''topics'' idx (c\<lparr>cat_topics := (cat_topics c)(lower n := None)\<rparr>))"

definition spec_EnsureGroup :: "(string \<Rightarrow> string) \<Rightarrow> uint64 \<Rightarrow> structs_Group \<Rightarrow> catalog \<Rightarrow> catalog" where
  "spec_EnsureGroup lower idx g c = touch ''groups'' idx (c\<lparr>cat_groups := (cat_groups c)(lower (gr_Group g) \<mapsto>
     g\<lparr>gr_RaftIndex := restamp idx (map_option gr_RaftIndex (cat_groups c (lower (gr_Group g))))\<rparr>)\<rparr>)"

definition spec_DeleteGroup :: "(string \<Rightarrow> string) \<Rightarrow> uint64 \<Rightarrow> string \<Rightarrow> catalog \<Rightarrow> catalog" where
  "spec_DeleteGroup lower idx n c =
     (if cat_groups c (lower n) = None then c
      else touch ''groups'' idx (c\<lparr>cat_groups := (cat_groups c)(lower n := None)\<rparr>))"

definition spec_EnsurePartition :: "uint64 \<Rightarrow> structs_Partition \<Rightarrow> catalog \<Rightarrow> catalog" where
  "spec_EnsurePartition idx p c = touch ''partitions'' idx (c\<lparr>cat_partitions :=
     (cat_partitions c)((pt_Topic p, pt_Partition p) \<mapsto>
       p\<lparr>pt_RaftIndex := restamp idx (map_option pt_RaftIndex (cat_partitions c (pt_Topic p, pt_Partition p)))\<rparr>)\<rparr>)"

definition spec_DeletePartition :: "uint64 \<Rightarrow> string \<Rightarrow> int32 \<Rightarrow> catalog \<Rightarrow> catalog" where
  "spec_DeletePartition idx n i c =
     (if cat_partitions c (n, i) = None then c
      else touch ''partitions'' idx (c\<lparr>cat_partitions := (cat_partitions c)((n, i) := None)\<rparr>))"

lemmas spec_defs = spec_EnsureNode_def spec_DeleteNode_def spec_EnsureTopic_def spec_DeleteTopic_def
  spec_EnsureGroup_def spec_DeleteGroup_def spec_EnsurePartition_def spec_DeletePartition_def

section \<open>The store implements the catalogue\<close>

lemma ensure_rows:
  assumes "db_ok M V db" and "stored V t k obj" and "has_name obj"
    and "t \<in> {''nodes'', ''topics'', ''partitions'', ''groups''}"
  shows "\<exists>db'. out_bind (wrap_err a (Insert M db t obj)) (\<lambda>tx.
      wrap_err b (Insert M tx ''index'' (ObjIndex \<lparr>ie_Key = t, ie_Value = idx\<rparr>))) = Ok db' \<and> db_ok M V db' \<and>
    db_rows V db' = indexed V t idx ((db_rows V db)(t := (db_rows V db t)(k \<mapsto> obj)))"
proof -
  obtain tx where tx: "Insert M db t obj = Ok tx" "db_ok M V tx"
      "db_rows V tx = (db_rows V db)(t := (db_rows V db t)(k \<mapsto> obj))"
    using Insert_stored [OF assms(1-3)] by blast
  from Insert_indexed [OF tx(2) assms(4), of idx] obtain db' where
    "Insert M tx ''index'' (ObjIndex \<lparr>ie_Key = t, ie_Value = idx\<rparr>) = Ok db'" "db_ok M V db'"
    "db_rows V db' = indexed V t idx (db_rows V tx)" by blast
  with tx show ?thesis by simp
qed

lemma delete_rows:
  assumes "db_ok M V db" and "t \<in> {''nodes'', ''topics'', ''partitions'', ''groups''}"
  shows "\<exists>db'. (case db_rows V db t k of None \<Rightarrow> Ok db
      | Some obj \<Rightarrow> out_bind (Delete M db t obj) (\<lambda>tx.
          Insert M tx ''index'' (ObjIndex \<lparr>ie_Key = t, ie_Value = idx\<rparr>))) = Ok db' \<and> db_ok M V db' \<and>
    db_rows V db' = (if db_rows V db t k = None then db_rows V db
      else indexed V t idx ((db_rows V db)(t := (db_rows V db t)(k := None))))"
proof (cases "db_rows V db t k")
  case (Some obj)
  obtain tx where tx: "Delete M db t obj = Ok tx" "db_ok M V tx"
      "db_rows V tx = (db_rows V db)(t := (db_rows V db t)(k := None))"
    using Delete_stored [OF assms(1) Some] by blast
  from Insert_indexed [OF tx(2) assms(2), of idx] obtain db' where
    "Insert M tx ''index'' (ObjIndex \<lparr>ie_Key = t, ie_Value = idx\<rparr>) = Ok db'" "db_ok M V db'"
    "db_rows V db' = indexed V t idx (db_rows V tx)" by blast
  with tx Some show ?thesis by simp
qed (use assms in simp)

text \<open>Every table holds objects of its own type, so no type assertion fails.\<close>

lemma row_type:
  assumes "db_ok M V db" and "db_rows V db t k = Some obj"
  shows "t = ''nodes'' \<Longrightarrow> \<exists>n. obj = ObjNode n" "t = ''topics'' \<Longrightarrow> \<exists>n. obj = ObjTopic n"
    "t = ''partitions'' \<Longrightarrow> \<exists>n. obj = ObjPartition n" "t = ''groups'' \<Longrightarrow> \<exists>n. obj = ObjGroup n"
    "t = ''index'' \<Longrightarrow> \<exists>n. obj = ObjIndex n"
  using db_okD(4) [OF assms] by (cases obj; simp)+

lemma assert_found_typed:
  assumes "\<And>obj. r = Some obj \<Longrightarrow> \<exists>x. as obj = Some x"
  shows "assert_found as r = Ok (Option.bind r as)"
proof (cases r)
  case (Some obj)
  with assms obtain x where "as obj = Some x" by blast
  with Some show ?thesis by (simp add: assert_type_def)
qed simp

lemma assert_found_rows:
  assumes "db_ok M V db"
  shows "assert_found as_Node (db_rows V db ''nodes'' k) = Ok (Option.bind (db_rows V db ''nodes'' k) as_Node)"
    "assert_found as_Topic (db_rows V db ''topics'' k) = Ok (Option.bind (db_rows V db ''topics'' k) as_Topic)"
    "assert_found as_Partition (db_rows V db ''partitions'' k) = Ok (Option.bind (db_rows V db ''partitions'' k) as_Partition)"
    "assert_found as_Group (db_rows V db ''groups'' k) = Ok (Option.bind (db_rows V db ''groups'' k) as_Group)"
  by (rule assert_found_typed, drule row_type [OF assms], simp, force)+

text \<open>How a change of the rows shows in the catalogue.\<close>

lemma catalog_indexed:
  assumes "indexers_ok M V"
  shows "catalog_of V (indexed V t idx R) = touch t idx (catalog_of V R)"
  by (auto simp: catalog_of_def indexed_def touch_def db_key_inject [OF assms] fun_eq_iff)

lemma catalog_write:
  assumes "indexers_ok M V"
  shows "catalog_of V (R(''nodes'' := (R ''nodes'')(int_key i := r))) =
      (catalog_of V R)\<lparr>cat_nodes := (cat_nodes (catalog_of V R))(i := Option.bind r as_Node)\<rparr>"
    "catalog_of V (R(''topics'' := (R ''topics'')(db_key V n := r))) =
      (catalog_of V R)\<lparr>cat_topics := (cat_topics (catalog_of V R))(n := Option.bind r as_Topic)\<rparr>"
    "catalog_of V (R(''groups'' := (R ''groups'')(db_key V n := r))) =
      (catalog_of V R)\<lparr>cat_groups := (cat_groups (catalog_of V R))(n := Option.bind r as_Group)\<rparr>"
    "catalog_of V (R(''partitions'' := (R ''partitions'')(db_key V n @ int_key i := r))) =
      (catalog_of V R)\<lparr>cat_partitions := (cat_partitions (catalog_of V R))((n, i) := Option.bind r as_Partition)\<rparr>"
  by (auto simp: catalog_of_def db_key_inject [OF assms] fun_eq_iff)

lemma catalog_select:
  "cat_nodes (catalog_of V R) i = Option.bind (R ''nodes'' (int_key i)) as_Node"
  "cat_topics (catalog_of V R) n = Option.bind (R ''topics'' (db_key V n)) as_Topic"
  "cat_groups (catalog_of V R) n = Option.bind (R ''groups'' (db_key V n)) as_Group"
  "cat_partitions (catalog_of V R) (n, i) = Option.bind (R ''partitions'' (db_key V n @ int_key i)) as_Partition"
  by (simp_all add: catalog_of_def)

lemma bind_typed_None: "(\<And>obj. r = Some obj \<Longrightarrow> \<exists>x. as obj = Some x) \<Longrightarrow> Option.bind r as = None \<longleftrightarrow> r = None"
  by (cases r) fastforce+

lemma catalog_None:
  assumes "db_ok M V db"
  shows "cat_nodes (catalog_of V (db_rows V db)) i = None \<longleftrightarrow> db_rows V db ''nodes'' (int_key i) = None"
    "cat_topics (catalog_of V (db_rows V db)) n = None \<longleftrightarrow> db_rows V db ''topics'' (db_key V n) = None"
    "cat_groups (catalog_of V (db_rows V db)) n = None \<longleftrightarrow> db_rows V db ''groups'' (db_key V n) = None"
    "cat_partitions (catalog_of V (db_rows V db)) (n, i) = None \<longleftrightarrow>
       db_rows V db ''partitions'' (db_key V n @ int_key i) = None"
  unfolding catalog_select by (rule bind_typed_None, drule row_type [OF assms], simp, force)+

text \<open>What it means that an operation on the store implements one on the catalogue.\<close>

definition implements :: "'db memdb \<Rightarrow> 'db memdb_view \<Rightarrow> 'db Store \<Rightarrow> (string, 'db Store) outcome \<Rightarrow>
    (catalog \<Rightarrow> catalog) \<Rightarrow> bool" where
  "implements M V s m f \<longleftrightarrow> (\<exists>s'. m = Ok s' \<and> store_ok M V s' \<and> catalog_abs V s' = f (catalog_abs V s) \<and>
     st_abandoned s' = st_abandoned s)"

lemma implementsI:
  assumes "store_ok M V s" and "m = Ok db" and "db_ok M V db" and "catalog_of V (db_rows V db) = f (catalog_abs V s)"
  shows "implements M V s (out_bind m (\<lambda>db. Ok (s\<lparr>st_db := db\<rparr>))) f"
  using assms by (simp add: implements_def store_ok_def catalog_abs_def)

lemma EnsureNode_implements:
  assumes "store_ok M V s"
  shows "implements M V s (EnsureNode M s idx n) (spec_EnsureNode idx n)"
proof -
  let ?db = "st_db s" and ?R = "db_rows V (st_db s)" and ?k = "int_key (nd_Node n)"
  have ok: "db_ok M V ?db" using assms(1) by (simp add: store_ok_def)
  let ?x = "n\<lparr>nd_RaftIndex := restamp idx (map_option nd_RaftIndex (Option.bind (?R ''nodes'' ?k) as_Node))\<rparr>"
  have "stored V ''nodes'' ?k (ObjNode ?x)" and "has_name (ObjNode ?x)"
    using assms by (simp_all add: string_key_def)
  from ensure_rows [OF ok this, of "''failed inserting node''" "''failed updating index''" idx] obtain db where
    "out_bind (wrap_err ''failed inserting node'' (Insert M ?db ''nodes'' (ObjNode ?x))) (\<lambda>tx.
      wrap_err ''failed updating index'' (Insert M tx ''index'' (ObjIndex \<lparr>ie_Key = ''nodes'', ie_Value = idx\<rparr>))) = Ok db"
    and db: "db_ok M V db" "db_rows V db = indexed V ''nodes'' idx (?R(''nodes'' := (?R ''nodes'')(?k \<mapsto> ObjNode ?x)))"
    by auto
  then have "ensureNodeTxn M ?db idx n = Ok db"
    by (simp add: ensureNodeTxn_def First_rows [OF ok] assert_found_rows [OF ok] string_key_def)
  then show ?thesis
    unfolding EnsureNode_def
    by (rule implementsI [OF assms(1) _ db(1)])
      (simp add: db(2) catalog_indexed [OF db_okD(2) [OF ok]] catalog_write [OF db_okD(2) [OF ok]] catalog_abs_def
        catalog_select spec_EnsureNode_def)
qed

lemma DeleteNode_implements:
  assumes "store_ok M V s"
  shows "implements M V s (DeleteNode M s idx i) (spec_DeleteNode idx i)"
proof -
  let ?db = "st_db s" and ?R = "db_rows V (st_db s)" and ?k = "int_key i"
  have ok: "db_ok M V ?db" using assms by (simp add: store_ok_def)
  from delete_rows [OF ok, where t = "''nodes''" and k = ?k and idx = idx] obtain db where
    "deleteNodeTxn M ?db idx i = Ok db"
    and db: "db_ok M V db" "db_rows V db = (if ?R ''nodes'' ?k = None then ?R
      else indexed V ''nodes'' idx (?R(''nodes'' := (?R ''nodes'')(?k := None))))"
    by (auto simp: deleteNodeTxn_def First_rows [OF ok] string_key_def)
  then show ?thesis
    unfolding DeleteNode_def
    by (intro implementsI [OF assms _ db(1)])
      (simp_all add: db(2) catalog_indexed [OF db_okD(2) [OF ok]] catalog_write [OF db_okD(2) [OF ok]] catalog_abs_def
        catalog_None [OF ok] spec_DeleteNode_def)
qed

lemma EnsureTopic_implements:
  assumes "store_ok M V s" and "tp_Topic t \<noteq> []"
  shows "implements M V s (EnsureTopic M s idx t) (spec_EnsureTopic (db_lower V) idx t)"
proof -
  let ?db = "st_db s" and ?R = "db_rows V (st_db s)" and ?k = "db_key V (db_lower V (tp_Topic t))"
  have ok: "db_ok M V ?db" using assms(1) by (simp add: store_ok_def)
  define t' where "t' = (if tp_Config t = None then t\<lparr>tp_Config := Some NewTopicConfig\<rparr> else t)"
  have name: "tp_Topic t' = tp_Topic t" by (simp add: t'_def)
  let ?x = "t'\<lparr>tp_RaftIndex := restamp idx (map_option tp_RaftIndex (Option.bind (?R ''topics'' ?k) as_Topic))\<rparr>"
  have "stored V ''topics'' ?k (ObjTopic ?x)" and "has_name (ObjTopic ?x)"
    using assms by (simp_all add: string_key_def name)
  from ensure_rows [OF ok this, of "''failed inserting topic''" "''failed updating index''" idx] obtain db where
    "out_bind (wrap_err ''failed inserting topic'' (Insert M ?db ''topics'' (ObjTopic ?x))) (\<lambda>tx.
      wrap_err ''failed updating index'' (Insert M tx ''index'' (ObjIndex \<lparr>ie_Key = ''topics'', ie_Value = idx\<rparr>))) = Ok db"
    and db: "db_ok M V db" "db_rows V db = indexed V ''topics'' idx (?R(''topics'' := (?R ''topics'')(?k \<mapsto> ObjTopic ?x)))"
    by auto
  then have "ensureTopicTxn M ?db idx t' = Ok db"
    by (simp add: ensureTopicTxn_def First_rows [OF ok] assert_found_rows [OF ok] string_key_def name)
  moreover have "t'\<lparr>tp_RaftIndex := r\<rparr> =
      t\<lparr>tp_Config := Some (case tp_Config t of None \<Rightarrow> NewTopicConfig | Some cfg \<Rightarrow> cfg), tp_RaftIndex := r\<rparr>" for r
    by (cases "tp_Config t") (simp_all add: t'_def)
  ultimately show ?thesis
    unfolding EnsureTopic_def Let_def t'_def [symmetric]
    by (intro implementsI [OF assms(1) _ db(1)])
      (simp_all add: db(2) catalog_indexed [OF db_okD(2) [OF ok]] catalog_write [OF db_okD(2) [OF ok]] catalog_abs_def
        catalog_select spec_EnsureTopic_def)
qed

lemma DeleteTopic_implements:
  assumes "store_ok M V s"
  shows "implements M V s (DeleteTopic M s idx n) (spec_DeleteTopic (db_lower V) idx n)"
proof -
  let ?db = "st_db s" and ?R = "db_rows V (st_db s)" and ?k = "db_key V (db_lower V n)"
  have ok: "db_ok M V ?db" using assms by (simp add: store_ok_def)
  from delete_rows [OF ok, where t = "''topics''" and k = ?k and idx = idx] obtain db where
    "deleteTopicTxn M ?db idx n = Ok db"
    and db: "db_ok M V db" "db_rows V db = (if ?R ''topics'' ?k = None then ?R
      else indexed V ''topics'' idx (?R(''topics'' := (?R ''topics'')(?k := None))))"
    by (auto simp: deleteTopicTxn_def First_rows [OF ok] string_key_def)
  then show ?thesis
    unfolding DeleteTopic_def
    by (intro implementsI [OF assms _ db(1)])
      (simp_all add: db(2) catalog_indexed [OF db_okD(2) [OF ok]] catalog_write [OF db_okD(2) [OF ok]] catalog_abs_def
        catalog_None [OF ok] spec_DeleteTopic_def)
qed

lemma EnsureGroup_implements:
  assumes "store_ok M V s" and "gr_Group g \<noteq> []"
  shows "implements M V s (EnsureGroup M s idx g) (spec_EnsureGroup (db_lower V) idx g)"
proof -
  let ?db = "st_db s" and ?R = "db_rows V (st_db s)" and ?k = "db_key V (db_lower V (gr_Group g))"
  have ok: "db_ok M V ?db" using assms(1) by (simp add: store_ok_def)
  let ?x = "g\<lparr>gr_RaftIndex := restamp idx (map_option gr_RaftIndex (Option.bind (?R ''groups'' ?k) as_Group))\<rparr>"
  have "stored V ''groups'' ?k (ObjGroup ?x)" and "has_name (ObjGroup ?x)"
    using assms by (simp_all add: string_key_def)
  from ensure_rows [OF ok this, of "''failed inserting group''" "''failed updating index''" idx] obtain db where
    "out_bind (wrap_err ''failed inserting group'' (Insert M ?db ''groups'' (ObjGroup ?x))) (\<lambda>tx.
      wrap_err ''failed updating index'' (Insert M tx ''index'' (ObjIndex \<lparr>ie_Key = ''groups'', ie_Value = idx\<rparr>))) = Ok db"
    and db: "db_ok M V db" "db_rows V db = indexed V ''groups'' idx (?R(''groups'' := (?R ''groups'')(?k \<mapsto> ObjGroup ?x)))"
    by auto
  then have "ensureGroupTxn M ?db idx g = Ok db"
    by (simp add: ensureGroupTxn_def First_rows [OF ok] assert_found_rows [OF ok] string_key_def)
  then show ?thesis
    unfolding EnsureGroup_def
    by (rule implementsI [OF assms(1) _ db(1)])
      (simp add: db(2) catalog_indexed [OF db_okD(2) [OF ok]] catalog_write [OF db_okD(2) [OF ok]] catalog_abs_def
        catalog_select spec_EnsureGroup_def)
qed

lemma DeleteGroup_implements:
  assumes "store_ok M V s"
  shows "implements M V s (DeleteGroup M s idx n) (spec_DeleteGroup (db_lower V) idx n)"
proof -
  let ?db = "st_db s" and ?R = "db_rows V (st_db s)" and ?k = "db_key V (db_lower V n)"
  have ok: "db_ok M V ?db" using assms by (simp add: store_ok_def)
  from delete_rows [OF ok, where t = "''groups''" and k = ?k and idx = idx] obtain db where
    "deleteGroupTxn M ?db idx n = Ok db"
    and db: "db_ok M V db" "db_rows V db = (if ?R ''groups'' ?k = None then ?R
      else indexed V ''groups'' idx (?R(''groups'' := (?R ''groups'')(?k := None))))"
    by (auto simp: deleteGroupTxn_def First_rows [OF ok] string_key_def)
  then show ?thesis
    unfolding DeleteGroup_def
    by (intro implementsI [OF assms _ db(1)])
      (simp_all add: db(2) catalog_indexed [OF db_okD(2) [OF ok]] catalog_write [OF db_okD(2) [OF ok]] catalog_abs_def
        catalog_None [OF ok] spec_DeleteGroup_def)
qed

lemma EnsurePartition_implements:
  assumes "store_ok M V s" and "pt_Topic p \<noteq> []"
  shows "implements M V s (EnsurePartition M s idx p) (spec_EnsurePartition idx p)"
proof -
  let ?db = "st_db s" and ?R = "db_rows V (st_db s)" and ?k = "db_key V (pt_Topic p) @ int_key (pt_Partition p)"
  have ok: "db_ok M V ?db" using assms(1) by (simp add: store_ok_def)
  let ?x = "p\<lparr>pt_RaftIndex := restamp idx (map_option pt_RaftIndex (Option.bind (?R ''partitions'' ?k) as_Partition))\<rparr>"
  have "stored V ''partitions'' ?k (ObjPartition ?x)" and "has_name (ObjPartition ?x)"
    using assms by (simp_all add: string_key_def)
  from ensure_rows [OF ok this, of "''failed inserting partition''" "''failed updating index''" idx] obtain db where
    "out_bind (wrap_err ''failed inserting partition'' (Insert M ?db ''partitions'' (ObjPartition ?x))) (\<lambda>tx.
      wrap_err ''failed updating index'' (Insert M tx ''index'' (ObjIndex \<lparr>ie_Key = ''partitions'', ie_Value = idx\<rparr>))) = Ok db"
    and db: "db_ok M V db" "db_rows V db = indexed V ''partitions'' idx (?R(''partitions'' := (?R ''partitions'')(?k \<mapsto> ObjPartition ?x)))"
    by auto
  then have "ensurePartitionTxn M ?db idx p = Ok db"
    by (simp add: ensurePartitionTxn_def First_rows [OF ok] assert_found_rows [OF ok] string_key_def)
  then show ?thesis
    unfolding EnsurePartition_def
    by (rule implementsI [OF assms(1) _ db(1)])
      (simp add: db(2) catalog_indexed [OF db_okD(2) [OF ok]] catalog_write [OF db_okD(2) [OF ok]] catalog_abs_def
        catalog_select spec_EnsurePartition_def)
qed

lemma DeletePartition_implements:
  assumes "store_ok M V s"
  shows "implements M V s (DeletePartition M s idx n i) (spec_DeletePartition idx n i)"
proof -
  let ?db = "st_db s" and ?R = "db_rows V (st_db s)" and ?k = "db_key V n @ int_key i"
  have ok: "db_ok M V ?db" using assms by (simp add: store_ok_def)
  from delete_rows [OF ok, where t = "''partitions''" and k = ?k and idx = idx] obtain db where
    "deletePartitionTxn M ?db idx n i = Ok db"
    and db: "db_ok M V db" "db_rows V db = (if ?R ''partitions'' ?k = None then ?R
      else indexed V ''partitions'' idx (?R(''partitions'' := (?R ''partitions'')(?k := None))))"
    by (auto simp: deletePartitionTxn_def First_rows [OF ok] string_key_def)
  then show ?thesis
    unfolding DeletePartition_def
    by (intro implementsI [OF assms _ db(1)])
      (simp_all add: db(2) catalog_indexed [OF db_okD(2) [OF ok]] catalog_write [OF db_okD(2) [OF ok]] catalog_abs_def
        catalog_None [OF ok] spec_DeletePartition_def)
qed

lemma EnsureRegistration_implements:
  assumes "store_ok M V s"
  shows "implements M V s (EnsureRegistration M s idx n)
    (\<lambda>c. if cat_nodes c (nd_Node n) = None then spec_EnsureNode idx n c else c)"
proof -
  have ok: "db_ok M V (st_db s)" using assms by (simp add: store_ok_def)
  show ?thesis
  proof (cases "db_rows V (st_db s) ''nodes'' (int_key (nd_Node n))")
    case None
    then have "cat_nodes (catalog_abs V s) (nd_Node n) = None"
      by (simp add: catalog_abs_def catalog_None [OF ok])
    moreover have "EnsureRegistration M s idx n = EnsureNode M s idx n"
      by (simp add: EnsureRegistration_def ensureRegistration_def EnsureNode_def First_rows [OF ok] None)
    ultimately show ?thesis
      using EnsureNode_implements [OF assms, of idx n] by (simp add: implements_def)
  next
    case (Some obj)
    then have "cat_nodes (catalog_abs V s) (nd_Node n) \<noteq> None"
      by (simp add: catalog_abs_def catalog_None [OF ok])
    moreover have "EnsureRegistration M s idx n = Ok s"
      by (simp add: EnsureRegistration_def ensureRegistration_def First_rows [OF ok] Some)
    ultimately show ?thesis using assms by (auto simp: implements_def)
  qed
qed

subsection \<open>Reads\<close>

definition last_index :: "catalog \<Rightarrow> string \<Rightarrow> uint64" where
  "last_index c t = (case cat_index c t of Some v \<Rightarrow> v | None \<Rightarrow> 0)"

lemma maxIndexTxn_last:
  assumes "db_ok M V db" and "t \<in> {''nodes'', ''topics'', ''partitions'', ''groups''}"
  shows "maxIndexTxn M db [t] 0 = Ok (last_index (catalog_of V (db_rows V db)) t)"
proof -
  have "db_lower V t = t" using lower_id [OF db_okD(2) [OF assms(1)], of t] assms(2) by auto
  then have key: "string_key V True t = db_key V t" by (simp add: string_key_def)
  have "db_rows V db ''index'' (db_key V t) = Some obj \<Longrightarrow> \<exists>e. obj = ObjIndex e" for obj
    by (rule row_type(5) [OF assms(1) _ refl])
  then show ?thesis
    by (cases "db_rows V db ''index'' (db_key V t)")
      (fastforce simp: First_rows(1) [OF assms(1)] key last_index_def catalog_of_def word_greater_zero_iff)+
qed

lemma assert_all_typed:
  assumes "\<And>obj. obj \<in> set objs \<Longrightarrow> \<exists>x. as obj = Some x"
  shows "\<exists>xs. assert_all as objs = Ok xs \<and> set xs = {x. \<exists>obj\<in>set objs. as obj = Some x}"
  using assms
proof (induction objs)
  case (Cons obj objs)
  then obtain xs where "assert_all as objs = Ok xs" "set xs = {x. \<exists>obj\<in>set objs. as obj = Some x}" by auto
  moreover from Cons.prems obtain x where "as obj = Some x" by auto
  ultimately show ?case by (auto simp: assert_type_def)
qed simp

lemma Get_laws:
  assumes "store_ok M V s"
  shows "GetNode M s i = Ok (last_index (catalog_abs V s) ''nodes'', cat_nodes (catalog_abs V s) i)"
    "GetTopic M s n = Ok (last_index (catalog_abs V s) ''topics'', cat_topics (catalog_abs V s) (db_lower V n))"
    "GetGroup M s n = Ok (last_index (catalog_abs V s) ''groups'', cat_groups (catalog_abs V s) (db_lower V n))"
    "GetPartition M s n i =
       Ok (last_index (catalog_abs V s) ''partitions'', cat_partitions (catalog_abs V s) (n, i))"
proof -
  have ok: "db_ok M V (st_db s)" using assms by (simp add: store_ok_def)
  note facts = maxIndexTxn_last [OF ok] First_rows [OF ok] assert_found_rows [OF ok] string_key_def
    catalog_select catalog_abs_def
  show "GetNode M s i = Ok (last_index (catalog_abs V s) ''nodes'', cat_nodes (catalog_abs V s) i)"
    by (simp add: GetNode_def facts del: maxIndexTxn.simps)
  show "GetTopic M s n = Ok (last_index (catalog_abs V s) ''topics'', cat_topics (catalog_abs V s) (db_lower V n))"
    by (simp add: GetTopic_def facts del: maxIndexTxn.simps)
  show "GetGroup M s n = Ok (last_index (catalog_abs V s) ''groups'', cat_groups (catalog_abs V s) (db_lower V n))"
    by (simp add: GetGroup_def facts del: maxIndexTxn.simps)
  show "GetPartition M s n i =
      Ok (last_index (catalog_abs V s) ''partitions'', cat_partitions (catalog_abs V s) (n, i))"
    by (simp add: GetPartition_def facts del: maxIndexTxn.simps)
qed

text \<open>The lists, up to their order.\<close>

lemma as_eq_Some [simp]:
  "as_Node obj = Some n \<longleftrightarrow> obj = ObjNode n" "as_Topic obj = Some t \<longleftrightarrow> obj = ObjTopic t"
  "as_Group obj = Some g \<longleftrightarrow> obj = ObjGroup g" "as_Partition obj = Some p \<longleftrightarrow> obj = ObjPartition p"
  by (cases obj; auto)+

text \<open>The objects of a table are the values of its map in the catalogue.\<close>

lemma row_key:
  assumes "db_ok M V db"
  shows "db_rows V db t k = Some (ObjNode n) \<Longrightarrow> k = int_key (nd_Node n)"
    "db_rows V db t k = Some (ObjTopic tp) \<Longrightarrow> k = db_key V (db_lower V (tp_Topic tp))"
    "db_rows V db t k = Some (ObjGroup g) \<Longrightarrow> k = db_key V (db_lower V (gr_Group g))"
    "db_rows V db t k = Some (ObjPartition p) \<Longrightarrow> k = db_key V (pt_Topic p) @ int_key (pt_Partition p)"
  by (drule db_okD(4) [OF assms], simp add: string_key_def)+

lemma ran_bind:
  assumes "\<And>k x. R k = Some (C x) \<Longrightarrow> \<exists>i. k = key i" and "\<And>obj x. as obj = Some x \<longleftrightarrow> obj = C x"
  shows "C x \<in> ran R \<longleftrightarrow> x \<in> ran (\<lambda>i. Option.bind (R (key i)) as)"
proof
  assume "C x \<in> ran R"
  then obtain k where "R k = Some (C x)" by (auto simp: ran_def)
  moreover from assms(1) [OF this] obtain i where "k = key i" by blast
  ultimately show "x \<in> ran (\<lambda>i. Option.bind (R (key i)) as)"
    using assms(2) by (intro ranI [of _ i]) simp
next
  assume "x \<in> ran (\<lambda>i. Option.bind (R (key i)) as)"
  then show "C x \<in> ran R" using assms(2) by (auto simp: ran_def Option.bind_eq_Some_conv)
qed

lemma rows_cat:
  assumes "db_ok M V db"
  shows "ObjNode n \<in> ran (db_rows V db ''nodes'') \<longleftrightarrow> n \<in> ran (cat_nodes (catalog_of V (db_rows V db)))"
    "ObjTopic t \<in> ran (db_rows V db ''topics'') \<longleftrightarrow> t \<in> ran (cat_topics (catalog_of V (db_rows V db)))"
    "ObjGroup g \<in> ran (db_rows V db ''groups'') \<longleftrightarrow> g \<in> ran (cat_groups (catalog_of V (db_rows V db)))"
    "ObjPartition p \<in> ran (db_rows V db ''partitions'') \<longleftrightarrow>
       p \<in> ran (cat_partitions (catalog_of V (db_rows V db)))"
proof -
  note key = row_key [OF assms]
  show "ObjNode n \<in> ran (db_rows V db ''nodes'') \<longleftrightarrow> n \<in> ran (cat_nodes (catalog_of V (db_rows V db)))"
    using ran_bind [of "db_rows V db ''nodes''" ObjNode int_key as_Node n] key(1)
    by (auto simp: catalog_of_def)
  show "ObjTopic t \<in> ran (db_rows V db ''topics'') \<longleftrightarrow> t \<in> ran (cat_topics (catalog_of V (db_rows V db)))"
    using ran_bind [of "db_rows V db ''topics''" ObjTopic "db_key V" as_Topic t] key(2)
    by (auto simp: catalog_of_def)
  show "ObjGroup g \<in> ran (db_rows V db ''groups'') \<longleftrightarrow> g \<in> ran (cat_groups (catalog_of V (db_rows V db)))"
    using ran_bind [of "db_rows V db ''groups''" ObjGroup "db_key V" as_Group g] key(3)
    by (auto simp: catalog_of_def)
  have "(\<lambda>(n, i). Option.bind (db_rows V db ''partitions'' (db_key V n @ int_key i)) as_Partition) =
      (\<lambda>x. Option.bind (db_rows V db ''partitions'' (db_key V (fst x) @ int_key (snd x))) as_Partition)"
    by (simp add: case_prod_unfold)
  then show "ObjPartition p \<in> ran (db_rows V db ''partitions'') \<longleftrightarrow>
       p \<in> ran (cat_partitions (catalog_of V (db_rows V db)))"
    using ran_bind [of "db_rows V db ''partitions''" ObjPartition "\<lambda>x. db_key V (fst x) @ int_key (snd x)" as_Partition p]
      key(4) [of "''partitions''"]
    by (auto simp: catalog_of_def)
qed

text \<open>A query of one index, with the objects that match it.\<close>

lemma query_law:
  assumes "store_ok M V s" and "t \<in> {''nodes'', ''topics'', ''partitions'', ''groups''}"
    and "\<exists>objs. Get M (st_db s) t i args = Ok objs \<and> set objs = {obj \<in> ran (db_rows V (st_db s) t). Q obj}"
    and "\<And>k obj. db_rows V (st_db s) t k = Some obj \<Longrightarrow> \<exists>x. obj = C x"
    and "\<And>obj x. as obj = Some x \<longleftrightarrow> obj = C x" and "\<And>objs. w (Ok objs) = Ok objs"
  shows "\<exists>xs. out_bind (maxIndexTxn M (st_db s) [t] 0) (\<lambda>idx. out_bind (w (Get M (st_db s) t i args)) (\<lambda>it.
      out_bind (assert_all as it) (\<lambda>xs. Ok (idx, xs)))) = Ok (last_index (catalog_abs V s) t, xs) \<and>
    set xs = {x. C x \<in> ran (db_rows V (st_db s) t) \<and> Q (C x)}"
proof -
  have ok: "db_ok M V (st_db s)" using assms(1) by (simp add: store_ok_def)
  obtain objs where objs: "Get M (st_db s) t i args = Ok objs" "set objs = {obj \<in> ran (db_rows V (st_db s) t). Q obj}"
    using assms(3) by blast
  have "\<exists>x. as obj = Some x" if "obj \<in> set objs" for obj
    using that objs(2) assms(4,5) by (auto simp: ran_def)
  from assert_all_typed [of objs as, OF this] obtain xs where
    xs: "assert_all as objs = Ok xs" "set xs = {x. \<exists>obj\<in>set objs. as obj = Some x}" by blast
  then have "set xs = {x. C x \<in> ran (db_rows V (st_db s) t) \<and> Q (C x)}"
    using assms(5) objs(2) by auto
  with objs(1) xs(1) show ?thesis
    by (simp add: maxIndexTxn_last [OF ok assms(2)] assms(6) catalog_abs_def del: maxIndexTxn.simps)
qed

lemma list_laws:
  assumes "store_ok M V s"
  shows "\<exists>ns. GetNodes M s = Ok (last_index (catalog_abs V s) ''nodes'', ns) \<and> set ns = ran (cat_nodes (catalog_abs V s))"
    "\<exists>ts. GetTopics M s = Ok (last_index (catalog_abs V s) ''topics'', ts) \<and> set ts = ran (cat_topics (catalog_abs V s))"
    "\<exists>gs. GetGroups M s = Ok (last_index (catalog_abs V s) ''groups'', gs) \<and> set gs = ran (cat_groups (catalog_abs V s))"
    "\<exists>ps. GetPartitions M s = Ok (last_index (catalog_abs V s) ''partitions'', ps) \<and>
       set ps = ran (cat_partitions (catalog_abs V s))"
proof -
  have ok: "db_ok M V (st_db s)" using assms by (simp add: store_ok_def)
  note cat = rows_cat [OF ok, folded catalog_abs_def]
  have all: "\<exists>objs. Get M (st_db s) t ''id'' [] = Ok objs \<and> set objs = {obj \<in> ran (db_rows V (st_db s) t). True}"
    if "map_of (tables M) t = Some ts" for t ts
    using Get_rows(1) [OF ok that] by simp
  show "\<exists>ns. GetNodes M s = Ok (last_index (catalog_abs V s) ''nodes'', ns) \<and>
      set ns = ran (cat_nodes (catalog_abs V s))"
    using query_law [OF assms _ all [of "''nodes''" "nodesTableSchema M"], of ObjNode as_Node "wrap_err ''node lookup failed''"] row_type(1) [OF ok _ refl]
    by (simp add: GetNodes_def tables_def cat del: maxIndexTxn.simps)
  show "\<exists>ts. GetTopics M s = Ok (last_index (catalog_abs V s) ''topics'', ts) \<and>
      set ts = ran (cat_topics (catalog_abs V s))"
    using query_law [OF assms _ all [of "''topics''" "topicsTableSchema M"], of ObjTopic as_Topic "\<lambda>m. m"] row_type(2) [OF ok _ refl]
    by (simp add: GetTopics_def tables_def cat del: maxIndexTxn.simps)
  show "\<exists>gs. GetGroups M s = Ok (last_index (catalog_abs V s) ''groups'', gs) \<and>
      set gs = ran (cat_groups (catalog_abs V s))"
    using query_law [OF assms _ all [of "''groups''" "groupTableSchema M"], of ObjGroup as_Group "wrap_err ''group lookup failed''"] row_type(4) [OF ok _ refl]
    by (simp add: GetGroups_def tables_def cat del: maxIndexTxn.simps)
  show "\<exists>ps. GetPartitions M s = Ok (last_index (catalog_abs V s) ''partitions'', ps) \<and>
      set ps = ran (cat_partitions (catalog_abs V s))"
    using query_law [OF assms _ all [of "''partitions''" "partitionsTableSchema M"], of ObjPartition as_Partition "\<lambda>m. m"] row_type(3) [OF ok _ refl]
    by (simp add: GetPartitions_def tables_def cat del: maxIndexTxn.simps)
qed

lemma index_laws:
  assumes "store_ok M V s"
  shows "\<exists>gs. GetGroupsByCoordinator M s i = Ok (last_index (catalog_abs V s) ''groups'', gs) \<and>
       set gs = {g \<in> ran (cat_groups (catalog_abs V s)). gr_Coordinator g = i}"
    "\<exists>ps. PartitionsByLeader M s i = Ok (last_index (catalog_abs V s) ''partitions'', ps) \<and>
       set ps = {p \<in> ran (cat_partitions (catalog_abs V s)). pt_Leader p = i}"
proof -
  have ok: "db_ok M V (st_db s)" using assms by (simp add: store_ok_def)
  note cat = rows_cat [OF ok, folded catalog_abs_def] and query = query_law [OF assms]
  have "\<exists>objs. Get M (st_db s) ''groups'' ''coordinator'' [VInt32 i] = Ok objs \<and>
      set objs = {obj \<in> ran (db_rows V (st_db s) ''groups'').
        \<exists>ks. FromObject (IntFieldIndex ''Coordinator'') obj = Ok ks \<and> int_key i \<in> set ks}"
    using Get_rows(2) [OF ok, of "''groups''" "groupTableSchema M" "''coordinator''" _ "[VInt32 i]" "int_key i"]
    by (simp add: tables_def groupTableSchema_def)
  from query [OF _ this row_type(4) [OF ok _ refl] as_eq_Some(3), where w = "wrap_err ''group lookup failed''"]
  show "\<exists>gs. GetGroupsByCoordinator M s i = Ok (last_index (catalog_abs V s) ''groups'', gs) \<and>
       set gs = {g \<in> ran (cat_groups (catalog_abs V s)). gr_Coordinator g = i}"
    by (simp add: GetGroupsByCoordinator_def cat eq_commute [of i] del: maxIndexTxn.simps)
  have "\<exists>objs. Get M (st_db s) ''partitions'' ''leader'' [VInt32 i] = Ok objs \<and>
      set objs = {obj \<in> ran (db_rows V (st_db s) ''partitions'').
        \<exists>ks. FromObject (IntFieldIndex ''Leader'') obj = Ok ks \<and> int_key i \<in> set ks}"
    using Get_rows(2) [OF ok, of "''partitions''" "partitionsTableSchema M" "''leader''" _ "[VInt32 i]" "int_key i"]
    by (simp add: tables_def partitionsTableSchema_def)
  from query [OF _ this row_type(3) [OF ok _ refl] as_eq_Some(4), where w = "\<lambda>m. m"]
  show "\<exists>ps. PartitionsByLeader M s i = Ok (last_index (catalog_abs V s) ''partitions'', ps) \<and>
       set ps = {p \<in> ran (cat_partitions (catalog_abs V s)). pt_Leader p = i}"
    by (simp add: PartitionsByLeader_def cat eq_commute [of i] del: maxIndexTxn.simps)
qed

subsection \<open>Rejected writes\<close>

lemma Insert_missing:
  assumes "db_ok M V db" and "map_of (tables M) t = Some ts" and "FromObject (id_index ts) obj = Ok []"
  shows "\<exists>e. Insert M db t obj = Err e"
proof -
  have "insert_ok M V" using db_okD(1) [OF assms(1)] by (simp add: memdb_ok_def)
  with assms(2,3) table_of_ok [OF assms(1), of t] show ?thesis unfolding insert_ok_def by metis
qed

lemma rejected: "\<exists>e. m = Err e \<Longrightarrow> \<exists>e. out_bind (out_bind (wrap_err msg m) f) g = Err e"
  by auto

lemma Ensure_rejects:
  assumes "store_ok M V s"
  shows "tp_Topic t = [] \<Longrightarrow> \<exists>e. EnsureTopic M s idx t = Err e"
    "gr_Group g = [] \<Longrightarrow> \<exists>e. EnsureGroup M s idx g = Err e"
    "pt_Topic p = [] \<Longrightarrow> \<exists>e. EnsurePartition M s idx p = Err e"
proof -
  have ok: "db_ok M V (st_db s)" using assms by (simp add: store_ok_def)
  note ix = db_okD(2) [OF ok]
  have topic: "\<exists>e. Insert M (st_db s) ''topics'' (ObjTopic t) = Err e" if "tp_Topic t = []" for t
    using that string_index_key [OF ix, of "ObjTopic t" "''Topic''" "[]" True]
    by (intro Insert_missing [OF ok, of _ "topicsTableSchema M"]) (simp_all add: tables_def)
  have grp: "\<exists>e. Insert M (st_db s) ''groups'' (ObjGroup g) = Err e" if "gr_Group g = []" for g
    using that string_index_key [OF ix, of "ObjGroup g" "''Group''" "[]" True]
    by (intro Insert_missing [OF ok, of _ "groupTableSchema M"]) (simp_all add: tables_def)
  have part: "\<exists>e. Insert M (st_db s) ''partitions'' (ObjPartition p) = Err e" if "pt_Topic p = []" for p
    using that string_index_key [OF ix, of "ObjPartition p" "''Topic''" "[]" False]
      compound_index_missing [OF ix, of _ "ObjPartition p" "IntFieldIndex ''Partition''"]
    by (intro Insert_missing [OF ok, of _ "partitionsTableSchema M"]) (simp_all add: tables_def)
  note facts = First_rows [OF ok] assert_found_rows [OF ok] Let_def wrap_err.simps out_bind.simps
  show "\<exists>e. EnsureTopic M s idx t = Err e" if "tp_Topic t = []"
    unfolding EnsureTopic_def ensureTopicTxn_def facts by (rule rejected, rule topic) (simp add: that)
  show "\<exists>e. EnsureGroup M s idx g = Err e" if "gr_Group g = []"
    unfolding EnsureGroup_def ensureGroupTxn_def facts by (rule rejected, rule grp) (simp add: that)
  show "\<exists>e. EnsurePartition M s idx p = Err e" if "pt_Topic p = []"
    unfolding EnsurePartition_def ensurePartitionTxn_def facts by (rule rejected, rule part) (simp add: that)
qed

section \<open>The contract of a table\<close>

text \<open>
  What the rest of the broker relies on, for each of the four tables: a lookup returns what is in the
  catalogue; a write replaces the record with the same key, keeps the index at which it was created
  and notes the index of the change; a record without a name is rejected; a delete removes the
  record.  The laws are proved for the four tables by the interpretations below.
\<close>

locale catalog_table =
  fixes table :: string
    and view :: "catalog \<Rightarrow> 'i \<rightharpoonup> 'v"
    and canon :: "'db memdb_view \<Rightarrow> 'k \<Rightarrow> 'i"
    and key_of :: "'v \<Rightarrow> 'k"
    and named :: "'v \<Rightarrow> bool"
    and raft :: "'v \<Rightarrow> RaftIndex"
    and lookup :: "'db memdb \<Rightarrow> 'db Store \<Rightarrow> 'k \<Rightarrow> (string, uint64 \<times> 'v option) outcome"
    and ensure :: "'db memdb \<Rightarrow> 'db Store \<Rightarrow> uint64 \<Rightarrow> 'v \<Rightarrow> (string, 'db Store) outcome"
    and delete :: "'db memdb \<Rightarrow> 'db Store \<Rightarrow> uint64 \<Rightarrow> 'k \<Rightarrow> (string, 'db Store) outcome"
  assumes lookup_law: "store_ok M V s \<Longrightarrow>
      lookup M s k = Ok (last_index (catalog_abs V s) table, view (catalog_abs V s) (canon V k))"
    and ensure_law: "store_ok M V s \<Longrightarrow> named v \<Longrightarrow>
      \<exists>s' v'. ensure M s idx v = Ok s' \<and> store_ok M V s' \<and> key_of v' = key_of v \<and> named v' \<and>
        view (catalog_abs V s') = (view (catalog_abs V s))(canon V (key_of v) \<mapsto> v') \<and>
        raft v' = restamp idx (map_option raft (view (catalog_abs V s) (canon V (key_of v)))) \<and>
        last_index (catalog_abs V s') table = idx"
    and ensure_rejects: "store_ok M V s \<Longrightarrow> \<not> named v \<Longrightarrow> \<exists>e. ensure M s idx v = Err e"
    and delete_law: "store_ok M V s \<Longrightarrow>
      \<exists>s'. delete M s idx k = Ok s' \<and> store_ok M V s' \<and>
        view (catalog_abs V s') = (view (catalog_abs V s))(canon V k := None)"
begin

lemma lookup_ensure:
  assumes "store_ok M V s" and "named v" and "ensure M s idx v = Ok s'"
  shows "\<exists>v'. lookup M s' k = (if canon V k = canon V (key_of v) then Ok (idx, Some v')
      else Ok (idx, view (catalog_abs V s) (canon V k))) \<and> key_of v' = key_of v \<and> ModifyIndex (raft v') = idx"
proof -
  obtain v' where v': "store_ok M V s'" "key_of v' = key_of v"
      "view (catalog_abs V s') = (view (catalog_abs V s))(canon V (key_of v) \<mapsto> v')"
      "raft v' = restamp idx (map_option raft (view (catalog_abs V s) (canon V (key_of v))))"
      "last_index (catalog_abs V s') table = idx"
    using ensure_law [OF assms(1,2), of idx] assms(3) by (elim exE conjE) simp
  moreover from v'(4) have "ModifyIndex (raft v') = idx" by (simp add: restamp_def split: option.splits)
  ultimately show ?thesis using lookup_law [OF v'(1), of k] by (intro exI [of _ v']) simp
qed

lemma lookup_delete:
  assumes "store_ok M V s" and "delete M s idx k = Ok s'"
  shows "\<exists>i. lookup M s' k = Ok (i, None)"
  using delete_law [OF assms(1), of idx k] lookup_law [of M V s' k] assms(2) by auto

text \<open>A record that is written again keeps the index at which it was first written.\<close>

lemma ensure_again:
  assumes "store_ok M V s" and "named v" and "named w" and "canon V (key_of w) = canon V (key_of v)"
    and "view (catalog_abs V s) (canon V (key_of v)) = None"
  shows "\<exists>s1 s2 w'. ensure M s i v = Ok s1 \<and> ensure M s1 j w = Ok s2 \<and>
    lookup M s2 (key_of v) = Ok (j, Some w') \<and> key_of w' = key_of w \<and>
    raft w' = \<lparr>CreateIndex = i, ModifyIndex = j\<rparr>"
proof -
  obtain s1 v' where s1: "ensure M s i v = Ok s1" "store_ok M V s1"
      "view (catalog_abs V s1) = (view (catalog_abs V s))(canon V (key_of v) \<mapsto> v')"
      "raft v' = restamp i (map_option raft (view (catalog_abs V s) (canon V (key_of v))))"
    using ensure_law [OF assms(1,2), of i] by blast
  obtain s2 w' where s2: "ensure M s1 j w = Ok s2" "store_ok M V s2" "key_of w' = key_of w"
      "view (catalog_abs V s2) = (view (catalog_abs V s1))(canon V (key_of w) \<mapsto> w')"
      "raft w' = restamp j (map_option raft (view (catalog_abs V s1) (canon V (key_of w))))"
      "last_index (catalog_abs V s2) table = j"
    using ensure_law [OF s1(2) assms(3), of j] by blast
  have "raft w' = \<lparr>CreateIndex = i, ModifyIndex = j\<rparr>"
    using s1(3,4) s2(5) assms(4,5) by (simp add: restamp_def)
  with s1(1) s2 lookup_law [OF s2(2), of "key_of v"] assms(4) show ?thesis
    by (intro exI [of _ s1] exI [of _ s2] exI [of _ w']) simp
qed

end

interpretation nodes_table: catalog_table "''nodes''" cat_nodes "\<lambda>_ i. i" nd_Node "\<lambda>_. True" nd_RaftIndex
  "GetNode" "EnsureNode" "DeleteNode"
proof (unfold_locales, goal_cases)
  case (1 M V s k)
  then show ?case by (simp add: Get_laws)
next
  case (2 M V s v idx)
  obtain s' where s': "EnsureNode M s idx v = Ok s'" "store_ok M V s'"
      "catalog_abs V s' = spec_EnsureNode idx v (catalog_abs V s)"
    using EnsureNode_implements [OF 2(1), of idx v] 2(2) by (auto simp: implements_def)
  show ?case
    by (rule exI [of _ s'], rule exI [of _ "v\<lparr>nd_RaftIndex := restamp idx (map_option nd_RaftIndex (cat_nodes (catalog_abs V s) (nd_Node v)))\<rparr>"])
      (use s' 2(2) in \<open>simp add: spec_EnsureNode_def touch_def last_index_def\<close>)
next
  case (3 M V s v idx)
  then show ?case by simp
next
  case (4 M V s idx k)
  then show ?case
    using DeleteNode_implements [OF 4, of idx k]
    by (auto simp: implements_def spec_DeleteNode_def touch_def fun_upd_idem split: if_splits)
qed

interpretation topics_table: catalog_table "''topics''" cat_topics "db_lower" tp_Topic "\<lambda>t. tp_Topic t \<noteq> []" tp_RaftIndex
  "GetTopic" "EnsureTopic" "DeleteTopic"
proof (unfold_locales, goal_cases)
  case (1 M V s k)
  then show ?case by (simp add: Get_laws)
next
  case (2 M V s v idx)
  obtain s' where s': "EnsureTopic M s idx v = Ok s'" "store_ok M V s'"
      "catalog_abs V s' = spec_EnsureTopic (db_lower V) idx v (catalog_abs V s)"
    using EnsureTopic_implements [OF 2(1), of v idx] 2(2) by (auto simp: implements_def)
  show ?case
    by (rule exI [of _ s'], rule exI [of _ "v\<lparr>tp_Config := Some (case tp_Config v of None \<Rightarrow> NewTopicConfig | Some cfg \<Rightarrow> cfg), tp_RaftIndex := restamp idx (map_option tp_RaftIndex (cat_topics (catalog_abs V s) (db_lower V (tp_Topic v))))\<rparr>"])
      (use s' 2(2) in \<open>simp add: spec_EnsureTopic_def touch_def last_index_def\<close>)
next
  case (3 M V s v idx)
  then show ?case by (simp add: Ensure_rejects)
next
  case (4 M V s idx k)
  then show ?case
    using DeleteTopic_implements [OF 4, of idx k]
    by (auto simp: implements_def spec_DeleteTopic_def touch_def fun_upd_idem split: if_splits)
qed

interpretation groups_table: catalog_table "''groups''" cat_groups "db_lower" gr_Group "\<lambda>g. gr_Group g \<noteq> []" gr_RaftIndex
  "GetGroup" "EnsureGroup" "DeleteGroup"
proof (unfold_locales, goal_cases)
  case (1 M V s k)
  then show ?case by (simp add: Get_laws)
next
  case (2 M V s v idx)
  obtain s' where s': "EnsureGroup M s idx v = Ok s'" "store_ok M V s'"
      "catalog_abs V s' = spec_EnsureGroup (db_lower V) idx v (catalog_abs V s)"
    using EnsureGroup_implements [OF 2(1), of v idx] 2(2) by (auto simp: implements_def)
  show ?case
    by (rule exI [of _ s'], rule exI [of _ "v\<lparr>gr_RaftIndex := restamp idx (map_option gr_RaftIndex (cat_groups (catalog_abs V s) (db_lower V (gr_Group v))))\<rparr>"])
      (use s' 2(2) in \<open>simp add: spec_EnsureGroup_def touch_def last_index_def\<close>)
next
  case (3 M V s v idx)
  then show ?case by (simp add: Ensure_rejects)
next
  case (4 M V s idx k)
  then show ?case
    using DeleteGroup_implements [OF 4, of idx k]
    by (auto simp: implements_def spec_DeleteGroup_def touch_def fun_upd_idem split: if_splits)
qed

interpretation partitions_table: catalog_table "''partitions''" cat_partitions "\<lambda>_ k. k" "\<lambda>p. (pt_Topic p, pt_Partition p)" "\<lambda>p. pt_Topic p \<noteq> []" pt_RaftIndex
  "\<lambda>M s (n, i). GetPartition M s n i" "EnsurePartition" "\<lambda>M s idx (n, i). DeletePartition M s idx n i"
proof (unfold_locales, goal_cases)
  case (1 M V s k)
  then show ?case by (simp add: Get_laws split: prod.split)
next
  case (2 M V s v idx)
  obtain s' where s': "EnsurePartition M s idx v = Ok s'" "store_ok M V s'"
      "catalog_abs V s' = spec_EnsurePartition idx v (catalog_abs V s)"
    using EnsurePartition_implements [OF 2(1), of v idx] 2(2) by (auto simp: implements_def)
  show ?case
    by (rule exI [of _ s'], rule exI [of _ "v\<lparr>pt_RaftIndex := restamp idx (map_option pt_RaftIndex (cat_partitions (catalog_abs V s) (pt_Topic v, pt_Partition v)))\<rparr>"])
      (use s' 2(2) in \<open>simp add: spec_EnsurePartition_def touch_def last_index_def\<close>)
next
  case (3 M V s v idx)
  then show ?case by (simp add: Ensure_rejects)
next
  case (4 M V s idx k)
  then show ?case
    using DeletePartition_implements [OF 4, of idx "fst k" "snd k"]
    by (auto simp: implements_def spec_DeletePartition_def touch_def fun_upd_idem split: if_splits prod.splits)
qed

end
