(* ===== verification/FSM.thy ===== *)
theory FSM
  imports State_Store
begin

text \<open>
  The replicated state machine (\<^verbatim>\<open>FSM\<close> in \<^verbatim>\<open>jocko/fsm/fsm.go\<close>, \<^verbatim>\<open>commands.go\<close> and \<^verbatim>\<open>snapshot.go\<close>): raft
  hands every broker the same entries of encoded requests, and each applies them to its own store.
\<close>

section \<open>Commands\<close>

type_synonym 'db command = "'db memdb \<Rightarrow> msgpack \<Rightarrow> 'db Store \<Rightarrow> bytes \<Rightarrow> uint64 \<Rightarrow> (string, 'db Store) outcome"

text \<open>
  A command panics when its payload cannot be decoded; an error of the store is its result, and the
  store is unchanged.
\<close>

definition applyRegisterGroup :: "'db command" where
  "applyRegisterGroup M C s buf index =
     (case structs_Decode C RegisterGroupRequestType buf of
        Ok (RegisterGroupRequest g) \<Rightarrow> EnsureGroup M s index g | _ \<Rightarrow> Panic)"

definition applyRegisterNode :: "'db command" where
  "applyRegisterNode M C s buf index =
     (case structs_Decode C RegisterNodeRequestType buf of
        Ok (RegisterNodeRequest n) \<Rightarrow> EnsureNode M s index n | _ \<Rightarrow> Panic)"

definition applyDeregisterNode :: "'db command" where
  "applyDeregisterNode M C s buf index =
     (case structs_Decode C DeregisterNodeRequestType buf of
        Ok (DeregisterNodeRequest n) \<Rightarrow> DeleteNode M s index (nd_Node n) | _ \<Rightarrow> Panic)"

definition applyRegisterTopic :: "'db command" where
  "applyRegisterTopic M C s buf index =
     (case structs_Decode C RegisterTopicRequestType buf of
        Ok (RegisterTopicRequest t) \<Rightarrow> EnsureTopic M s index t | _ \<Rightarrow> Panic)"

definition applyDeregisterTopic :: "'db command" where
  "applyDeregisterTopic M C s buf index =
     (case structs_Decode C DeregisterTopicRequestType buf of
        Ok (DeregisterTopicRequest t) \<Rightarrow> DeleteTopic M s index (tp_Topic t) | _ \<Rightarrow> Panic)"

definition applyRegisterPartition :: "'db command" where
  "applyRegisterPartition M C s buf index =
     (case structs_Decode C RegisterPartitionRequestType buf of
        Ok (RegisterPartitionRequest p) \<Rightarrow> EnsurePartition M s index p | _ \<Rightarrow> Panic)"

definition applyDeregisterPartition :: "'db command" where
  "applyDeregisterPartition M C s buf index =
     (case structs_Decode C DeregisterPartitionRequestType buf of
        Ok (DeregisterPartitionRequest p) \<Rightarrow> DeletePartition M s index (pt_Topic p) (pt_Partition p) | _ \<Rightarrow> Panic)"

definition registerCommand ::
    "MessageType \<Rightarrow> 'db command \<Rightarrow> (MessageType \<rightharpoonup> 'db command) \<Rightarrow> (string, MessageType \<rightharpoonup> 'db command) outcome" where
  "registerCommand msg fn commands = (if commands msg \<noteq> None then Panic else Ok (commands(msg \<mapsto> fn)))"

text \<open>The table after \<^verbatim>\<open>init\<close>.\<close>

definition commands :: "(string, MessageType \<rightharpoonup> 'db command) outcome" where
  "commands =
     out_bind (registerCommand RegisterNodeRequestType applyRegisterNode (\<lambda>_. None)) (\<lambda>c.
     out_bind (registerCommand DeregisterNodeRequestType applyDeregisterNode c) (\<lambda>c.
     out_bind (registerCommand RegisterTopicRequestType applyRegisterTopic c) (\<lambda>c.
     out_bind (registerCommand DeregisterTopicRequestType applyDeregisterTopic c) (\<lambda>c.
     out_bind (registerCommand RegisterPartitionRequestType applyRegisterPartition c) (\<lambda>c.
     out_bind (registerCommand DeregisterPartitionRequestType applyDeregisterPartition c) (\<lambda>c.
     registerCommand RegisterGroupRequestType applyRegisterGroup c))))))"

section \<open>The state machine\<close>

record 'db FSM =
  fsm_apply :: "MessageType \<rightharpoonup> 'db command"
  fsm_state :: "'db Store"

definition FSM_New :: "'db memdb \<Rightarrow> (string, 'db FSM) outcome" where
  "FSM_New M =
     out_bind commands (\<lambda>cmds.
     out_bind (NewStore M) (\<lambda>store. Ok \<lparr>fsm_apply = cmds, fsm_state = store\<rparr>))"

text \<open>An entry of an unknown type is ignored; an empty one is indexed out of range.\<close>

definition FSM_Apply :: "'db memdb \<Rightarrow> msgpack \<Rightarrow> 'db FSM \<Rightarrow> bytes \<Rightarrow> uint64 \<Rightarrow> (string, 'db FSM) outcome" where
  "FSM_Apply M C c buf index =
     (case buf of
        [] \<Rightarrow> Panic
      | msgType # payload \<Rightarrow>
          (case fsm_apply c msgType of
             Some fn \<Rightarrow> out_bind (fn M C (fsm_state c) payload index) (\<lambda>s. Ok (c\<lparr>fsm_state := s\<rparr>))
           | None \<Rightarrow> Ok c))"

text \<open>A log is applied entry by entry; the error of one entry is reported and does not stop the next.\<close>

fun apply_log :: "'db memdb \<Rightarrow> msgpack \<Rightarrow> 'db FSM \<Rightarrow> (bytes \<times> uint64) list \<Rightarrow> (string, 'db FSM) outcome" where
  "apply_log M C c [] = Ok c"
| "apply_log M C c ((buf, index) # entries) =
     (case FSM_Apply M C c buf index of
        Ok c' \<Rightarrow> apply_log M C c' entries
      | Err _ \<Rightarrow> apply_log M C c entries
      | Panic \<Rightarrow> Panic)"

section \<open>Snapshots\<close>

record 'db Snapshot =
  sn_db :: 'db
  sn_lastIndex :: uint64

definition Store_Snapshot :: "'db memdb \<Rightarrow> 'db Store \<Rightarrow> (string, 'db Snapshot) outcome" where
  "Store_Snapshot M s =
     out_bind (maxIndexTxn M (st_db s) (st_schema s) 0) (\<lambda>idx. Ok \<lparr>sn_db = st_db s, sn_lastIndex = idx\<rparr>)"

definition LastIndex :: "'db Snapshot \<Rightarrow> uint64" where "LastIndex sn = sn_lastIndex sn"

definition FSM_Snapshot :: "'db memdb \<Rightarrow> 'db FSM \<Rightarrow> (string, 'db Snapshot) outcome" where
  "FSM_Snapshot M c = Store_Snapshot M (fsm_state c)"

text \<open>
  Nothing registers a persister or a restorer: the list and the map are the zero values.  A persister
  writes bytes to the sink; a restorer reads some bytes and changes the database.
\<close>

definition persisters :: "('db Snapshot \<Rightarrow> (string, bytes) outcome) list" where
  "persisters = []"

definition restorers :: "MessageType \<rightharpoonup> (uint64 \<Rightarrow> 'db \<Rightarrow> bytes \<Rightarrow> (string, 'db \<times> nat) outcome)" where
  "restorers = (\<lambda>_. None)"

fun run_persisters :: "('db Snapshot \<Rightarrow> (string, bytes) outcome) list \<Rightarrow> 'db Snapshot \<Rightarrow> (string, bytes) outcome" where
  "run_persisters [] sn = Ok []"
| "run_persisters (fn # fns) sn = out_bind (fn sn) (\<lambda>b. out_bind (run_persisters fns sn) (\<lambda>bs. Ok (b @ bs)))"

definition Persist :: "msgpack \<Rightarrow> 'db Snapshot \<Rightarrow> (string, bytes) outcome" where
  "Persist C sn =
     out_bind (mp_EncodeHeader C (LastIndex sn)) (\<lambda>header.
     out_bind (run_persisters persisters sn) (\<lambda>body. Ok (header @ body)))"

function restore_loop :: "uint64 \<Rightarrow> 'db \<Rightarrow> bytes \<Rightarrow> (string, 'db) outcome" where
  "restore_loop header db [] = Ok db"
| "restore_loop header db (msg # rest) =
     (case restorers msg of
        Some fn \<Rightarrow> out_bind (fn header db rest) (\<lambda>(db, n). restore_loop header db (drop n rest))
      | None \<Rightarrow> Err ''unrecognized msg type'')"
  by pat_completeness auto
termination by (relation "measure (\<lambda>(_, _, b). length b)") auto

definition FSM_Restore :: "'db memdb \<Rightarrow> msgpack \<Rightarrow> 'db FSM \<Rightarrow> bytes \<Rightarrow> (string, 'db FSM) outcome" where
  "FSM_Restore M C c old =
     out_bind (NewStore M) (\<lambda>newState.
     out_bind (mp_DecodeHeader C old) (\<lambda>(header, rest).
     out_bind (restore_loop header (st_db newState) rest) (\<lambda>db.
     out_bind (Abandon (fsm_state c)) (\<lambda>_.
     Ok (c\<lparr>fsm_state := newState\<lparr>st_db := db\<rparr>\<rparr>)))))"

section \<open>Refinement\<close>

fun spec_apply :: "(string \<Rightarrow> string) \<Rightarrow> uint64 \<Rightarrow> request \<Rightarrow> catalog \<Rightarrow> catalog" where
  "spec_apply lower idx (RegisterGroupRequest g) = spec_EnsureGroup lower idx g"
| "spec_apply lower idx (RegisterNodeRequest n) = spec_EnsureNode idx n"
| "spec_apply lower idx (DeregisterNodeRequest n) = spec_DeleteNode idx (nd_Node n)"
| "spec_apply lower idx (RegisterTopicRequest t) = spec_EnsureTopic lower idx t"
| "spec_apply lower idx (DeregisterTopicRequest t) = spec_DeleteTopic lower idx (tp_Topic t)"
| "spec_apply lower idx (RegisterPartitionRequest p) = spec_EnsurePartition idx p"
| "spec_apply lower idx (DeregisterPartitionRequest p) = spec_DeletePartition idx (pt_Topic p) (pt_Partition p)"

text \<open>The requests the store accepts: the records they register have a name.\<close>

fun acceptable :: "request \<Rightarrow> bool" where
  "acceptable (RegisterGroupRequest g) \<longleftrightarrow> gr_Group g \<noteq> []"
| "acceptable (RegisterTopicRequest t) \<longleftrightarrow> tp_Topic t \<noteq> []"
| "acceptable (RegisterPartitionRequest p) \<longleftrightarrow> pt_Topic p \<noteq> []"
| "acceptable _ \<longleftrightarrow> True"

definition spec_step :: "(string \<Rightarrow> string) \<Rightarrow> request \<times> uint64 \<Rightarrow> catalog \<Rightarrow> catalog" where
  "spec_step lower e c = (if acceptable (fst e) then spec_apply lower (snd e) (fst e) c else c)"

definition empty_catalog :: catalog where
  "empty_catalog = \<lparr>cat_index = (\<lambda>_. None), cat_nodes = (\<lambda>_. None), cat_topics = (\<lambda>_. None), cat_groups = (\<lambda>_. None),
     cat_partitions = (\<lambda>_. None)\<rparr>"

definition command_table :: "MessageType \<rightharpoonup> 'db command" where
  "command_table = [RegisterNodeRequestType \<mapsto> applyRegisterNode, DeregisterNodeRequestType \<mapsto> applyDeregisterNode,
     RegisterTopicRequestType \<mapsto> applyRegisterTopic, DeregisterTopicRequestType \<mapsto> applyDeregisterTopic,
     RegisterPartitionRequestType \<mapsto> applyRegisterPartition, DeregisterPartitionRequestType \<mapsto> applyDeregisterPartition,
     RegisterGroupRequestType \<mapsto> applyRegisterGroup]"

lemma commands_eq: "commands = Ok command_table"
  by (simp add: commands_def registerCommand_def command_table_def message_type_defs)

definition fsm_ok :: "'db memdb \<Rightarrow> 'db memdb_view \<Rightarrow> 'db FSM \<Rightarrow> bool" where
  "fsm_ok M V c \<longleftrightarrow> store_ok M V (fsm_state c) \<and> fsm_apply c = command_table"

abbreviation fsm_catalog :: "'db memdb_view \<Rightarrow> 'db FSM \<Rightarrow> catalog" where
  "fsm_catalog V c \<equiv> catalog_abs V (fsm_state c)"

lemma catalog_abs_empty: "db_rows V (st_db s) = (\<lambda>_ _. None) \<Longrightarrow> catalog_abs V s = empty_catalog"
  by (simp add: catalog_abs_def catalog_of_def empty_catalog_def case_prod_unfold)

lemma FSM_New_ok:
  assumes "memdb_ok M V"
  shows "\<exists>c. FSM_New M = Ok c \<and> fsm_ok M V c \<and> fsm_catalog V c = empty_catalog \<and> \<not> st_abandoned (fsm_state c)"
  using NewStore_ok [OF assms] by (auto simp: FSM_New_def commands_eq fsm_ok_def catalog_abs_empty)

text \<open>The store's part of a command, once its payload is decoded.\<close>

fun run_request :: "'db memdb \<Rightarrow> 'db Store \<Rightarrow> uint64 \<Rightarrow> request \<Rightarrow> (string, 'db Store) outcome" where
  "run_request M s idx (RegisterGroupRequest g) = EnsureGroup M s idx g"
| "run_request M s idx (RegisterNodeRequest n) = EnsureNode M s idx n"
| "run_request M s idx (DeregisterNodeRequest n) = DeleteNode M s idx (nd_Node n)"
| "run_request M s idx (RegisterTopicRequest t) = EnsureTopic M s idx t"
| "run_request M s idx (DeregisterTopicRequest t) = DeleteTopic M s idx (tp_Topic t)"
| "run_request M s idx (RegisterPartitionRequest p) = EnsurePartition M s idx p"
| "run_request M s idx (DeregisterPartitionRequest p) = DeletePartition M s idx (pt_Topic p) (pt_Partition p)"

lemmas command_defs = applyRegisterGroup_def applyRegisterNode_def applyDeregisterNode_def applyRegisterTopic_def
  applyDeregisterTopic_def applyRegisterPartition_def applyDeregisterPartition_def

lemma FSM_Apply_encoded:
  assumes "fsm_apply c = command_table" and "msgpack_ok C" and "codable r"
    and "structs_Encode C (request_type r) r = Ok buf"
  shows "FSM_Apply M C c buf idx = out_bind (run_request M (fsm_state c) idx r) (\<lambda>s. Ok (c\<lparr>fsm_state := s\<rparr>))"
proof -
  obtain b where b: "buf = request_type r # b" "structs_Decode C (request_type r) b = Ok r"
    using structs_Encode_Decode [OF assms(2-4)] by blast
  then show ?thesis
    using assms(1)
    by (cases r) (simp_all add: FSM_Apply_def command_table_def command_defs message_type_defs)
qed

lemma run_request_implements:
  assumes "store_ok M V s" and "acceptable r"
  shows "implements M V s (run_request M s idx r) (spec_apply (db_lower V) idx r)"
  using assms by (cases r) (simp_all add: EnsureGroup_implements EnsureNode_implements DeleteNode_implements
      EnsureTopic_implements DeleteTopic_implements EnsurePartition_implements DeletePartition_implements)

lemma run_request_rejects:
  assumes "store_ok M V s" and "\<not> acceptable r"
  shows "\<exists>e. run_request M s idx r = Err e"
  using assms by (cases r) (simp_all add: Ensure_rejects)

lemma FSM_Apply_step:
  assumes "fsm_ok M V c" and "msgpack_ok C" and "codable r" and "structs_Encode C (request_type r) r = Ok buf"
  shows "if acceptable r
    then \<exists>c'. FSM_Apply M C c buf idx = Ok c' \<and> fsm_ok M V c' \<and>
      fsm_catalog V c' = spec_apply (db_lower V) idx r (fsm_catalog V c) \<and>
      st_abandoned (fsm_state c') = st_abandoned (fsm_state c)
    else \<exists>e. FSM_Apply M C c buf idx = Err e"
proof -
  have ok: "store_ok M V (fsm_state c)" and cmds: "fsm_apply c = command_table"
    using assms(1) by (simp_all add: fsm_ok_def)
  note apply_eq = FSM_Apply_encoded [OF cmds assms(2-4), of M idx]
  show ?thesis
  proof (cases "acceptable r")
    case True
    from run_request_implements [OF ok True, of idx] obtain s' where "run_request M (fsm_state c) idx r = Ok s'"
        "store_ok M V s'" "catalog_abs V s' = spec_apply (db_lower V) idx r (fsm_catalog V c)"
        "st_abandoned s' = st_abandoned (fsm_state c)"
      by (auto simp: implements_def)
    with True cmds apply_eq show ?thesis by (simp add: fsm_ok_def)
  next
    case False
    from run_request_rejects [OF ok False, of idx] False apply_eq show ?thesis by auto
  qed
qed

text \<open>The encoded log of a list of requests with their indexes.\<close>

fun encoded :: "msgpack \<Rightarrow> (request \<times> uint64) list \<Rightarrow> (bytes \<times> uint64) list \<Rightarrow> bool" where
  "encoded C [] [] \<longleftrightarrow> True"
| "encoded C ((r, i) # rs) ((buf, j) # entries) \<longleftrightarrow>
     codable r \<and> structs_Encode C (request_type r) r = Ok buf \<and> i = j \<and> encoded C rs entries"
| "encoded C _ _ \<longleftrightarrow> False"

lemma apply_log_refines:
  assumes "fsm_ok M V c" and "msgpack_ok C" and "encoded C rs entries"
  shows "\<exists>c'. apply_log M C c entries = Ok c' \<and> fsm_ok M V c' \<and>
    fsm_catalog V c' = fold (spec_step (db_lower V)) rs (fsm_catalog V c)"
  using assms
proof (induction C rs entries arbitrary: c rule: encoded.induct)
  case (2 C r i rs buf j entries)
  from 2(4) have enc: "codable r" "structs_Encode C (request_type r) r = Ok buf" "i = j" "encoded C rs entries" by simp_all
  show ?case
  proof (cases "acceptable r")
    case True
    with FSM_Apply_step [OF 2(2,3) enc(1,2), of j] obtain c1 where c1: "FSM_Apply M C c buf j = Ok c1"
        "fsm_ok M V c1" "fsm_catalog V c1 = spec_apply (db_lower V) j r (fsm_catalog V c)" by auto
    with 2(1) [OF c1(2) 2(3) enc(4)] True enc(3) show ?thesis by (simp add: spec_step_def)
  next
    case False
    with FSM_Apply_step [OF 2(2,3) enc(1,2), of j] obtain e where "FSM_Apply M C c buf j = Err e" by auto
    with 2(1) [OF 2(2,3) enc(4)] False show ?thesis by (simp add: spec_step_def)
  qed
qed simp_all

section \<open>Snapshots lose the state\<close>

lemma maxIndexTxn_total:
  assumes "db_ok M V db"
  shows "\<exists>idx. maxIndexTxn M db ts l = Ok idx"
  by (induction ts arbitrary: l) (simp_all add: First_rows(1) [OF assms])

lemma snapshot_restore_empty:
  assumes "fsm_ok M V c" and "msgpack_ok C" and "\<not> st_abandoned (fsm_state c)"
    and "\<And>h. \<exists>b. mp_EncodeHeader C h = Ok b"
  shows "\<exists>sn buf c'. FSM_Snapshot M c = Ok sn \<and> Persist C sn = Ok buf \<and> FSM_Restore M C c buf = Ok c' \<and>
    fsm_ok M V c' \<and> fsm_catalog V c' = empty_catalog"
proof -
  have ok: "db_ok M V (st_db (fsm_state c))" using assms(1) by (simp add: fsm_ok_def store_ok_def)
  obtain idx where "maxIndexTxn M (st_db (fsm_state c)) (st_schema (fsm_state c)) 0 = Ok idx"
    using maxIndexTxn_total [OF ok, of "st_schema (fsm_state c)" 0] by (elim exE)
  then have sn: "FSM_Snapshot M c = Ok \<lparr>sn_db = st_db (fsm_state c), sn_lastIndex = idx\<rparr>"
    by (simp add: FSM_Snapshot_def Store_Snapshot_def)
  obtain b where b: "mp_EncodeHeader C idx = Ok b" using assms(4) by blast
  then have "mp_DecodeHeader C (b @ []) = Ok (idx, [])" using assms(2) unfolding msgpack_ok_def by blast
  moreover obtain s where "NewStore M = Ok s" "store_ok M V s" "db_rows V (st_db s) = (\<lambda>_ _. None)"
    using NewStore_ok [OF db_okD(1) [OF ok]] by blast
  ultimately have "\<exists>c'. FSM_Restore M C c b = Ok c' \<and> fsm_ok M V c' \<and> fsm_catalog V c' = empty_catalog"
    using assms(1,3) by (simp add: FSM_Restore_def Abandon_def fsm_ok_def catalog_abs_empty)
  with sn b show ?thesis by (auto simp: Persist_def LastIndex_def persisters_def)
qed

text \<open>Whatever is restored without an error leaves an empty store.\<close>

lemma restore_loop_Ok: "restore_loop h db rest = Ok db' \<longleftrightarrow> rest = [] \<and> db' = db"
  by (cases rest) (auto simp: restorers_def)

lemma FSM_Restore_empty:
  assumes "fsm_ok M V c" and "FSM_Restore M C c buf = Ok c'"
  shows "fsm_ok M V c' \<and> fsm_catalog V c' = empty_catalog"
proof -
  have ok: "db_ok M V (st_db (fsm_state c))" using assms(1) by (simp add: fsm_ok_def store_ok_def)
  obtain s where s: "NewStore M = Ok s" "store_ok M V s" "db_rows V (st_db s) = (\<lambda>_ _. None)"
    using NewStore_ok [OF db_okD(1) [OF ok]] by blast
  with assms show ?thesis
    by (auto simp: FSM_Restore_def restore_loop_Ok fsm_ok_def catalog_abs_empty out_bind_eq_Ok)
qed

end
