(* ===== verification/Memdb_List.thy ===== *)
theory Memdb_List
  imports FSM
begin

text \<open>
  A database on association lists that has the documented behaviour of go-memdb, and a codec that has
  the round trip of MessagePack on requests that carry a name only: concrete parameters for the
  witnesses, which show that the hypotheses about the two packages can hold.
\<close>

type_synonym list_db = "(string \<times> TableSchema) list \<times> ((string \<times> bytes) \<times> db_obj) list"

definition ascii_lower :: "char \<Rightarrow> char" where
  "ascii_lower c = (let n = of_char c :: nat in if 65 \<le> n \<and> n \<le> 90 then char_of (n + 32) else c)"

definition list_key :: "bool \<Rightarrow> string \<Rightarrow> bytes" where
  "list_key lc s = bytes_of_string (if lc then map ascii_lower s else s) @ [0]"

definition list_string_index :: "string \<Rightarrow> bool \<Rightarrow> Indexer" where
  "list_string_index f lc =
     \<lparr>FromObject = (\<lambda>obj. case FieldByName obj f of VString s \<Rightarrow> Ok (if s = [] then [] else [list_key lc s]) | _ \<Rightarrow> Err ''not a string''),
      FromArgs = (\<lambda>args. case args of [VString s] \<Rightarrow> Ok (list_key lc s) | _ \<Rightarrow> Err ''not a string'')\<rparr>"

definition list_compound_index :: "Indexer list \<Rightarrow> Indexer" where
  "list_compound_index ixs =
     (case ixs of [a, b] \<Rightarrow>
        \<lparr>FromObject = (\<lambda>obj. out_bind (FromObject a obj) (\<lambda>ks. out_bind (FromObject b obj) (\<lambda>ls.
           Ok (case (ks, ls) of ([k], [l]) \<Rightarrow> [k @ l] | _ \<Rightarrow> [])))),
         FromArgs = (\<lambda>args. case args of [u, v] \<Rightarrow> out_bind (FromArgs a [u]) (\<lambda>k. out_bind (FromArgs b [v]) (\<lambda>l. Ok (k @ l)))
           | _ \<Rightarrow> Err ''too many arguments'')\<rparr>
      | _ \<Rightarrow> \<lparr>FromObject = (\<lambda>_. Err ''unsupported''), FromArgs = (\<lambda>_. Err ''unsupported'')\<rparr>)"

definition list_rows :: "list_db \<Rightarrow> string \<Rightarrow> bytes \<rightharpoonup> db_obj" where
  "list_rows db t k = map_of (snd db) (t, k)"

definition list_first :: "list_db \<Rightarrow> string \<Rightarrow> string \<Rightarrow> reflect_value list \<Rightarrow> (string, db_obj option) outcome" where
  "list_first db t i args =
     (case map_of (fst db) t of None \<Rightarrow> Err ''invalid table''
      | Some ts \<Rightarrow> out_bind (FromArgs (id_index ts) args) (\<lambda>k. Ok (list_rows db t k)))"

definition list_objs :: "list_db \<Rightarrow> string \<Rightarrow> db_obj list" where
  "list_objs db t =
     map (\<lambda>x. the (map_of (snd db) x)) (filter (\<lambda>x. fst x = t) (remdups (map fst (snd db))))"

definition has_key :: "Indexer \<Rightarrow> bytes \<Rightarrow> db_obj \<Rightarrow> bool" where
  "has_key ix k obj = (case FromObject ix obj of Ok ks \<Rightarrow> k \<in> set ks | _ \<Rightarrow> False)"

definition list_get :: "list_db \<Rightarrow> string \<Rightarrow> string \<Rightarrow> reflect_value list \<Rightarrow> (string, db_obj list) outcome" where
  "list_get db t i args =
     (case map_of (fst db) t of None \<Rightarrow> Err ''invalid table''
      | Some ts \<Rightarrow> if args = [] then Ok (list_objs db t) else
          (case map_of (ts_Indexes ts) i of None \<Rightarrow> Err ''invalid index''
           | Some ix \<Rightarrow> out_bind (FromArgs (is_Indexer ix) args) (\<lambda>k. Ok (filter (has_key (is_Indexer ix) k) (list_objs db t)))))"

definition list_insert :: "list_db \<Rightarrow> string \<Rightarrow> db_obj \<Rightarrow> (string, list_db) outcome" where
  "list_insert db t obj =
     (case map_of (fst db) t of None \<Rightarrow> Err ''invalid table''
      | Some ts \<Rightarrow> (case FromObject (id_index ts) obj of
          Ok [k] \<Rightarrow> if indexable ts obj then Ok (fst db, ((t, k), obj) # snd db) else Err ''missing index value''
        | _ \<Rightarrow> Err ''object missing primary index''))"

definition list_delete :: "list_db \<Rightarrow> string \<Rightarrow> db_obj \<Rightarrow> (string, list_db) outcome" where
  "list_delete db t obj =
     (case map_of (fst db) t of None \<Rightarrow> Err ''invalid table''
      | Some ts \<Rightarrow> (case FromObject (id_index ts) obj of
          Ok [k] \<Rightarrow> if list_rows db t k = None then Err ''not found''
            else Ok (fst db, filter (\<lambda>r. fst r \<noteq> (t, k)) (snd db))
        | _ \<Rightarrow> Err ''object missing primary index''))"

definition list_memdb :: "list_db memdb" where
  "list_memdb = \<lparr>StringFieldIndex = list_string_index,
     StringMapFieldIndex = (\<lambda>_ _. \<lparr>FromObject = (\<lambda>_. Ok []), FromArgs = (\<lambda>_. Err ''unsupported'')\<rparr>),
     CompoundIndex = list_compound_index, NewMemDB = (\<lambda>sch. Ok (sch, [])), First = list_first, Get = list_get,
     Insert = list_insert, Delete = list_delete\<rparr>"

definition list_view :: "list_db memdb_view" where
  "list_view = \<lparr>db_schema = fst, db_rows = list_rows, db_key = list_key False, db_lower = map ascii_lower\<rparr>"

section \<open>It has the documented behaviour\<close>

lemma string_key_list: "string_key list_view lc s = list_key lc s"
  by (simp add: string_key_def list_view_def list_key_def)

lemma ascii_lower_O: "ascii_lower (CHR ''O'') = CHR ''o''"
  by code_simp

lemma ascii_lower_letters: "c \<in> set ''abcdefghijklmnopqrstuvwxyz'' \<Longrightarrow> ascii_lower c = c"
  by (auto simp: ascii_lower_def)

lemma list_indexers_ok: "indexers_ok list_memdb list_view"
proof -
  have "inj (list_key False)"
  proof (rule injI)
    fix x y
    assume "list_key False x = list_key False y"
    then have "bytes_of_string x = bytes_of_string y" by (simp add: list_key_def)
    then show "x = y" by (metis string_of_bytes_of_string)
  qed
  then have "string_keys_ok list_view"
    using ascii_lower_letters by (simp add: string_keys_ok_def list_view_def map_idI del: set_simps)
  moreover have "string_index_ok list_memdb list_view"
    by (simp add: string_index_ok_def list_memdb_def list_string_index_def string_key_list)
  moreover have "map_index_ok list_memdb" by (simp add: map_index_ok_def list_memdb_def)
  moreover have "compound_index_ok list_memdb"
    by (simp add: compound_index_ok_def list_memdb_def list_compound_index_def)
  ultimately show ?thesis by (simp add: indexers_ok_def)
qed

lemma set_list_objs: "set (list_objs db t) = ran (list_rows db t)"
proof
  show "set (list_objs db t) \<subseteq> ran (list_rows db t)"
    by (auto simp: list_objs_def list_rows_def ran_def) (metis option.exhaust_sel map_of_eq_None_iff fst_conv image_eqI)
  show "ran (list_rows db t) \<subseteq> set (list_objs db t)"
  proof
    fix obj
    assume "obj \<in> ran (list_rows db t)"
    then obtain k where "map_of (snd db) (t, k) = Some obj" by (auto simp: ran_def list_rows_def)
    moreover from this have "(t, k) \<in> fst ` set (snd db)" by (metis domI dom_map_of_conv_image_fst)
    ultimately show "obj \<in> set (list_objs db t)"
      by (auto simp: list_objs_def intro!: image_eqI [of _ _ "(t, k)"])
  qed
qed

lemma map_of_filter_neq: "map_of (filter (\<lambda>r. fst r \<noteq> x) rs) = (map_of rs)(x := None)"
  by (induction rs) (auto simp: fun_eq_iff)

lemma list_table_of: "table_of list_view db t = map_of (fst db) t"
  by (simp add: table_of_def list_view_def)

lemma list_memdb_ok: "memdb_ok list_memdb list_view"
proof -
  have "new_ok list_memdb list_view"
    by (simp add: new_ok_def list_memdb_def list_view_def list_rows_def fun_eq_iff)
  moreover have "first_ok list_memdb list_view"
    by (simp add: first_ok_def list_table_of list_memdb_def list_first_def) (simp add: list_view_def)
  moreover have "get_ok list_memdb list_view"
    by (auto simp: get_ok_def list_table_of list_memdb_def list_get_def set_list_objs has_key_def case_Ok_iff)
      (simp_all add: list_view_def)
  moreover have "insert_ok list_memdb list_view"
    by (simp add: insert_ok_def list_table_of list_memdb_def list_insert_def)
      (simp add: list_view_def list_rows_def fun_eq_iff)
  moreover have "delete_ok list_memdb list_view"
    by (auto simp: delete_ok_def list_table_of list_memdb_def list_delete_def)
      (auto simp: list_view_def list_rows_def map_of_filter_neq fun_eq_iff)
  ultimately show ?thesis using list_indexers_ok by (simp add: memdb_ok_def)
qed

definition list_store :: "list_db Store" where
  "list_store = \<lparr>st_schema = map fst (tables list_memdb), st_db = (tables list_memdb, []), st_abandoned = False\<rparr>"

lemma NewStore_list: "NewStore list_memdb = Ok list_store"
  by (simp add: NewStore_def collect_schemas_tables list_store_def list_memdb_def)

lemma list_store_ok: "store_ok list_memdb list_view list_store" "catalog_abs list_view list_store = empty_catalog"
proof -
  obtain s where "NewStore list_memdb = Ok s" "store_ok list_memdb list_view s" "db_rows list_view (st_db s) = (\<lambda>_ _. None)"
    using NewStore_ok [OF list_memdb_ok] by blast
  then show "store_ok list_memdb list_view list_store" "catalog_abs list_view list_store = empty_catalog"
    using NewStore_list by (auto simp: catalog_abs_empty)
qed

section \<open>A codec\<close>

abbreviation no_index :: RaftIndex where "no_index \<equiv> \<lparr>CreateIndex = 0, ModifyIndex = 0\<rparr>"

definition plain_topic :: "string \<Rightarrow> structs_Topic" where
  "plain_topic n = \<lparr>tp_ID = [], tp_Topic = n, tp_Partitions = [], tp_Config = None, tp_Internal = False,
     tp_RaftIndex = no_index\<rparr>"

definition plain_node :: "int32 \<Rightarrow> structs_Node" where
  "plain_node i = \<lparr>nd_ID = 0, nd_Node = i, nd_Address = [], nd_Check = None, nd_Meta = [], nd_RaftIndex = no_index\<rparr>"

definition plain_partition :: "string \<Rightarrow> int32 \<Rightarrow> int32 \<Rightarrow> structs_Partition" where
  "plain_partition n i l = \<lparr>pt_ID = i, pt_Partition = i, pt_Topic = n, pt_ISR = [], pt_AR = [], pt_Leader = l,
     pt_ControllerEpoch = 0, pt_LeaderEpoch = 0, pt_RaftIndex = no_index\<rparr>"

definition plain_group :: "string \<Rightarrow> structs_Group" where
  "plain_group n = \<lparr>gr_ID = [], gr_Group = n, gr_Coordinator = 0, gr_LeaderID = [], gr_Members = None,
     gr_State = GroupStatePreparingRebalance, gr_GenerationID = 0, gr_RaftIndex = no_index\<rparr>"

definition name_encode :: "request \<Rightarrow> (string, bytes) outcome" where
  "name_encode r =
     (case r of
        RegisterTopicRequest t \<Rightarrow> if t = plain_topic (tp_Topic t) then Ok (bytes_of_string (tp_Topic t)) else Err ''unsupported''
      | DeregisterTopicRequest t \<Rightarrow> if t = plain_topic (tp_Topic t) then Ok (bytes_of_string (tp_Topic t)) else Err ''unsupported''
      | RegisterNodeRequest n \<Rightarrow> if n = plain_node (nd_Node n) then Ok (PutUint32 (nd_Node n)) else Err ''unsupported''
      | _ \<Rightarrow> Err ''unsupported'')"

definition name_decode :: "MessageType \<Rightarrow> bytes \<Rightarrow> (string, request) outcome" where
  "name_decode t b =
     (if t = RegisterTopicRequestType then Ok (RegisterTopicRequest (plain_topic (string_of_bytes b)))
      else if t = DeregisterTopicRequestType then Ok (DeregisterTopicRequest (plain_topic (string_of_bytes b)))
      else if t = RegisterNodeRequestType then Ok (RegisterNodeRequest (plain_node (Uint32 b)))
      else Err ''unsupported'')"

definition name_codec :: msgpack where
  "name_codec = \<lparr>mp_Encode = name_encode, mp_Decode = name_decode, mp_EncodeHeader = (\<lambda>h. Ok (PutUint64 h)),
     mp_DecodeHeader = (\<lambda>b. if length b < 8 then Err ''EOF'' else Ok (Uint64 b, drop 8 b))\<rparr>"

lemma name_codec_ok: "msgpack_ok name_codec"
proof -
  have "mp_Decode name_codec (request_type r) b = Ok r" if "mp_Encode name_codec r = Ok b" for r b
    using that Uint32_Put [of _ "[]"]
    by (cases r) (auto simp: name_codec_def name_encode_def name_decode_def message_type_defs split: if_splits)
  moreover have "mp_DecodeHeader name_codec (b @ rest) = Ok (h, rest)" if "mp_EncodeHeader name_codec h = Ok b" for h b rest
    using that by (auto simp: name_codec_def)
  ultimately show ?thesis by (simp add: msgpack_ok_def)
qed

end
