(* ===== verification/Store_Theorems.thy ===== *)
theory Store_Theorems
  imports Memdb_List
begin

text \<open>
  The properties of the replicated state: every broker that applies the same log has the same
  catalogue, whatever database it keeps it in; what the indexes and the snapshots of the store do.
\<close>

section \<open>The replicated state\<close>

text \<open>
  C35: state machine agreement.  Two new brokers, each with a database of the documented behaviour,
  apply the same log of encoded requests: neither panics, both end in a store in good order, and both
  stores mean the catalogue that the abstract requests give one after the other; a request that
  registers a record without a name changes nothing.
\<close>

theorem replicas_agree:
  assumes "memdb_ok M V" and "memdb_ok N W" and "db_lower V = db_lower W" and "msgpack_ok C"
    and "encoded C rs entries"
  shows "\<exists>c d c' d'. FSM_New M = Ok c \<and> FSM_New N = Ok d \<and> apply_log M C c entries = Ok c' \<and>
    apply_log N C d entries = Ok d' \<and> fsm_ok M V c' \<and> fsm_ok N W d' \<and>
    fsm_catalog V c' = fold (spec_step (db_lower V)) rs empty_catalog \<and> fsm_catalog W d' = fsm_catalog V c'"
proof -
  obtain c d where new: "FSM_New M = Ok c" "fsm_ok M V c" "fsm_catalog V c = empty_catalog"
      "FSM_New N = Ok d" "fsm_ok N W d" "fsm_catalog W d = empty_catalog"
    using FSM_New_ok [OF assms(1)] FSM_New_ok [OF assms(2)] by blast
  from apply_log_refines [OF new(2) assms(4,5)] apply_log_refines [OF new(5) assms(4,5)] new assms(3)
  show ?thesis by fastforce
qed

theorem replicas_agree_witness:
  "\<exists>c d c' d'. FSM_New list_memdb = Ok c \<and> FSM_New list_memdb = Ok d \<and>
    apply_log list_memdb name_codec c
      [(2 # bytes_of_string ''t'', 5), (0 # PutUint32 7, 6), (2 # bytes_of_string [], 7)] = Ok c' \<and>
    apply_log list_memdb name_codec d
      [(2 # bytes_of_string ''t'', 5), (0 # PutUint32 7, 6), (2 # bytes_of_string [], 7)] = Ok d' \<and>
    fsm_ok list_memdb list_view c' \<and> fsm_ok list_memdb list_view d' \<and>
    fsm_catalog list_view c' = fold (spec_step (db_lower list_view))
      [(RegisterTopicRequest (plain_topic ''t''), 5), (RegisterNodeRequest (plain_node 7), 6),
       (RegisterTopicRequest (plain_topic []), 7)] empty_catalog \<and>
    fsm_catalog list_view d' = fsm_catalog list_view c'"
  by (rule replicas_agree [OF list_memdb_ok list_memdb_ok refl name_codec_ok])
    (simp add: structs_Encode_def name_codec_def name_encode_def plain_topic_def plain_node_def message_type_defs)



text \<open>
  C37: queries by a secondary index.  The partitions by leader and the groups by coordinator are, up
  to their order, exactly the stored ones with that leader and that coordinator; the lists of all
  nodes, topics and partitions are exactly the stored ones.  None of them fails.
\<close>

theorem secondary_index_queries:
  assumes "store_ok M V s"
  shows "(\<exists>i ps. PartitionsByLeader M s l = Ok (i, ps) \<and>
      set ps = {p \<in> ran (cat_partitions (catalog_abs V s)). pt_Leader p = l}) \<and>
    (\<exists>i gs. GetGroupsByCoordinator M s l = Ok (i, gs) \<and>
      set gs = {g \<in> ran (cat_groups (catalog_abs V s)). gr_Coordinator g = l}) \<and>
    (\<exists>i ns. GetNodes M s = Ok (i, ns) \<and> set ns = ran (cat_nodes (catalog_abs V s))) \<and>
    (\<exists>i ts. GetTopics M s = Ok (i, ts) \<and> set ts = ran (cat_topics (catalog_abs V s))) \<and>
    (\<exists>i ps. GetPartitions M s = Ok (i, ps) \<and> set ps = ran (cat_partitions (catalog_abs V s)))"
  using index_laws [OF assms] list_laws [OF assms] by meson

theorem secondary_index_queries_witness:
  "\<exists>s. EnsurePartition list_memdb list_store 4 (plain_partition ''t'' 0 3) = Ok s \<and>
    (\<exists>i ps. PartitionsByLeader list_memdb s 3 = Ok (i, ps) \<and>
      set ps = {p \<in> ran (cat_partitions (catalog_abs list_view s)). pt_Leader p = 3}) \<and>
    (\<exists>i gs. GetGroupsByCoordinator list_memdb s 3 = Ok (i, gs) \<and>
      set gs = {g \<in> ran (cat_groups (catalog_abs list_view s)). gr_Coordinator g = 3}) \<and>
    (\<exists>i ns. GetNodes list_memdb s = Ok (i, ns) \<and> set ns = ran (cat_nodes (catalog_abs list_view s))) \<and>
    (\<exists>i ts. GetTopics list_memdb s = Ok (i, ts) \<and> set ts = ran (cat_topics (catalog_abs list_view s))) \<and>
    (\<exists>i ps. GetPartitions list_memdb s = Ok (i, ps) \<and> set ps = ran (cat_partitions (catalog_abs list_view s)))"
proof -
  obtain s where s: "EnsurePartition list_memdb list_store 4 (plain_partition ''t'' 0 3) = Ok s" "store_ok list_memdb list_view s"
    using EnsurePartition_implements [OF list_store_ok(1), of "plain_partition ''t'' 0 3" 4]
    by (auto simp: implements_def plain_partition_def)
  with secondary_index_queries [OF s(2), of 3] show ?thesis by blast
qed

text \<open>
  C38: names that differ in case.  Two topic names with the same lower case form share one topic
  record: registering the second replaces the first, and both names find the second.  Partitions
  keep the two names apart: registering both leaves two records.
\<close>

theorem topics_share_case_partitions_do_not:
  assumes "store_ok M V s" and "tp_Topic t \<noteq> []" and "tp_Topic u \<noteq> []" and "tp_Topic t \<noteq> tp_Topic u"
    and "db_lower V (tp_Topic t) = db_lower V (tp_Topic u)"
    and "pt_Topic p = tp_Topic t" and "pt_Topic q = tp_Topic u"
  shows "(\<exists>s1 s2 x. EnsureTopic M s i t = Ok s1 \<and> EnsureTopic M s1 j u = Ok s2 \<and> tp_Topic x = tp_Topic u \<and>
      GetTopic M s2 (tp_Topic t) = Ok (j, Some x) \<and> GetTopic M s2 (tp_Topic u) = Ok (j, Some x)) \<and>
    (\<exists>s1 s2 x y. EnsurePartition M s i p = Ok s1 \<and> EnsurePartition M s1 j q = Ok s2 \<and>
      GetPartition M s2 (tp_Topic t) (pt_Partition p) = Ok (j, Some x) \<and> pt_Topic x = tp_Topic t \<and>
      GetPartition M s2 (tp_Topic u) (pt_Partition q) = Ok (j, Some y) \<and> pt_Topic y = tp_Topic u)"
proof
  obtain s1 where s1: "EnsureTopic M s i t = Ok s1" "store_ok M V s1"
    using topics_table.ensure_law [OF assms(1,2), of i] by blast
  obtain s2 x where "EnsureTopic M s1 j u = Ok s2" "store_ok M V s2" "tp_Topic x = tp_Topic u"
      "cat_topics (catalog_abs V s2) (db_lower V (tp_Topic u)) = Some x" "last_index (catalog_abs V s2) ''topics'' = j"
    using topics_table.ensure_law [OF s1(2) assms(3), of j] by (auto simp: fun_eq_iff)
  with s1 assms(5) show "\<exists>s1 s2 x. EnsureTopic M s i t = Ok s1 \<and> EnsureTopic M s1 j u = Ok s2 \<and>
      tp_Topic x = tp_Topic u \<and> GetTopic M s2 (tp_Topic t) = Ok (j, Some x) \<and> GetTopic M s2 (tp_Topic u) = Ok (j, Some x)"
    using topics_table.lookup_law [of M V s2] by auto
  have named: "pt_Topic p \<noteq> []" "pt_Topic q \<noteq> []" using assms by auto
  obtain s1 x where s1: "EnsurePartition M s i p = Ok s1" "store_ok M V s1" "pt_Topic x = pt_Topic p"
      "cat_partitions (catalog_abs V s1) (pt_Topic p, pt_Partition p) = Some x"
    using partitions_table.ensure_law [OF assms(1) named(1), of i] by (auto simp: fun_eq_iff)
  obtain s2 y where "EnsurePartition M s1 j q = Ok s2" "store_ok M V s2" "pt_Topic y = pt_Topic q"
      "cat_partitions (catalog_abs V s2) = (cat_partitions (catalog_abs V s1))((pt_Topic q, pt_Partition q) \<mapsto> y)"
      "last_index (catalog_abs V s2) ''partitions'' = j"
    using partitions_table.ensure_law [OF s1(2) named(2), of j] by auto
  with s1 assms(4,6,7) show "\<exists>s1 s2 x y. EnsurePartition M s i p = Ok s1 \<and> EnsurePartition M s1 j q = Ok s2 \<and>
      GetPartition M s2 (tp_Topic t) (pt_Partition p) = Ok (j, Some x) \<and> pt_Topic x = tp_Topic t \<and>
      GetPartition M s2 (tp_Topic u) (pt_Partition q) = Ok (j, Some y) \<and> pt_Topic y = tp_Topic u"
    using Get_laws(4) [of M V s2] by auto
qed

theorem topics_share_case_partitions_do_not_witness:
  "let t = plain_topic ''Orders''; u = plain_topic ''orders''; p = plain_partition ''Orders'' 0 1; q = plain_partition ''orders'' 0 2 in
    (\<exists>s1 s2 x. EnsureTopic list_memdb list_store 1 t = Ok s1 \<and> EnsureTopic list_memdb s1 2 u = Ok s2 \<and> tp_Topic x = tp_Topic u \<and>
      GetTopic list_memdb s2 (tp_Topic t) = Ok (2, Some x) \<and> GetTopic list_memdb s2 (tp_Topic u) = Ok (2, Some x)) \<and>
    (\<exists>s1 s2 x y. EnsurePartition list_memdb list_store 1 p = Ok s1 \<and> EnsurePartition list_memdb s1 2 q = Ok s2 \<and>
      GetPartition list_memdb s2 (tp_Topic t) (pt_Partition p) = Ok (2, Some x) \<and> pt_Topic x = tp_Topic t \<and>
      GetPartition list_memdb s2 (tp_Topic u) (pt_Partition q) = Ok (2, Some y) \<and> pt_Topic y = tp_Topic u)"
  unfolding Let_def
  by (rule topics_share_case_partitions_do_not [OF list_store_ok(1)])
    (simp_all add: plain_topic_def plain_partition_def list_view_def ascii_lower_O ascii_lower_letters)

text \<open>
  C39: snapshots.  Whatever a broker has applied, a snapshot of it can be taken, written and restored
  without an error, and the broker that restores it has an empty catalogue: only the header with the
  last index is written, since no persister is registered.
\<close>

theorem snapshot_loses_state:
  assumes "fsm_ok M V c" and "msgpack_ok C" and "\<not> st_abandoned (fsm_state c)"
    and "\<forall>h. \<exists>b. mp_EncodeHeader C h = Ok b"
  shows "\<exists>sn buf c'. FSM_Snapshot M c = Ok sn \<and> Persist C sn = Ok buf \<and> FSM_Restore M C c buf = Ok c' \<and>
    fsm_catalog V c' = empty_catalog"
  using snapshot_restore_empty [OF assms(1-3)] assms(4) by blast

theorem snapshot_loses_state_witness:
  "\<exists>c sn buf c'. FSM_Apply list_memdb name_codec \<lparr>fsm_apply = command_table, fsm_state = list_store\<rparr>
      (2 # bytes_of_string ''t'') 5 = Ok c \<and> fsm_catalog list_view c \<noteq> empty_catalog \<and>
    FSM_Snapshot list_memdb c = Ok sn \<and> Persist name_codec sn = Ok buf \<and>
    FSM_Restore list_memdb name_codec c buf = Ok c' \<and> fsm_catalog list_view c' = empty_catalog"
proof -
  let ?c = "\<lparr>fsm_apply = command_table, fsm_state = list_store\<rparr> :: list_db FSM"
  have ok: "fsm_ok list_memdb list_view ?c" by (simp add: fsm_ok_def list_store_ok(1))
  have enc: "structs_Encode name_codec (request_type (RegisterTopicRequest (plain_topic ''t''))) (RegisterTopicRequest (plain_topic ''t''))
      = Ok (2 # bytes_of_string ''t'')"
    by (simp add: structs_Encode_def name_codec_def name_encode_def plain_topic_def message_type_defs)
  obtain c where c: "FSM_Apply list_memdb name_codec ?c (2 # bytes_of_string ''t'') 5 = Ok c" "fsm_ok list_memdb list_view c"
      "fsm_catalog list_view c = spec_EnsureTopic (db_lower list_view) 5 (plain_topic ''t'') empty_catalog"
      "\<not> st_abandoned (fsm_state c)"
    using FSM_Apply_step [OF ok name_codec_ok _ enc, of 5]
    by (auto simp: plain_topic_def list_store_ok(2)) (auto simp: list_store_def)
  have "fsm_catalog list_view c \<noteq> empty_catalog"
    unfolding c(3) by (simp add: spec_EnsureTopic_def touch_def empty_catalog_def fun_upd_eqD)
  then show ?thesis
    using snapshot_loses_state [OF c(2) name_codec_ok c(4)] c(1) by (auto simp: name_codec_def)
qed

text \<open>
  C40: integer keys.  For every kind of signed integer the buffer of \<^verbatim>\<open>IsIntType\<close> is large enough for
  every value of the kind, so that indexing an object never panics and all keys of a kind have the
  same length; and different values have different keys.
\<close>

theorem integer_keys_fit_and_differ:
  assumes "IsIntType k = Some n" and "in_kind k x" and "in_kind k y"
  shows "\<exists>a b. PutVarint n x = Ok a \<and> PutVarint n y = Ok b \<and> length a = n \<and> length b = n \<and> (a = b \<longleftrightarrow> x = y)"
  using PutVarint_ok [OF assms(1,2)] PutVarint_ok [OF assms(1,3)] PutVarint_inj by (metis outcome.inject(1))

theorem integer_keys_fit_and_differ_witness:
  "\<exists>a b. PutVarint 5 (- 2147483648) = Ok a \<and> PutVarint 5 2147483647 = Ok b \<and> length a = 5 \<and> length b = 5 \<and>
    (a = b \<longleftrightarrow> (- 2147483648 :: int64) = 2147483647)"
  by (rule integer_keys_fit_and_differ [of KInt32]) simp_all

text \<open>
  Topic configuration.  A value that was set is the one read back, except that setting nil
  restores the default; other settings are untouched, a setting that does not exist cannot be added,
  and every entry stays under its own name.
\<close>

lemma config_set_get:
  "GetValue (SetValue c name v) other =
     (if other = name \<and> name \<in> dom c
      then if v = ValueNil then ce_Default (TopicConfig_Get c name) else v
      else GetValue c other) \<and>
   dom (SetValue c name v) = dom c \<and> well_named (SetValue NewTopicConfig name v)"
  by (simp add: GetValue_SetValue well_named_SetValue well_named_New)

end
