(* ===== verification/Lookup.thy ===== *)
theory Lookup
  imports Log_Segment "HOL-Library.AList"
begin

text \<open>
  Who the brokers are: the metadata a broker publishes in its membership tags
  (\<^verbatim>\<open>jocko/metadata/metadata.go\<close>) and the table of the brokers a broker knows
  (\<^verbatim>\<open>jocko/broker_lookup.go\<close>).  A Go map that is iterated over is the list of its entries; the locks
  are not modelled.
\<close>

section \<open>Standard library\<close>

text \<open>\<^verbatim>\<open>fmt.Sprintf("%d", n)\<close>.\<close>

definition fmt_d :: "int \<Rightarrow> string" where
  "fmt_d n = (if n < 0 then CHR ''-'' # digits (nat (- n)) else digits (nat n))"

text \<open>The index of the first and of the last occurrence of a byte, and \<^verbatim>\<open>net.SplitHostPort\<close>.\<close>

fun index_byte :: "string \<Rightarrow> char \<Rightarrow> nat option" where
  "index_byte [] c = None"
| "index_byte (x # xs) c = (if x = c then Some 0 else map_option Suc (index_byte xs c))"

definition last_index_byte :: "string \<Rightarrow> char \<Rightarrow> nat option" where
  "last_index_byte s c = map_option (\<lambda>i. length s - Suc i) (index_byte (rev s) c)"

definition SplitHostPort :: "string \<Rightarrow> (string, string \<times> string) outcome" where
  "SplitHostPort hostport =
     (case last_index_byte hostport (CHR '':'') of
        None \<Rightarrow> Err ''missing port in address''
      | Some i \<Rightarrow>
          let rest = (\<lambda>host j k.
            if CHR ''['' \<in> set (drop j hostport) then Err ''unexpected '[' in address''
            else if CHR '']'' \<in> set (drop k hostport) then Err ''unexpected ']' in address''
            else Ok (host, drop (Suc i) hostport)) in
          if take 1 hostport = ''['' then
            (case index_byte hostport (CHR '']'') of
               None \<Rightarrow> Err ''missing ']' in address''
             | Some e \<Rightarrow>
                 if Suc e = length hostport then Err ''missing port in address''
                 else if Suc e = i then rest (take (e - 1) (drop 1 hostport)) 1 (Suc e)
                 else if hostport ! Suc e = CHR '':'' then Err ''too many colons in address''
                 else Err ''missing port in address'')
          else
            let host = take i hostport in
            if CHR '':'' \<in> set host then Err ''too many colons in address'' else rest host 0 0)"

section \<open>Broker metadata\<close>

text \<open>A member of the gossip pool, with what the sources use of it; \<^verbatim>\<open>StatusReap\<close> is Jocko's own status.\<close>

datatype MemberStatus = StatusNone | StatusAlive | StatusLeaving | StatusLeft | StatusFailed | StatusReap

record serf_Member =
  sm_Name :: string
  sm_Tags :: "string \<rightharpoonup> string"
  sm_Status :: MemberStatus

record metadata_Broker =
  mt_ID :: int32
  mt_Name :: string
  mt_Bootstrap :: bool
  mt_Expect :: int64
  mt_NonVoter :: bool
  mt_Status :: MemberStatus
  mt_RaftAddr :: string
  mt_SerfLANAddr :: string
  mt_BrokerAddr :: string

definition NodeID_String :: "int32 \<Rightarrow> string" where
  "NodeID_String n = fmt_d (sint n)"

definition Broker_Host :: "metadata_Broker \<Rightarrow> (string, string) outcome" where
  "Broker_Host b = (case SplitHostPort (mt_BrokerAddr b) of Ok (host, _) \<Rightarrow> Ok host | _ \<Rightarrow> Panic)"

definition Broker_Port :: "metadata_Broker \<Rightarrow> (string, int32) outcome" where
  "Broker_Port b =
     (case SplitHostPort (mt_BrokerAddr b) of
        Ok (_, portStr) \<Rightarrow> (case Atoi portStr of Some port \<Rightarrow> Ok (word_of_int port) | None \<Rightarrow> Panic)
      | _ \<Rightarrow> Panic)"

definition tag :: "serf_Member \<Rightarrow> string \<Rightarrow> string" where
  "tag m k = (case sm_Tags m k of Some v \<Rightarrow> v | None \<Rightarrow> [])"

definition IsBroker :: "serf_Member \<Rightarrow> metadata_Broker option" where
  "IsBroker m =
     (if tag m ''role'' \<noteq> ''jocko'' then None
      else case (case sm_Tags m ''expect'' of None \<Rightarrow> Some 0 | Some expectStr \<Rightarrow> Atoi expectStr) of
        None \<Rightarrow> None
      | Some expect \<Rightarrow>
          (case Atoi (tag m ''id'') of
             None \<Rightarrow> None
           | Some i \<Rightarrow> Some
               \<lparr>mt_ID = word_of_int i, mt_Name = tag m ''name'', mt_Bootstrap = sm_Tags m ''bootstrap'' \<noteq> None,
                mt_Expect = word_of_int expect, mt_NonVoter = sm_Tags m ''non_voter'' \<noteq> None, mt_Status = sm_Status m,
                mt_RaftAddr = tag m ''raft_addr'', mt_SerfLANAddr = tag m ''serf_lan_addr'',
                mt_BrokerAddr = tag m ''broker_addr''\<rparr>))"

section \<open>Lookup tables\<close>

record brokerLookup =
  addressToBroker :: "(string \<times> metadata_Broker) list"
  idToBroker :: "(string \<times> metadata_Broker) list"

definition NewBrokerLookup :: brokerLookup where
  "NewBrokerLookup = \<lparr>addressToBroker = [], idToBroker = []\<rparr>"

definition AddBroker :: "metadata_Broker \<Rightarrow> brokerLookup \<Rightarrow> brokerLookup" where
  "AddBroker broker b =
     \<lparr>addressToBroker = AList.update (mt_RaftAddr broker) broker (addressToBroker b),
      idToBroker = AList.update (NodeID_String (mt_ID broker)) broker (idToBroker b)\<rparr>"

definition BrokerByAddr :: "string \<Rightarrow> brokerLookup \<Rightarrow> metadata_Broker option" where
  "BrokerByAddr addr b = map_of (addressToBroker b) addr"

definition BrokerByID :: "string \<Rightarrow> brokerLookup \<Rightarrow> metadata_Broker option" where
  "BrokerByID i b = map_of (idToBroker b) i"

definition BrokerAddr :: "string \<Rightarrow> brokerLookup \<Rightarrow> (string, string) outcome" where
  "BrokerAddr i b =
     (case map_of (idToBroker b) i of
        None \<Rightarrow> Err (''no broker for id '' @ i) | Some svr \<Rightarrow> Ok (mt_RaftAddr svr))"

definition RemoveBroker :: "metadata_Broker \<Rightarrow> brokerLookup \<Rightarrow> brokerLookup" where
  "RemoveBroker broker b =
     \<lparr>addressToBroker = AList.delete (mt_RaftAddr broker) (addressToBroker b),
      idToBroker = AList.delete (NodeID_String (mt_ID broker)) (idToBroker b)\<rparr>"

definition Brokers :: "brokerLookup \<Rightarrow> metadata_Broker list" where
  "Brokers b = map snd (addressToBroker b)"

text \<open>\<^verbatim>\<open>rand.Intn(n)\<close> is an argument \<open>k\<close>, taken below \<open>n\<close>; it panics when there is nothing to choose from.\<close>

definition RandomBroker :: "nat \<Rightarrow> brokerLookup \<Rightarrow> (string, metadata_Broker) outcome" where
  "RandomBroker k b = (let brokers = Brokers b in
     if brokers = [] then Panic else Ok (brokers ! (k mod length brokers)))"

section \<open>Laws\<close>

lemma digits_inject: "digits m = digits n \<longleftrightarrow> m = n"
  by (metis option.inject read_digits_digits)

lemma digits_not_minus: "digits n \<noteq> CHR ''-'' # s"
proof -
  obtain d :: nat and cs where d: "d < 10" "digits n = char_of (48 + d) # cs" using digits_Cons by blast
  have "digit_of CHR ''-'' = None" by (simp add: digit_of_def)
  with digit_of_char [OF d(1)] have "char_of (48 + d) \<noteq> CHR ''-''" by (metis option.distinct(1))
  with d(2) show ?thesis by simp
qed

lemma fmt_d_inject [simp]: "fmt_d m = fmt_d n \<longleftrightarrow> m = n"
  by (cases "m < 0"; cases "n < 0")
    (auto simp: fmt_d_def digits_inject digits_not_minus digits_not_minus [symmetric] nat_eq_iff)

lemma NodeID_String_inject [simp]: "NodeID_String i = NodeID_String j \<longleftrightarrow> i = j"
  by (auto simp: NodeID_String_def intro: signed_word_eqI)

lemma Atoi_fmt_d: "- (2 ^ 63) \<le> n \<Longrightarrow> n < 2 ^ 63 \<Longrightarrow> Atoi (fmt_d n) = Some n"
proof (cases "n < 0")
  case True
  moreover have "digits (nat (- n)) \<noteq> []" by (metis digits_Cons list.distinct(1))
  ultimately show "- (2 ^ 63) \<le> n \<Longrightarrow> n < 2 ^ 63 \<Longrightarrow> Atoi (fmt_d n) = Some n"
    by (simp add: fmt_d_def Atoi_def)
next
  case False
  obtain c cs where c: "digits (nat n) = c # cs" "c \<noteq> CHR ''-''" "c \<noteq> CHR ''+''"
    using pad_not_sign [of 0 "nat n"] by (auto simp: pad_zeros_def)
  then have "(case c # cs of CHR ''-'' # ds \<Rightarrow> (True, ds) | CHR ''+'' # ds \<Rightarrow> (False, ds)
      | _ \<Rightarrow> (False, c # cs)) = (False, c # cs)"
    by (auto split: char.splits bool.splits)
  moreover have "read_digits 0 (c # cs) = Some (nat n)" using c(1) by (metis read_digits_digits)
  ultimately show "- (2 ^ 63) \<le> n \<Longrightarrow> n < 2 ^ 63 \<Longrightarrow> Atoi (fmt_d n) = Some n"
    using False c(1) by (simp add: fmt_d_def Atoi_def)
qed

text \<open>
  What the clients of a lookup rely on: the value added last under a key is the one found, and a
  removed one is not found any more.  Values are added and removed under a key of their own.
\<close>

locale registry =
  fixes find :: "'s \<Rightarrow> 'k \<Rightarrow> 'v option"
    and add :: "'v \<Rightarrow> 's \<Rightarrow> 's"
    and remove :: "'v \<Rightarrow> 's \<Rightarrow> 's"
    and key :: "'v \<Rightarrow> 'k"
  assumes find_add: "find (add v s) k = (if k = key v then Some v else find s k)"
    and find_remove: "find (remove v s) k = (if k = key v then None else find s k)"
begin

lemma find_added_all: "find (fold add vs s) k =
    (case filter (\<lambda>v. key v = k) (rev vs) of [] \<Rightarrow> find s k | v # _ \<Rightarrow> Some v)"
  by (induction vs arbitrary: s) (auto simp: find_add split: list.splits)

lemma add_remove: "find (remove v (add v s)) = find (remove v s)"
  by (rule ext) (simp add: find_add find_remove)

lemma add_again: "find (add v (add w s)) = find (add v s)" if "key v = key w"
  by (rule ext) (simp add: find_add that)

end

interpretation broker_by_id: registry "\<lambda>b i. BrokerByID i b" AddBroker RemoveBroker "\<lambda>m. NodeID_String (mt_ID m)"
  by unfold_locales (auto simp: BrokerByID_def AddBroker_def RemoveBroker_def update_conv' delete_conv')

interpretation broker_by_addr: registry "\<lambda>b a. BrokerByAddr a b" AddBroker RemoveBroker mt_RaftAddr
  by unfold_locales (auto simp: BrokerByAddr_def AddBroker_def RemoveBroker_def update_conv' delete_conv')

text \<open>
  The two tables agree when they hold the same brokers, each under its own address and its own id,
  and none of them twice.
\<close>

definition lookup_ok :: "brokerLookup \<Rightarrow> bool" where
  "lookup_ok b \<longleftrightarrow> distinct (map fst (addressToBroker b)) \<and> distinct (map fst (idToBroker b)) \<and>
     (\<forall>a m. map_of (addressToBroker b) a = Some m \<longrightarrow> a = mt_RaftAddr m \<and> map_of (idToBroker b) (NodeID_String (mt_ID m)) = Some m) \<and>
     (\<forall>i m. map_of (idToBroker b) i = Some m \<longrightarrow> i = NodeID_String (mt_ID m) \<and> map_of (addressToBroker b) (mt_RaftAddr m) = Some m)"

lemma lookup_ok_New [simp]: "lookup_ok NewBrokerLookup"
  by (simp add: lookup_ok_def NewBrokerLookup_def)

text \<open>A broker that comes back under another address, or another broker under its address, breaks the agreement.\<close>

definition no_clash :: "metadata_Broker \<Rightarrow> brokerLookup \<Rightarrow> bool" where
  "no_clash m b \<longleftrightarrow> (\<forall>n. BrokerByID (NodeID_String (mt_ID m)) b = Some n \<longrightarrow> mt_RaftAddr n = mt_RaftAddr m) \<and>
     (\<forall>n. BrokerByAddr (mt_RaftAddr m) b = Some n \<longrightarrow> mt_ID n = mt_ID m)"

lemma lookup_okI:
  assumes "distinct (map fst (addressToBroker b))" and "distinct (map fst (idToBroker b))"
    and "\<And>a m. BrokerByAddr a b = Some m \<Longrightarrow> a = mt_RaftAddr m \<and> BrokerByID (NodeID_String (mt_ID m)) b = Some m"
    and "\<And>i m. BrokerByID i b = Some m \<Longrightarrow> i = NodeID_String (mt_ID m) \<and> BrokerByAddr (mt_RaftAddr m) b = Some m"
  shows "lookup_ok b"
  using assms by (simp add: lookup_ok_def BrokerByAddr_def BrokerByID_def)

lemma lookup_okD:
  assumes "lookup_ok b"
  shows "BrokerByAddr a b = Some m \<Longrightarrow> a = mt_RaftAddr m \<and> BrokerByID (NodeID_String (mt_ID m)) b = Some m"
    "BrokerByID i b = Some m \<Longrightarrow> i = NodeID_String (mt_ID m) \<and> BrokerByAddr (mt_RaftAddr m) b = Some m"
  using assms by (simp_all add: lookup_ok_def BrokerByAddr_def BrokerByID_def)

lemma no_clashD:
  assumes "no_clash m b"
  shows "BrokerByID (NodeID_String (mt_ID m)) b = Some n \<Longrightarrow> mt_RaftAddr n = mt_RaftAddr m"
    "BrokerByAddr (mt_RaftAddr m) b = Some n \<Longrightarrow> mt_ID n = mt_ID m"
  using assms by (simp_all add: no_clash_def)

lemma other_broker:
  assumes "lookup_ok b" and "no_clash m b"
  shows "BrokerByAddr a b = Some n \<Longrightarrow> a \<noteq> mt_RaftAddr m \<Longrightarrow>
      a = mt_RaftAddr n \<and> mt_ID n \<noteq> mt_ID m \<and> BrokerByID (NodeID_String (mt_ID n)) b = Some n"
    "BrokerByID i b = Some n \<Longrightarrow> i \<noteq> NodeID_String (mt_ID m) \<Longrightarrow>
      i = NodeID_String (mt_ID n) \<and> mt_RaftAddr n \<noteq> mt_RaftAddr m \<and> BrokerByAddr (mt_RaftAddr n) b = Some n"
proof -
  assume n: "BrokerByAddr a b = Some n" "a \<noteq> mt_RaftAddr m"
  note ok = lookup_okD(1) [OF assms(1) n(1)]
  have "mt_ID n \<noteq> mt_ID m"
  proof
    assume "mt_ID n = mt_ID m"
    with ok have "mt_RaftAddr n = mt_RaftAddr m" by (intro no_clashD(1) [OF assms(2)]) simp
    with ok n(2) show False by simp
  qed
  with ok show "a = mt_RaftAddr n \<and> mt_ID n \<noteq> mt_ID m \<and> BrokerByID (NodeID_String (mt_ID n)) b = Some n" by simp
next
  assume n: "BrokerByID i b = Some n" "i \<noteq> NodeID_String (mt_ID m)"
  note ok = lookup_okD(2) [OF assms(1) n(1)]
  have "mt_RaftAddr n \<noteq> mt_RaftAddr m"
  proof
    assume "mt_RaftAddr n = mt_RaftAddr m"
    with ok have "mt_ID n = mt_ID m" by (intro no_clashD(2) [OF assms(2)]) simp
    with ok n(2) show False by simp
  qed
  with ok show "i = NodeID_String (mt_ID n) \<and> mt_RaftAddr n \<noteq> mt_RaftAddr m \<and> BrokerByAddr (mt_RaftAddr n) b = Some n"
    by simp
qed

lemma AddBroker_lookup_ok:
  assumes "lookup_ok b" and "no_clash m b"
  shows "lookup_ok (AddBroker m b)"
proof (rule lookup_okI)
  show "distinct (map fst (addressToBroker (AddBroker m b)))" "distinct (map fst (idToBroker (AddBroker m b)))"
    using assms(1) by (simp_all add: lookup_ok_def AddBroker_def distinct_update)
next
  fix a n
  assume "BrokerByAddr a (AddBroker m b) = Some n"
  then show "a = mt_RaftAddr n \<and> BrokerByID (NodeID_String (mt_ID n)) (AddBroker m b) = Some n"
    using other_broker(1) [OF assms, of a n]
    by (cases "a = mt_RaftAddr m") (simp_all add: broker_by_id.find_add broker_by_addr.find_add)
next
  fix i n
  assume "BrokerByID i (AddBroker m b) = Some n"
  then show "i = NodeID_String (mt_ID n) \<and> BrokerByAddr (mt_RaftAddr n) (AddBroker m b) = Some n"
    using other_broker(2) [OF assms, of i n]
    by (cases "i = NodeID_String (mt_ID m)") (simp_all add: broker_by_id.find_add broker_by_addr.find_add)
qed

lemma RemoveBroker_lookup_ok:
  assumes "lookup_ok b" and "no_clash m b"
  shows "lookup_ok (RemoveBroker m b)"
proof (rule lookup_okI)
  show "distinct (map fst (addressToBroker (RemoveBroker m b)))" "distinct (map fst (idToBroker (RemoveBroker m b)))"
    using assms(1) by (simp_all add: lookup_ok_def RemoveBroker_def distinct_delete)
next
  fix a n
  assume "BrokerByAddr a (RemoveBroker m b) = Some n"
  then show "a = mt_RaftAddr n \<and> BrokerByID (NodeID_String (mt_ID n)) (RemoveBroker m b) = Some n"
    using other_broker(1) [OF assms, of a n]
    by (cases "a = mt_RaftAddr m") (simp_all add: broker_by_id.find_remove broker_by_addr.find_remove)
next
  fix i n
  assume "BrokerByID i (RemoveBroker m b) = Some n"
  then show "i = NodeID_String (mt_ID n) \<and> BrokerByAddr (mt_RaftAddr n) (RemoveBroker m b) = Some n"
    using other_broker(2) [OF assms, of i n]
    by (cases "i = NodeID_String (mt_ID m)") (simp_all add: broker_by_id.find_remove broker_by_addr.find_remove)
qed

lemma set_Brokers:
  assumes "lookup_ok b"
  shows "m \<in> set (Brokers b) \<longleftrightarrow> BrokerByID (NodeID_String (mt_ID m)) b = Some m"
proof -
  have d: "distinct (map fst (addressToBroker b))" using assms by (simp add: lookup_ok_def)
  have "m \<in> set (Brokers b) \<longleftrightarrow> (\<exists>a. BrokerByAddr a b = Some m)"
    by (force simp: Brokers_def BrokerByAddr_def map_of_eq_Some_iff [OF d])
  then show ?thesis using lookup_okD [OF assms] by blast
qed

lemma distinct_Brokers:
  assumes "lookup_ok b"
  shows "distinct (map mt_ID (Brokers b))"
proof -
  have "distinct (map fst (addressToBroker b))" using assms by (simp add: lookup_ok_def)
  moreover have "inj_on (\<lambda>x. mt_ID (snd x)) (set (addressToBroker b))"
  proof (rule inj_onI)
    fix x y
    assume x: "x \<in> set (addressToBroker b)" and y: "y \<in> set (addressToBroker b)" and eq: "mt_ID (snd x) = mt_ID (snd y)"
    then have "snd x \<in> set (Brokers b)" "snd y \<in> set (Brokers b)" by (simp_all add: Brokers_def)
    with eq have "snd x = snd y" by (simp add: set_Brokers [OF assms])
    moreover have "BrokerByAddr (fst x) b = Some (snd x)" "BrokerByAddr (fst y) b = Some (snd y)"
      using x y assms by (simp_all add: lookup_ok_def BrokerByAddr_def map_of_is_SomeI)
    then have "fst x = mt_RaftAddr (snd x)" "fst y = mt_RaftAddr (snd y)" using lookup_okD(1) [OF assms] by blast+
    ultimately show "x = y" by (simp add: prod_eq_iff)
  qed
  ultimately show ?thesis by (simp add: Brokers_def distinct_map comp_def)
qed

end
