(* ===== verification/Proto_Errors.thy ===== *)
theory Proto_Errors
  imports Wire
begin

text \<open>
  The error values of the protocol (\<^verbatim>\<open>protocol/error.go\<close>): a code, a message and possibly a wrapped Go
  error, of which only the text is used.
\<close>

record Error =
  err_code :: int16
  err_msg :: string
  err_err :: "string option"

definition Error_Code :: "Error \<Rightarrow> int16" where "Error_Code e = err_code e"

definition Error_String :: "Error \<Rightarrow> string" where "Error_String e = err_msg e"

definition Error_Error :: "Error \<Rightarrow> string" where
  "Error_Error e = (case err_err e of Some t \<Rightarrow> err_msg e @ '': '' @ t | None \<Rightarrow> err_msg e)"

definition WithErr :: "Error \<Rightarrow> string option \<Rightarrow> Error" where
  "WithErr e err = \<lparr>err_code = err_code e, err_msg = err_msg e, err_err = err\<rparr>"

abbreviation plain_Error :: "int16 \<Rightarrow> string \<Rightarrow> Error" where
  "plain_Error c m \<equiv> \<lparr>err_code = c, err_msg = m, err_err = None\<rparr>"

text \<open>The error values of the package, in the order of the source, and the table from codes to them.\<close>

definition error_values :: "Error list" where
  "error_values = [
     plain_Error (- 1) ''unknown'', plain_Error 0 ''none'', plain_Error 1 ''offset out of range'',
     plain_Error 2 ''corrupt message'', plain_Error 3 ''unknown topic or partition'',
     plain_Error 4 ''invalid fetch size'', plain_Error 5 ''leader not available'',
     plain_Error 6 ''not leader for partition'', plain_Error 7 ''request timed out'',
     plain_Error 8 ''broker not available'', plain_Error 9 ''replica not available'',
     plain_Error 10 ''message too large'', plain_Error 11 ''stale controller epoch'',
     plain_Error 12 ''offset metadata too large'', plain_Error 13 ''network exception'',
     plain_Error 14 ''coordinator load in progress'', plain_Error 15 ''coordinator not available'',
     plain_Error 16 ''not coordinator'', plain_Error 17 ''invalid topic exception'',
     plain_Error 18 ''record list too large'', plain_Error 19 ''not enough replicas'',
     plain_Error 20 ''not enough replicas after append'', plain_Error 21 ''invalid required acks'',
     plain_Error 22 ''illegal generation'', plain_Error 23 ''inconsistent group protocol'',
     plain_Error 24 ''invalid group id'', plain_Error 25 ''unknown member id'',
     plain_Error 26 ''invalid session timeout'', plain_Error 27 ''rebalance in progress'',
     plain_Error 28 ''invalid commit offset size'', plain_Error 29 ''topic authorization failed'',
     plain_Error 30 ''group authorization failed'', plain_Error 31 ''cluster authorization failed'',
     plain_Error 32 ''invalid timestamp'', plain_Error 33 ''unsupported sasl mechanism'',
     plain_Error 34 ''illegal sasl state'', plain_Error 35 ''unsupported Version'',
     plain_Error 36 ''topic already exists'', plain_Error 37 ''invalid partitions'',
     plain_Error 38 ''invalid replication factor'', plain_Error 39 ''invalid replica assignment'',
     plain_Error 40 ''invalid config'', plain_Error 41 ''not controller'', plain_Error 42 ''invalid request'',
     plain_Error 43 ''unsupported for message format'', plain_Error 44 ''policy violation'',
     plain_Error 45 ''out of order sequence number'', plain_Error 46 ''duplicate sequence number'',
     plain_Error 47 ''invalid producer epoch'', plain_Error 48 ''invalid txn state'',
     plain_Error 49 ''invalid producer id mapping'', plain_Error 50 ''invalid transaction timeout'',
     plain_Error 51 ''concurrent transactions'', plain_Error 52 ''transaction coordinator fenced'',
     plain_Error 53 ''transactional id authorization failed'', plain_Error 54 ''security disabled'',
     plain_Error 55 ''operation not attempted'']"

definition Errs :: "int16 \<rightharpoonup> Error" where
  "Errs = map_of (map (\<lambda>e. (err_code e, e)) error_values)"

text \<open>The ones the broker uses, by name.\<close>

definition ErrUnknown :: Error where "ErrUnknown = plain_Error (- 1) ''unknown''"
definition ErrNone :: Error where "ErrNone = plain_Error 0 ''none''"
definition ErrUnknownTopicOrPartition :: Error where "ErrUnknownTopicOrPartition = plain_Error 3 ''unknown topic or partition''"
definition ErrNotLeaderForPartition :: Error where "ErrNotLeaderForPartition = plain_Error 6 ''not leader for partition''"
definition ErrRequestTimedOut :: Error where "ErrRequestTimedOut = plain_Error 7 ''request timed out''"
definition ErrBrokerNotAvailable :: Error where "ErrBrokerNotAvailable = plain_Error 8 ''broker not available''"
definition ErrReplicaNotAvailable :: Error where "ErrReplicaNotAvailable = plain_Error 9 ''replica not available''"
definition ErrIllegalGeneration :: Error where "ErrIllegalGeneration = plain_Error 22 ''illegal generation''"
definition ErrInvalidGroupId :: Error where "ErrInvalidGroupId = plain_Error 24 ''invalid group id''"
definition ErrUnknownMemberId :: Error where "ErrUnknownMemberId = plain_Error 25 ''unknown member id''"
definition ErrRebalanceInProgress :: Error where "ErrRebalanceInProgress = plain_Error 27 ''rebalance in progress''"
definition ErrTopicAlreadyExists :: Error where "ErrTopicAlreadyExists = plain_Error 36 ''topic already exists''"
definition ErrInvalidReplicationFactor :: Error where "ErrInvalidReplicationFactor = plain_Error 38 ''invalid replication factor''"
definition ErrNotController :: Error where "ErrNotController = plain_Error 41 ''not controller''"

lemmas error_defs = ErrUnknown_def ErrNone_def ErrUnknownTopicOrPartition_def ErrNotLeaderForPartition_def
  ErrRequestTimedOut_def ErrBrokerNotAvailable_def ErrReplicaNotAvailable_def ErrIllegalGeneration_def
  ErrInvalidGroupId_def ErrUnknownMemberId_def ErrRebalanceInProgress_def ErrTopicAlreadyExists_def
  ErrInvalidReplicationFactor_def ErrNotController_def

text \<open>The table finds every error under its own code.\<close>

lemma distinct_error_codes: "distinct (map err_code error_values)"
  by (simp add: error_values_def)

lemma Errs_Code: "e \<in> set error_values \<Longrightarrow> Errs (Error_Code e) = Some e"
  unfolding Errs_def Error_Code_def
  by (rule map_of_is_SomeI) (simp_all add: distinct_error_codes o_def)

lemma WithErr_Code [simp]: "Error_Code (WithErr e err) = Error_Code e" "Error_String (WithErr e err) = Error_String e"
  by (simp_all add: Error_Code_def Error_String_def WithErr_def)

end
