(* ===== verification/Replication.thy ===== *)
theory Replication
  imports Lookup Structs Log_Correct Proto_Data Proto_Errors
begin

text \<open>
  Replicas of partitions, their lookup table (\<^verbatim>\<open>jocko/replica_lookup.go\<close>) and the replicator by which a
  follower copies its leader (\<^verbatim>\<open>jocko/replicator.go\<close>).

  A run of Go code returns, panics, or does not return.
\<close>

section \<open>Runs\<close>

datatype 'a run = Returns 'a | Panics | Hangs

fun run_bind :: "('a \<times> 's) run \<Rightarrow> ('a \<Rightarrow> 's \<Rightarrow> ('b \<times> 's) run) \<Rightarrow> ('b \<times> 's) run" where
  "run_bind (Returns (x, s)) f = f x s"
| "run_bind Panics f = Panics"
| "run_bind Hangs f = Hangs"

text \<open>\<^verbatim>\<open>for i, x := range xs\<close>, where the body gives one element of a slice.\<close>

fun for_range :: "(nat \<Rightarrow> 'x \<Rightarrow> 's \<Rightarrow> ('y \<times> 's) run) \<Rightarrow> nat \<Rightarrow> 'x list \<Rightarrow> 's \<Rightarrow> ('y list \<times> 's) run" where
  "for_range f i [] s = Returns ([], s)"
| "for_range f i (x # xs) s =
     run_bind (f i x s) (\<lambda>y s. run_bind (for_range f (Suc i) xs s) (\<lambda>ys s. Returns (y # ys, s)))"

lemma run_bind_eq_Returns: "run_bind m f = Returns y \<longleftrightarrow> (\<exists>x s. m = Returns (x, s) \<and> f x s = Returns y)"
  by (cases m) auto

lemma for_range_invariant:
  assumes "for_range f i xs s = Returns (ys, s')" and "I s"
    and "\<And>i x s y s'. x \<in> set xs \<Longrightarrow> I s \<Longrightarrow> f i x s = Returns (y, s') \<Longrightarrow> I s'"
  shows "I s'"
  using assms
proof (induction xs arbitrary: i s ys)
  case (Cons x xs)
  from Cons.prems(1) obtain y s1 zs where 1: "f i x s = Returns (y, s1)" "for_range f (Suc i) xs s1 = Returns (zs, s')"
    by (auto simp: run_bind_eq_Returns)
  have "I s1" using Cons.prems(3) [OF _ Cons.prems(2) 1(1)] by simp
  from Cons.IH [OF 1(2) this] Cons.prems(3) show ?case by (metis list.set_intros(2))
qed simp

section \<open>Replicators and replicas\<close>

record ReplicatorConfig =
  rc_MinBytes :: int32
  rc_MaxWaitTime :: duration

text \<open>
  \<open>rr_msgs\<close> is the channel between the two goroutines, oldest first; that it holds two sets at most
  only delays the fetching side.  \<open>rr_done\<close> says that \<^verbatim>\<open>done\<close> is closed, \<open>rr_running\<close> that \<^verbatim>\<open>Replicate\<close> has
  been called, and \<open>rr_leader\<close> is the address the connection to the leader was dialled with.
\<close>

record Replicator =
  rr_config :: ReplicatorConfig
  rr_highwaterMarkOffset :: int64
  rr_offset :: int64
  rr_msgs :: "bytes list"
  rr_done :: bool
  rr_running :: bool
  rr_leader :: string

record Replica =
  rp_BrokerID :: int32
  rp_Partition :: structs_Partition
  rp_IsLocal :: bool
  rp_Log :: "CommitLog option"
  rp_Hw :: int64
  rp_Leo :: int64
  rp_Replicator :: "Replicator option"

definition NewReplicator :: "ReplicatorConfig \<Rightarrow> string \<Rightarrow> Replicator" where
  "NewReplicator config leader =
     \<lparr>rr_config = (if rc_MinBytes config = 0 then config\<lparr>rc_MinBytes := 1\<rparr> else config),
      rr_highwaterMarkOffset = 0, rr_offset = 0, rr_msgs = [], rr_done = False, rr_running = False, rr_leader = leader\<rparr>"

definition Replicate :: "Replicator \<Rightarrow> Replicator" where
  "Replicate r = r\<lparr>rr_running := True\<rparr>"

text \<open>Closing a closed channel panics.\<close>

definition Replicator_Close :: "Replicator \<Rightarrow> Replicator run" where
  "Replicator_Close r = (if rr_done r then Panics else Returns (r\<lparr>rr_done := True\<rparr>))"

subsection \<open>Fetching\<close>

definition fetch_request :: "Replica \<Rightarrow> Replicator \<Rightarrow> FetchRequest" where
  "fetch_request replica r =
     \<lparr>freq_APIVersion = 0, freq_ReplicaID = rp_BrokerID replica, freq_MaxWaitTime = rc_MaxWaitTime (rr_config r),
      freq_MinBytes = rc_MinBytes (rr_config r), freq_MaxBytes = 0, freq_IsolationLevel = 0,
      freq_Topics = [\<lparr>ft_Topic = pt_Topic (rp_Partition replica),
        ft_Partitions = [\<lparr>fp_Partition = pt_ID (rp_Partition replica), fp_FetchOffset = rr_offset r, fp_MaxBytes = 0\<rparr>]\<rparr>]\<rparr>"

text \<open>
  \<^verbatim>\<open>p.RecordSet[:8]\<close> reaches into the capacity of the slice: \<open>behind\<close> is what follows the set in the
  buffer it was decoded from.  A decoded empty set has a buffer of its own, without capacity.
\<close>

definition leading_offset :: "bytes \<Rightarrow> bytes \<Rightarrow> int64 option" where
  "leading_offset behind rs =
     (if rs = [] \<or> length (rs @ behind) < 8 then None else Some (Uint64 (take 8 (rs @ behind))))"

text \<open>
  The two loops over a response, as one over all its partitions: \<^const>\<open>False\<close> where the code goes to
  \<^verbatim>\<open>BACKOFF\<close>, which leaves both.
\<close>

fun take_responses :: "(bytes \<Rightarrow> bytes) \<Rightarrow> FetchPartitionResponse list \<Rightarrow> Replicator \<Rightarrow> (bool \<times> Replicator) run" where
  "take_responses behind [] r = Returns (True, r)"
| "take_responses behind (p # ps) r =
     (if fpr_ErrorCode p \<noteq> Error_Code ErrNone then Returns (False, r)
      else case fpr_RecordSet p of
        None \<Rightarrow> Returns (False, r)
      | Some rs \<Rightarrow>
          (case leading_offset (behind rs) rs of
             None \<Rightarrow> Panics
           | Some offset \<Rightarrow> take_responses behind ps
               (if sint (rr_offset r) < sint offset
                then r\<lparr>rr_msgs := rr_msgs r @ [rs], rr_highwaterMarkOffset := fpr_HighWatermark p, rr_offset := offset\<rparr>
                else r)))"

text \<open>One turn of \<^verbatim>\<open>fetchMessages\<close>, given what the leader answers.\<close>

definition fetchMessages :: "(bytes \<Rightarrow> bytes) \<Rightarrow> (string, FetchResponse) outcome \<Rightarrow> Replicator \<Rightarrow> (bool \<times> Replicator) run" where
  "fetchMessages behind answer r =
     (case answer of
        Ok res \<Rightarrow> take_responses behind (concat (map ftr_PartitionResponses (fres_Responses res))) r
      | Err _ \<Rightarrow> Returns (False, r)
      | Panic \<Rightarrow> Panics)"

text \<open>One turn of \<^verbatim>\<open>appendMessages\<close>: it waits for a set, and an error of the log is a panic.\<close>

definition appendMessages :: "(bytes \<Rightarrow> uint64) \<Rightarrow> Replicator \<Rightarrow> CommitLog \<Rightarrow> (Replicator \<times> CommitLog) run" where
  "appendMessages hash r l =
     (case rr_msgs r of
        [] \<Rightarrow> Hangs
      | msg # msgs \<Rightarrow>
          (case Append hash msg l of
             None \<Rightarrow> Hangs
           | Some (Ok (_, l')) \<Rightarrow> Returns (r\<lparr>rr_msgs := msgs\<rparr>, l')
           | Some _ \<Rightarrow> Panics))"

section \<open>Lookup\<close>

type_synonym replicaLookup = "string \<rightharpoonup> (int32 \<rightharpoonup> Replica)"

definition NewReplicaLookup :: replicaLookup where
  "NewReplicaLookup = (\<lambda>_. None)"

definition AddReplica :: "Replica \<Rightarrow> replicaLookup \<Rightarrow> replicaLookup" where
  "AddReplica replica rl =
     (let topic = pt_Topic (rp_Partition replica); i = pt_ID (rp_Partition replica);
          rl = (if rl topic = None then rl(topic \<mapsto> (\<lambda>_. None)) else rl) in
      rl(topic := map_option (\<lambda>t. t(i \<mapsto> replica)) (rl topic)))"

text \<open>Reading or deleting in a nil map is a lookup that fails, or does nothing.\<close>

definition LookupReplica :: "string \<Rightarrow> int32 \<Rightarrow> replicaLookup \<Rightarrow> (string, Replica) outcome" where
  "LookupReplica topic part rl =
     (case Option.bind (rl topic) (\<lambda>t. t part) of
        Some r \<Rightarrow> Ok r
      | None \<Rightarrow> Err (''no replica for topic '' @ topic @ '' partition '' @ fmt_d (sint part)))"

definition RemoveReplica :: "Replica \<Rightarrow> replicaLookup \<Rightarrow> replicaLookup" where
  "RemoveReplica replica rl =
     (let topic = pt_Topic (rp_Partition replica); i = pt_ID (rp_Partition replica) in
      rl(topic := map_option (\<lambda>t. t(i := None)) (rl topic)))"

abbreviation replica_at :: "replicaLookup \<Rightarrow> string \<times> int32 \<Rightarrow> Replica option" where
  "replica_at rl k \<equiv> Option.bind (rl (fst k)) (\<lambda>t. t (snd k))"

abbreviation replica_key :: "Replica \<Rightarrow> string \<times> int32" where
  "replica_key r \<equiv> (pt_Topic (rp_Partition r), pt_ID (rp_Partition r))"

interpretation replica_table: registry replica_at AddReplica RemoveReplica replica_key
  by unfold_locales (auto simp: AddReplica_def RemoveReplica_def Let_def split: bind_splits)

lemma LookupReplica_eq:
  "LookupReplica t i rl = (case replica_at rl (t, i) of Some r \<Rightarrow> Ok r
     | None \<Rightarrow> Err (''no replica for topic '' @ t @ '' partition '' @ fmt_d (sint i)))"
  by (simp add: LookupReplica_def)

end
