(* ===== verification/Broker_Core.thy ===== *)
theory Broker_Core
  imports Replication FSM Proto_Topics Proto_Groups
begin

text \<open>
  The state of a broker and its work on topics and replicas (\<^verbatim>\<open>Broker\<close> in \<^verbatim>\<open>jocko/broker.go\<close>, the
  configuration it reads from \<^verbatim>\<open>jocko/config/config.go\<close>, and \<^verbatim>\<open>raftApply\<close> of \<^verbatim>\<open>jocko/leader.go\<close>).

  One goroutine handles the requests of a broker one after the other; work that a request leaves
  behind is kept in the state.  The packages the broker only calls are parameters: the database and
  the codec of the state machine, raft, the network, \<^verbatim>\<open>math/rand\<close>, \<^verbatim>\<open>xxhash\<close>, the identifiers of
  \<^verbatim>\<open>satori/go.uuid\<close>, the clock and the files a log is opened on.  Locks, tracing and log output are
  not modelled.
\<close>

section \<open>Parameters\<close>

record raft_Server =
  rs_Voter :: bool
  rs_ID :: string
  rs_Address :: string

text \<open>
  Raft with a state of its own.  A call that changes it gives the error of the future or a result:
  for \<^verbatim>\<open>Apply\<close> the index of the entry, which the state machine of this broker has applied by then.
\<close>

record 'r raft =
  raft_Apply :: "'r \<Rightarrow> bytes \<Rightarrow> (string, uint64) outcome \<times> 'r"
  raft_Leader :: "'r \<Rightarrow> bool"
  raft_GetConfiguration :: "'r \<Rightarrow> (string, raft_Server list) outcome"
  raft_RemoveServer :: "'r \<Rightarrow> string \<Rightarrow> string option \<times> 'r"
  raft_AddVoter :: "'r \<Rightarrow> string \<Rightarrow> string \<Rightarrow> string option \<times> 'r"
  raft_AddNonvoter :: "'r \<Rightarrow> string \<Rightarrow> string \<Rightarrow> string option \<times> 'r"
  raft_Barrier :: "'r \<Rightarrow> string option \<times> 'r"
  raft_LastIndex :: "'r \<Rightarrow> (string, uint64) outcome"
  raft_BootstrapCluster :: "'r \<Rightarrow> raft_Server list \<Rightarrow> string option \<times> 'r"

text \<open>
  \<open>en_rand t i\<close> is the number \<^verbatim>\<open>rand.Intn\<close> gives, before it is reduced to its range, for the \<open>i\<close>-th choice
  for \<open>t\<close>; \<open>en_Dial\<close> the error of connecting to an address; \<open>en_LeaderAndISR\<close> what a remote broker
  answers; \<open>en_files\<close> the directory a log is opened on, and \<open>en_cwd\<close> the names in the working directory;
  \<open>en_chunk\<close> how much \<^verbatim>\<open>bytes.Buffer\<close> asks of a reader at a time.
\<close>

record ('db, 'r) env =
  en_memdb :: "'db memdb"
  en_codec :: msgpack
  en_raft :: "'r raft"
  en_hash :: "bytes \<Rightarrow> uint64"
  en_rand :: "string \<Rightarrow> nat \<Rightarrow> nat"
  en_Dial :: "string \<Rightarrow> string option"
  en_LeaderAndISR :: "string \<Rightarrow> LeaderAndISRRequest \<Rightarrow> (string, LeaderAndISRResponse) outcome"
  en_files :: "string \<Rightarrow> (string \<times> bytes) list"
  en_cwd :: "string \<Rightarrow> bool"
  en_chunk :: "nat \<Rightarrow> nat"
  en_uuid :: string
  en_now :: go_time

section \<open>State\<close>

record Config =
  cf_ID :: int32
  cf_NodeName :: string
  cf_DataDir :: string
  cf_DevMode :: bool
  cf_Addr :: string
  cf_Bootstrap :: bool
  cf_BootstrapExpect :: int64
  cf_StartAsLeader :: bool
  cf_NonVoter :: bool
  cf_RaftAddr :: string
  cf_SerfLANAddr :: string
  cf_OffsetsTopicReplicationFactor :: int16

text \<open>What \<^verbatim>\<open>withTimeout\<close> runs, with the variables of the closure it is given.\<close>

datatype work =
    CreateTopicWork CreateTopicRequest
  | DeleteTopicWork string
  | ProduceWork string Data
  | FetchWork int32 string FetchPartition

text \<open>
  A goroutine that is still to run: started and forgotten, or one whose caller has given up waiting
  and has closed the channel it will send on.
\<close>

datatype background = Spawned work | Overdue work

record ('db, 'r) broker =
  bk_config :: Config
  bk_readyForConsistentReads :: bool
  bk_brokerLookup :: brokerLookup
  bk_replicaLookup :: replicaLookup
  bk_raft :: 'r
  bk_reconcileCh :: "serf_Member list"
  bk_members :: "serf_Member list"
  bk_fsm :: "'db FSM"
  bk_shutdown :: bool
  bk_background :: "background list"

abbreviation broker_ID :: "('db, 'r) broker \<Rightarrow> int32" where
  "broker_ID b \<equiv> cf_ID (bk_config b)"

abbreviation broker_state :: "('db, 'r) broker \<Rightarrow> 'db Store" where
  "broker_state b \<equiv> fsm_state (bk_fsm b)"

subsection \<open>Start\<close>

text \<open>
  What the raft library and its stores give when a broker starts: the address of a transport, the errors of making a directory and of
  opening the stores in it, whether the stores hold a cluster already, the error of bootstrapping one, and raft for an id.
\<close>

record 'r raft_lib =
  lib_NewTCPTransport :: "string \<Rightarrow> (string, string) outcome"
  lib_MkdirAll :: "string \<Rightarrow> string option"
  lib_NewBoltStore :: "string \<Rightarrow> string option"
  lib_NewLogCache :: "string option"
  lib_NewFileSnapshotStore :: "string \<Rightarrow> string option"
  lib_HasExistingState :: "(string, bool) outcome"
  lib_BootstrapCluster :: "raft_Server list \<Rightarrow> string option"
  lib_NewRaft :: "string \<Rightarrow> bool \<Rightarrow> (string, 'r) outcome"

definition raft_path :: "Config \<Rightarrow> string" where
  "raft_path c = (if cf_DataDir c = [] then [] else cf_DataDir c @ ''/'') @ ''raft''"

text \<open>The stores, in memory or on disk: the error, and whether the store on disk is open.\<close>

definition raft_stores :: "'r raft_lib \<Rightarrow> Config \<Rightarrow> string option \<times> bool" where
  "raft_stores L c =
     (if cf_DevMode c then (None, False)
      else case lib_MkdirAll L (raft_path c) of
        Some e \<Rightarrow> (Some e, False)
      | None \<Rightarrow>
          (case lib_NewBoltStore L (raft_path c @ ''/raft.db'') of
             Some e \<Rightarrow> (Some e, False)
           | None \<Rightarrow>
               (case lib_NewLogCache L of
                  Some e \<Rightarrow> (Some e, True)
                | None \<Rightarrow> (lib_NewFileSnapshotStore L (raft_path c), True))))"

definition bootstrap_self :: "'r raft_lib \<Rightarrow> Config \<Rightarrow> string \<Rightarrow> (string, unit) outcome" where
  "bootstrap_self L c addr =
     (if \<not> (cf_Bootstrap c \<or> cf_DevMode c) then Ok ()
      else out_bind (lib_HasExistingState L) (\<lambda>hasState.
        if hasState then Ok ()
        else case lib_BootstrapCluster L [\<lparr>rs_Voter = True, rs_ID = fmt_d (sint (cf_ID c)), rs_Address = addr\<rparr>] of
          Some e \<Rightarrow> Err e
        | None \<Rightarrow> Ok ()))"

text \<open>The state machine and raft, and whether the store on disk is left open: it is closed again when there is no raft in the end.\<close>

definition setupRaft :: "('db, 'r) env \<Rightarrow> 'r raft_lib \<Rightarrow> Config \<Rightarrow> (string, 'db FSM \<times> 'r) outcome \<times> bool" where
  "setupRaft E L c =
     (let (serr, opened) = raft_stores L c;
          res = out_bind (FSM_New (en_memdb E)) (\<lambda>fsm.
                out_bind (lib_NewTCPTransport L (cf_RaftAddr c)) (\<lambda>addr.
                out_bind (case serr of Some e \<Rightarrow> Err e | None \<Rightarrow> Ok ()) (\<lambda>_.
                out_bind (bootstrap_self L c addr) (\<lambda>_.
                out_bind (lib_NewRaft L (fmt_d (sint (cf_ID c))) (cf_StartAsLeader c)) (\<lambda>r. Ok (fsm, r)))))) in
      (res, case res of Ok _ \<Rightarrow> opened | _ \<Rightarrow> False))"

text \<open>A new broker; \<open>pool\<close> is the error of \<^verbatim>\<open>setupSerf\<close>, or the members of the pool it starts.\<close>

definition NewBroker :: "('db, 'r) env \<Rightarrow> 'r raft_lib \<Rightarrow> (string, serf_Member list) outcome \<Rightarrow> Config \<Rightarrow> (string, ('db, 'r) broker) outcome" where
  "NewBroker E L pool config =
     (case fst (setupRaft E L config) of
        Panic \<Rightarrow> Panic
      | Err e \<Rightarrow> Err (''start raft: '' @ e)
      | Ok (fsm, r) \<Rightarrow> out_bind pool (\<lambda>members.
          Ok \<lparr>bk_config = config, bk_readyForConsistentReads = False, bk_brokerLookup = NewBrokerLookup,
            bk_replicaLookup = NewReplicaLookup, bk_raft = r, bk_reconcileCh = [], bk_members = members, bk_fsm = fsm,
            bk_shutdown = False, bk_background = []\<rparr>))"

lemma NewBroker_Ok:
  assumes "NewBroker E L pool config = Ok b"
  obtains fsm r members where "FSM_New (en_memdb E) = Ok fsm"
    and "b = \<lparr>bk_config = config, bk_readyForConsistentReads = False, bk_brokerLookup = NewBrokerLookup,
      bk_replicaLookup = NewReplicaLookup, bk_raft = r, bk_reconcileCh = [], bk_members = members, bk_fsm = fsm,
      bk_shutdown = False, bk_background = []\<rparr>"
  using assms by (auto simp: NewBroker_def setupRaft_def Let_def out_bind_eq_Ok split: outcome.splits prod.splits)

text \<open>A failed start leaves no store open.\<close>

lemma setupRaft_closes: "fst (setupRaft E L c) = Err e \<Longrightarrow> \<not> snd (setupRaft E L c)"
  by (auto simp: setupRaft_def Let_def split: prod.splits)

definition LANMembers :: "('db, 'r) broker \<Rightarrow> serf_Member list" where
  "LANMembers b = bk_members b"

text \<open>
  One turn of \<^verbatim>\<open>logState\<close>: the members, nodes and topics it prints.  It panics on an error of the store, and on a node without a health
  check.
\<close>

definition logState :: "('db, 'r) env \<Rightarrow> ('db, 'r) broker \<Rightarrow>
    (string list \<times> (int32 \<times> string) list \<times> (string \<times> (int32 \<times> int32 list) list) list) run" where
  "logState E b =
     (case GetNodes (en_memdb E) (broker_state b) of
        Ok (_, nodes) \<Rightarrow>
          if \<exists>n\<in>set nodes. nd_Check n = None then Panics
          else (case GetTopics (en_memdb E) (broker_state b) of
              Ok (_, topics) \<Rightarrow> Returns (map sm_Name (LANMembers b), map (\<lambda>n. (nd_Node n, hc_Status (the (nd_Check n)))) nodes,
                map (\<lambda>t. (tp_Topic t, tp_Partitions t)) topics)
            | _ \<Rightarrow> Panics)
      | _ \<Rightarrow> Panics)"

definition isLeader :: "('db, 'r) env \<Rightarrow> ('db, 'r) broker \<Rightarrow> bool" where
  "isLeader E b = raft_Leader (en_raft E) (bk_raft b)"

definition isController :: "('db, 'r) env \<Rightarrow> ('db, 'r) broker \<Rightarrow> bool" where
  "isController E b = isLeader E b"

text \<open>
  \<^verbatim>\<open>raftApply\<close> returns the error of encoding or of raft; what the state machine answers is the response
  of the future, which no caller looks at.
\<close>

definition raftApply :: "('db, 'r) env \<Rightarrow> request \<Rightarrow> ('db, 'r) broker \<Rightarrow> (string option \<times> ('db, 'r) broker) run" where
  "raftApply E msg b =
     (case structs_Encode (en_codec E) (request_type msg) msg of
        Panic \<Rightarrow> Panics
      | Err e \<Rightarrow> Returns (Some (''failed to encode request: '' @ e), b)
      | Ok buf \<Rightarrow>
          (case raft_Apply (en_raft E) (bk_raft b) buf of
             (res, r) \<Rightarrow> let b = b\<lparr>bk_raft := r\<rparr> in
               case res of
                 Panic \<Rightarrow> Panics
               | Err e \<Rightarrow> Returns (Some e, b)
               | Ok index \<Rightarrow>
                   (case FSM_Apply (en_memdb E) (en_codec E) (bk_fsm b) buf index of
                      Panic \<Rightarrow> Panics
                    | Err _ \<Rightarrow> Returns (None, b)
                    | Ok fsm \<Rightarrow> Returns (None, b\<lparr>bk_fsm := fsm\<rparr>))))"

abbreviation zero_index :: RaftIndex where "zero_index \<equiv> \<lparr>CreateIndex = 0, ModifyIndex = 0\<rparr>"

text \<open>The zero value of an error that wraps another: no code reads the text of the inner one.\<close>

abbreviation unknown_error :: Error where "unknown_error \<equiv> WithErr ErrUnknown (Some [])"

section \<open>Partitions\<close>

definition createPartition :: "('db, 'r) env \<Rightarrow> structs_Partition \<Rightarrow> ('db, 'r) broker \<Rightarrow>
    (string option \<times> ('db, 'r) broker) run" where
  "createPartition E part b = raftApply E (RegisterPartitionRequest part) b"

text \<open>
  The ring of brokers is the list of their ids with a position.  Each partition moves it by a random
  number of brokers to its leader, and by one broker for every further replica.
\<close>

fun assign_partitions :: "int32 list \<Rightarrow> string \<Rightarrow> (nat \<Rightarrow> nat) \<Rightarrow> nat \<Rightarrow> nat \<Rightarrow> nat \<Rightarrow> nat \<Rightarrow> structs_Partition list" where
  "assign_partitions ids topic rnd extra here i 0 = []"
| "assign_partitions ids topic rnd extra here i (Suc n) =
     (let count = length ids;
          here = (here + rnd i mod count) mod count;
          leader = ids ! here;
          replicas = map (\<lambda>k. ids ! ((here + k) mod count)) [0..<Suc extra] in
      \<lparr>pt_ID = word_of_nat i, pt_Partition = word_of_nat i, pt_Topic = topic, pt_ISR = replicas, pt_AR = replicas,
       pt_Leader = leader, pt_ControllerEpoch = 0, pt_LeaderEpoch = 0, pt_RaftIndex = zero_index\<rparr>
      # assign_partitions ids topic rnd extra ((here + extra) mod count) (Suc i) n)"

text \<open>\<^verbatim>\<open>replicationFactor-1\<close> wraps; \<^verbatim>\<open>rand.Intn(0)\<close> panics, when there is no broker to choose from.\<close>

definition buildPartitions :: "('db, 'r) env \<Rightarrow> string \<Rightarrow> int32 \<Rightarrow> int16 \<Rightarrow> ('db, 'r) broker \<Rightarrow>
    (Error, structs_Partition list) outcome" where
  "buildPartitions E topic partitionsCount replicationFactor b =
     (let brokers = Brokers (bk_brokerLookup b); count = length brokers in
      if int count < sint replicationFactor then Err ErrInvalidReplicationFactor
      else if count = 0 \<and> 0 < sint partitionsCount then Panic
      else Ok (assign_partitions (map mt_ID brokers) topic (en_rand E topic) (nat (sint (replicationFactor - 1))) 0 0
        (nat (sint partitionsCount))))"

section \<open>Replicas\<close>

definition contains :: "int32 list \<Rightarrow> int32 \<Rightarrow> bool" where
  "contains rs r = (r \<in> set rs)"

text \<open>
  Every replica with the same partition number has the same directory, whatever its topic; the name
  of the data directory is taken to be one that \<^verbatim>\<open>filepath.Clean\<close> does not change.  The assertion that the policy is a string panics when the topic has no configuration.
\<close>

definition replica_path :: "Config \<Rightarrow> int32 \<Rightarrow> string" where
  "replica_path c i = (if cf_DataDir c = [] then [] else cf_DataDir c @ ''/'') @ ''data/'' @ fmt_d (sint i)"

definition startReplica :: "('db, 'r) env \<Rightarrow> ('db, 'r) broker \<Rightarrow> Replica \<Rightarrow> (Error \<times> Replica) run" where
  "startReplica E b replica =
     (case GetTopic (en_memdb E) (broker_state b) (pt_Topic (rp_Partition replica)) of
        Panic \<Rightarrow> Panics
      | Err _ \<Rightarrow> Returns (ErrUnknownTopicOrPartition, replica)
      | Ok (_, None) \<Rightarrow> Returns (ErrUnknownTopicOrPartition, replica)
      | Ok (_, Some topic) \<Rightarrow>
          if rp_Log replica \<noteq> None then Returns (ErrNone, replica)
          else case Option.bind (tp_Config topic) (\<lambda>c. Some (GetValue c ''cleanup.policy'')) of
            Some (ValueString policy) \<Rightarrow>
              (let path = replica_path (bk_config b) (pt_ID (rp_Partition replica)) in
               case CommitLog_New (en_cwd E) (en_files E path) path 1024 (- 1) policy of
                 Panic \<Rightarrow> Panics
               | Err _ \<Rightarrow> Returns (unknown_error, replica)
               | Ok l \<Rightarrow> Returns (ErrNone, replica\<lparr>rp_Log := Some l\<rparr>))
          | _ \<Rightarrow> Panics)"

definition close_replicator :: "Replica \<Rightarrow> Replica run" where
  "close_replicator replica =
     (case rp_Replicator replica of
        None \<Rightarrow> Returns replica
      | Some r \<Rightarrow>
          (case Replicator_Close r of
             Returns r \<Rightarrow> Returns (replica\<lparr>rp_Replicator := Some r\<rparr>) | Panics \<Rightarrow> Panics | Hangs \<Rightarrow> Hangs))"

definition becomeFollower :: "('db, 'r) env \<Rightarrow> ('db, 'r) broker \<Rightarrow> Replica \<Rightarrow> PartitionState \<Rightarrow> (Error \<times> Replica) run" where
  "becomeFollower E b replica cmd =
     (case close_replicator replica of
        Panics \<Rightarrow> Panics
      | Hangs \<Rightarrow> Hangs
      | Returns replica \<Rightarrow>
          (case rp_Log replica of
             None \<Rightarrow> Panics
           | Some l \<Rightarrow>
               (case Truncate (NewestOffset l) l of
                  Panic \<Rightarrow> Panics
                | Err _ \<Rightarrow> Returns (unknown_error, replica)
                | Ok l \<Rightarrow>
                    let replica = replica\<lparr>rp_Log := Some l\<rparr> in
                    case BrokerByID (fmt_d (sint (ps_Leader cmd))) (bk_brokerLookup b) of
                      None \<Rightarrow> Returns (ErrBrokerNotAvailable, replica)
                    | Some broker \<Rightarrow>
                        (case en_Dial E (mt_BrokerAddr broker) of
                           Some _ \<Rightarrow> Returns (unknown_error, replica)
                         | None \<Rightarrow>
                             let r = NewReplicator \<lparr>rc_MinBytes = 0, rc_MaxWaitTime = 0\<rparr> (mt_BrokerAddr broker) in
                             Returns (ErrNone, replica\<lparr>rp_Replicator :=
                               Some (if cf_DevMode (bk_config b) then r else Replicate r)\<rparr>)))))"

definition becomeLeader :: "Replica \<Rightarrow> PartitionState \<Rightarrow> (Error \<times> Replica) run" where
  "becomeLeader replica cmd =
     (case close_replicator replica of
        Panics \<Rightarrow> Panics
      | Hangs \<Rightarrow> Hangs
      | Returns replica \<Rightarrow>
          Returns (ErrNone, replica\<lparr>rp_Replicator := None,
            rp_Partition := (rp_Partition replica)\<lparr>pt_Leader := ps_Leader cmd, pt_AR := ps_Replicas cmd,
              pt_ISR := ps_ISR cmd, pt_LeaderEpoch := ps_ZKVersion cmd\<rparr>\<rparr>))"

text \<open>The replica the broker makes for a partition state, and what it does with it.\<close>

definition new_replica :: "int32 \<Rightarrow> PartitionState \<Rightarrow> Replica" where
  "new_replica i p =
     \<lparr>rp_BrokerID = i,
      rp_Partition = \<lparr>pt_ID = ps_Partition p, pt_Partition = ps_Partition p, pt_Topic = ps_Topic p, pt_ISR = ps_ISR p,
        pt_AR = ps_Replicas p, pt_Leader = ps_Leader p, pt_ControllerEpoch = ps_ZKVersion p,
        pt_LeaderEpoch = ps_LeaderEpoch p, pt_RaftIndex = zero_index\<rparr>,
      rp_IsLocal = True, rp_Log = None, rp_Hw = 0, rp_Leo = 0, rp_Replicator = None\<rparr>"

definition take_role :: "('db, 'r) env \<Rightarrow> ('db, 'r) broker \<Rightarrow> PartitionState \<Rightarrow> Replica \<Rightarrow> (Error \<times> Replica) run" where
  "take_role E b p replica =
     (let start = (\<lambda>k. case startReplica E b replica of
            Panics \<Rightarrow> Panics
          | Hangs \<Rightarrow> Hangs
          | Returns (err, replica) \<Rightarrow> if err \<noteq> ErrNone then Returns (err, replica) else k replica) in
      if ps_Leader p = broker_ID b \<and> pt_Leader (rp_Partition replica) = broker_ID b then
        start (\<lambda>replica. becomeLeader replica p)
      else if contains (ps_Replicas p) (broker_ID b) \<and> ps_Leader p \<noteq> broker_ID b then
        start (\<lambda>replica. becomeFollower E b replica p)
      else Returns (ErrNone, replica))"

text \<open>
  The lookup holds a pointer to the replica: what the later calls do to it is seen there, which is
  putting it there once more.
\<close>

definition handleLeaderAndISR :: "('db, 'r) env \<Rightarrow> LeaderAndISRRequest \<Rightarrow> ('db, 'r) broker \<Rightarrow>
    (LeaderAndISRResponse \<times> ('db, 'r) broker) run" where
  "handleLeaderAndISR E req b =
     run_bind (for_range (\<lambda>i p b.
        let replica = new_replica (broker_ID b) p;
            b = b\<lparr>bk_replicaLookup := AddReplica replica (bk_replicaLookup b)\<rparr> in
        case take_role E b p replica of
          Panics \<Rightarrow> Panics
        | Hangs \<Rightarrow> Hangs
        | Returns (err, replica) \<Rightarrow>
            Returns (\<lparr>lip_Topic = ps_Topic p, lip_Partition = ps_Partition p, lip_ErrorCode = Error_Code err\<rparr>,
              b\<lparr>bk_replicaLookup := AddReplica replica (bk_replicaLookup b)\<rparr>)) 0 (lireq_PartitionStates req) b)
       (\<lambda>ps b. Returns (\<lparr>lires_APIVersion = lireq_APIVersion req, lires_ErrorCode = 0, lires_Partitions = ps\<rparr>, b))"

section \<open>Topics\<close>

definition new_topic :: "string \<Rightarrow> bool \<Rightarrow> (int32 \<times> int32 list) list \<Rightarrow> structs_Topic" where
  "new_topic name internal ps = \<lparr>tp_ID = [], tp_Topic = name, tp_Partitions = ps, tp_Config = None,
     tp_Internal = internal, tp_RaftIndex = zero_index\<rparr>"

text \<open>\<^verbatim>\<open>for _, partition := range ps { if err := b.createPartition(partition); err != nil { return } }\<close>\<close>

fun create_partitions :: "('db, 'r) env \<Rightarrow> structs_Partition list \<Rightarrow> ('db, 'r) broker \<Rightarrow>
    (string option \<times> ('db, 'r) broker) run" where
  "create_partitions E [] b = Returns (None, b)"
| "create_partitions E (p # ps) b =
     run_bind (createPartition E p b) (\<lambda>err b. if err \<noteq> None then Returns (err, b) else create_partitions E ps b)"

text \<open>The new leaders and followers are told one after the other, the broker itself by a call.\<close>

fun tell_brokers :: "('db, 'r) env \<Rightarrow> LeaderAndISRRequest \<Rightarrow> metadata_Broker list \<Rightarrow> ('db, 'r) broker \<Rightarrow>
    (Error \<times> ('db, 'r) broker) run" where
  "tell_brokers E req [] b = Returns (ErrNone, b)"
| "tell_brokers E req (m # ms) b =
     (if mt_ID m = broker_ID b then
        run_bind (handleLeaderAndISR E req b) (\<lambda>res b.
          if Error_Code ErrNone \<noteq> lires_ErrorCode res then Panics else tell_brokers E req ms b)
      else case en_Dial E (mt_BrokerAddr m) of
        Some _ \<Rightarrow> Returns (unknown_error, b)
      | None \<Rightarrow>
          (case en_LeaderAndISR E (mt_BrokerAddr m) req of
             Panic \<Rightarrow> Panics
           | Err _ \<Rightarrow> Returns (unknown_error, b)
           | Ok _ \<Rightarrow> tell_brokers E req ms b))"

definition partition_state :: "structs_Partition \<Rightarrow> PartitionState" where
  "partition_state p = \<lparr>ps_Topic = pt_Topic p, ps_Partition = pt_ID p, ps_ControllerEpoch = 0, ps_Leader = pt_Leader p,
     ps_LeaderEpoch = 0, ps_ISR = pt_ISR p, ps_ZKVersion = 0, ps_Replicas = pt_AR p, ps_IsNew = False\<rparr>"

definition leader_and_isr :: "int32 \<Rightarrow> structs_Partition list \<Rightarrow> LeaderAndISRRequest" where
  "leader_and_isr controller ps = \<lparr>lireq_APIVersion = 0, lireq_ControllerID = controller, lireq_ControllerEpoch = 0,
     lireq_PartitionStates = map partition_state ps, lireq_LiveLeaders = []\<rparr>"

definition createTopic :: "('db, 'r) env \<Rightarrow> CreateTopicRequest \<Rightarrow> ('db, 'r) broker \<Rightarrow> (Error \<times> ('db, 'r) broker) run" where
  "createTopic E topic b =
     (case GetTopic (en_memdb E) (broker_state b) (ctr_Topic topic) of
        Panic \<Rightarrow> Panics
      | Ok (_, Some _) \<Rightarrow> Returns (ErrTopicAlreadyExists, b)
      | _ \<Rightarrow>
          (case buildPartitions E (ctr_Topic topic) (ctr_NumPartitions topic) (ctr_ReplicationFactor topic) b of
             Panic \<Rightarrow> Panics
           | Err err \<Rightarrow> Returns (err, b)
           | Ok ps \<Rightarrow>
               let tt = new_topic (ctr_Topic topic) False (fold (\<lambda>p. AList.update (pt_ID p) (pt_AR p)) ps []) in
               run_bind (raftApply E (RegisterTopicRequest tt) b) (\<lambda>err b.
               if err \<noteq> None then Returns (unknown_error, b)
               else run_bind (create_partitions E ps b) (\<lambda>err b.
               if err \<noteq> None then Returns (unknown_error, b)
               else tell_brokers E (leader_and_isr (broker_ID b) ps) (Brokers (bk_brokerLookup b)) b))))"

definition OffsetsTopicName :: string where "OffsetsTopicName = ''__consumer_offsets''"

text \<open>
  The error of registering the topic is returned only after the partitions have been created, and
  with the topic.
\<close>

definition offsetsTopic :: "('db, 'r) env \<Rightarrow> ('db, 'r) broker \<Rightarrow> ((structs_Topic option \<times> string option) \<times> ('db, 'r) broker) run" where
  "offsetsTopic E b =
     (case GetTopic (en_memdb E) (broker_state b) OffsetsTopicName of
        Panic \<Rightarrow> Panics
      | Err e \<Rightarrow> Returns ((None, Some e), b)
      | Ok (_, Some topic) \<Rightarrow> Returns ((Some topic, None), b)
      | Ok (_, None) \<Rightarrow>
          (case buildPartitions E OffsetsTopicName 50 (cf_OffsetsTopicReplicationFactor (bk_config b)) b of
             Panic \<Rightarrow> Panics
           | Err err \<Rightarrow> Returns ((None, Some (Error_Error err)), b)
           | Ok ps \<Rightarrow>
               let topic = new_topic OffsetsTopicName True (fold (\<lambda>p. AList.update (pt_Partition p) (pt_AR p)) ps []) in
               run_bind (raftApply E (RegisterTopicRequest topic) b) (\<lambda>err b.
               run_bind (create_partitions E ps b) (\<lambda>err' b.
               if err' \<noteq> None then Returns ((None, err'), b) else Returns ((Some topic, err), b)))))"

end
