(* ===== verification/Broker_Handlers.thy ===== *)
theory Broker_Handlers
  imports Broker_Core
begin

text \<open>
  The handlers of a broker (\<^verbatim>\<open>handle...\<close> and \<^verbatim>\<open>withTimeout\<close> in \<^verbatim>\<open>jocko/broker.go\<close>), each from a request and
  the state to a response and the state.
\<close>

section \<open>Reading a log into a buffer\<close>

text \<open>
  \<^verbatim>\<open>io.Copy\<close> into a \<^verbatim>\<open>bytes.Buffer\<close> is its \<^verbatim>\<open>ReadFrom\<close>: it reads, some bytes at a time, until the reader
  reports the end, which is no error of the copy.  \<open>chunk k\<close> is the room of the buffer when it holds
  \<open>k\<close> bytes.
\<close>

partial_function (option) ReadFrom ::
    "(nat \<Rightarrow> nat) \<Rightarrow> CommitLog \<Rightarrow> bytes \<Rightarrow> Reader \<Rightarrow> (log_error, bytes \<times> Reader) outcome option" where
  "ReadFrom chunk l buf rd =
     (case Reader_Read rd (chunk (length buf)) l of
        Panic \<Rightarrow> Some Panic
      | Err e \<Rightarrow> Some (Err e)
      | Ok (p, err, rd) \<Rightarrow>
          (if err = Some EOF then Some (Ok (buf @ p, rd))
           else if err \<noteq> None then Some (Err (the err))
           else ReadFrom chunk l (buf @ p) rd))"

text \<open>
  The loop \<^verbatim>\<open>for n < r.MinBytes\<close>, with the buffer (nil before the first copy) and the count \<open>n\<close> of its
  bytes; a copy reports no error at the end of the log, so the end does not end the loop.
\<close>

abbreviation buffer_bytes :: "bytes option \<Rightarrow> bytes" where
  "buffer_bytes buf \<equiv> (case buf of None \<Rightarrow> [] | Some b \<Rightarrow> b)"

partial_function (option) fetch_loop ::
    "(nat \<Rightarrow> nat) \<Rightarrow> CommitLog \<Rightarrow> int32 \<Rightarrow> bytes option \<Rightarrow> int32 \<Rightarrow> Reader \<Rightarrow> (log_error, bytes option) outcome option" where
  "fetch_loop chunk l minBytes buf n rd =
     (if \<not> sint n < sint minBytes then Some (Ok buf)
      else (case ReadFrom chunk l (buffer_bytes buf) rd of
          None \<Rightarrow> None
        | Some r \<Rightarrow>
            (case r of
               Panic \<Rightarrow> Some Panic
             | Err e \<Rightarrow> Some (Err e)
             | Ok (buf', rd) \<Rightarrow>
                 fetch_loop chunk l minBytes (Some buf') (n + word_of_nat (length buf' - length (buffer_bytes buf))) rd)))"

section \<open>Work under a timeout\<close>

text \<open>What a closure writes into the response it has captured.\<close>

datatype patch = NoPatch | ProducePatch int64 go_time | FetchPatch int64 "bytes option"

definition produce_to :: "('db, 'r) env \<Rightarrow> string \<Rightarrow> Data \<Rightarrow> ('db, 'r) broker \<Rightarrow> ((Error \<times> patch) \<times> ('db, 'r) broker) run" where
  "produce_to E topic p b =
     (case GetTopic (en_memdb E) (broker_state b) topic of
        Panic \<Rightarrow> Panics
      | Err _ \<Rightarrow> Returns ((unknown_error, NoPatch), b)
      | Ok (_, None) \<Rightarrow> Returns ((ErrUnknownTopicOrPartition, NoPatch), b)
      | Ok (_, Some _) \<Rightarrow>
          (case LookupReplica topic (data_Partition p) (bk_replicaLookup b) of
             Ok replica \<Rightarrow>
               (case rp_Log replica of
                  None \<Rightarrow> Returns ((ErrReplicaNotAvailable, NoPatch), b)
                | Some l \<Rightarrow>
                    (case Append (en_hash E) (case data_RecordSet p of None \<Rightarrow> [] | Some rs \<Rightarrow> rs) l of
                       None \<Rightarrow> Hangs
                     | Some Panic \<Rightarrow> Panics
                     | Some (Err _) \<Rightarrow> Returns ((ErrUnknown, NoPatch), b)
                     | Some (Ok (offset, l)) \<Rightarrow>
                         Returns ((ErrNone, ProducePatch offset (en_now E)),
                           b\<lparr>bk_replicaLookup := AddReplica (replica\<lparr>rp_Log := Some l\<rparr>) (bk_replicaLookup b)\<rparr>)))
           | _ \<Rightarrow> Returns ((ErrReplicaNotAvailable, NoPatch), b)))"

definition fetch_from :: "('db, 'r) env \<Rightarrow> int32 \<Rightarrow> string \<Rightarrow> FetchPartition \<Rightarrow> ('db, 'r) broker \<Rightarrow> (Error \<times> patch) run" where
  "fetch_from E minBytes topic p b =
     (case LookupReplica topic (fp_Partition p) (bk_replicaLookup b) of
        Panic \<Rightarrow> Panics
      | Err _ \<Rightarrow> Returns (ErrReplicaNotAvailable, NoPatch)
      | Ok replica \<Rightarrow>
          if pt_Leader (rp_Partition replica) \<noteq> broker_ID b then Returns (ErrNotLeaderForPartition, NoPatch)
          else case rp_Log replica of
            None \<Rightarrow> Returns (ErrReplicaNotAvailable, NoPatch)
          | Some l \<Rightarrow>
              (case NewReader (fp_FetchOffset p) l of
                 Panic \<Rightarrow> Panics
               | Err _ \<Rightarrow> Returns (unknown_error, NoPatch)
               | Ok rdr \<Rightarrow>
                   (case fetch_loop (en_chunk E) l minBytes None 0 rdr of
                      None \<Rightarrow> Hangs
                    | Some Panic \<Rightarrow> Panics
                    | Some (Err _) \<Rightarrow> Returns (WithErr ErrUnknown None, NoPatch)
                    | Some (Ok buf) \<Rightarrow> Returns (ErrNone, FetchPatch (NewestOffset l - 1) buf))))"

fun run_work :: "('db, 'r) env \<Rightarrow> work \<Rightarrow> ('db, 'r) broker \<Rightarrow> ((Error \<times> patch) \<times> ('db, 'r) broker) run" where
  "run_work E (CreateTopicWork req) b = run_bind (createTopic E req b) (\<lambda>err b. Returns ((err, NoPatch), b))"
| "run_work E (DeleteTopicWork topic) b =
     run_bind (raftApply E (DeregisterTopicRequest (new_topic topic False [])) b) (\<lambda>err b.
       Returns ((if err \<noteq> None then unknown_error else ErrNone, NoPatch), b))"
| "run_work E (ProduceWork topic p) b = produce_to E topic p b"
| "run_work E (FetchWork minBytes topic p) b =
     (case fetch_from E minBytes topic p b of Returns r \<Rightarrow> Returns (r, b) | Panics \<Rightarrow> Panics | Hangs \<Rightarrow> Hangs)"

text \<open>
  Whether the goroutine that \<^verbatim>\<open>withTimeout\<close> starts is done by the time the caller looks, or runs later.
  It reads the variables of the loop it was made in when it runs: a late one may see those of another
  turn \<open>i\<close> (and \<open>j\<close>, in an inner loop).
\<close>

datatype timing = InTime | Late nat nat

definition leave_behind :: "background \<Rightarrow> ('db, 'r) broker \<Rightarrow> ('db, 'r) broker" where
  "leave_behind g b = b\<lparr>bk_background := bk_background b @ [g]\<rparr>"

definition withTimeout :: "('db, 'r) env \<Rightarrow> timing \<Rightarrow> duration \<Rightarrow> work \<Rightarrow> (nat \<Rightarrow> nat \<Rightarrow> work) \<Rightarrow> ('db, 'r) broker \<Rightarrow>
    ((Error \<times> patch) \<times> ('db, 'r) broker) run" where
  "withTimeout E when timeout fn others b =
     (case when of
        Late i j \<Rightarrow>
          if sint timeout \<le> 0 then Returns ((ErrNone, NoPatch), leave_behind (Spawned (others i j)) b)
          else Returns ((ErrRequestTimedOut, NoPatch), leave_behind (Overdue (others i j)) b)
      | InTime \<Rightarrow>
          (case run_work E fn b of
             Panics \<Rightarrow> Panics
           | Hangs \<Rightarrow>
               if sint timeout \<le> 0 then Returns ((ErrNone, NoPatch), leave_behind (Spawned fn) b)
               else Returns ((ErrRequestTimedOut, NoPatch), leave_behind (Overdue fn) b)
           | Returns ((err, pch), b) \<Rightarrow>
               Returns ((if sint timeout \<le> 0 then ErrNone else err, pch), b)))"

text \<open>A goroutine left behind: an overdue one sends its result on a closed channel, which panics.\<close>

fun finish :: "('db, 'r) env \<Rightarrow> background \<Rightarrow> ('db, 'r) broker \<Rightarrow> (unit \<times> ('db, 'r) broker) run" where
  "finish E (Spawned w) b = run_bind (run_work E w b) (\<lambda>_ b. Returns ((), b))"
| "finish E (Overdue w) b = run_bind (run_work E w b) (\<lambda>_ b. Panics)"

section \<open>Topics\<close>

definition handleAPIVersions :: "APIVersionsRequest \<Rightarrow> APIVersionsResponse" where
  "handleAPIVersions req =
     \<lparr>avres_APIVersion = 0, avres_ErrorCode = 0, avres_APIVersions = APIVersions, avres_ThrottleTime = 0\<rparr>"

definition topic_error :: "string \<Rightarrow> Error \<Rightarrow> TopicErrorCode" where
  "topic_error topic err = \<lparr>tec_Topic = topic, tec_ErrorCode = Error_Code err, tec_ErrorMessage = None\<rparr>"

definition handleCreateTopic :: "('db, 'r) env \<Rightarrow> (nat \<Rightarrow> timing) \<Rightarrow> CreateTopicRequests \<Rightarrow> ('db, 'r) broker \<Rightarrow>
    (CreateTopicsResponse \<times> ('db, 'r) broker) run" where
  "handleCreateTopic E when reqs b =
     (let isController = isController E b; requests = ctrs_Requests reqs;
          others = (\<lambda>i j. CreateTopicWork (requests ! (i mod length requests))) in
      run_bind (for_range (\<lambda>i req b.
         if \<not> isController then Returns (topic_error (ctr_Topic req) ErrNotController, b)
         else if sint (word_of_nat (length (LANMembers b)) :: int16) < sint (ctr_ReplicationFactor req)
         then Returns (topic_error (ctr_Topic req) ErrInvalidReplicationFactor, b)
         else run_bind (withTimeout E (when i) (ctrs_Timeout reqs) (CreateTopicWork req) others b) (\<lambda>(err, _) b.
           Returns (topic_error (ctr_Topic req) err, b))) 0 requests b)
        (\<lambda>codes b. Returns (\<lparr>ctres_APIVersion = ctrs_APIVersion reqs, ctres_ThrottleTime = 0,
           ctres_TopicErrorCodes = codes\<rparr>, b)))"

definition handleDeleteTopics :: "('db, 'r) env \<Rightarrow> (nat \<Rightarrow> timing) \<Rightarrow> DeleteTopicsRequest \<Rightarrow> ('db, 'r) broker \<Rightarrow>
    (DeleteTopicsResponse \<times> ('db, 'r) broker) run" where
  "handleDeleteTopics E when reqs b =
     (let isController = isController E b; topics = dtreq_Topics reqs;
          others = (\<lambda>i j. DeleteTopicWork (topics ! (i mod length topics))) in
      run_bind (for_range (\<lambda>i topic b.
         if \<not> isController then Returns (topic_error topic ErrNotController, b)
         else run_bind (withTimeout E (when i) (dtreq_Timeout reqs) (DeleteTopicWork topic) others b) (\<lambda>(err, _) b.
           Returns (topic_error topic err, b))) 0 topics b)
        (\<lambda>codes b. Returns (\<lparr>dtres_APIVersion = dtreq_APIVersion reqs, dtres_ThrottleTime = 0,
           dtres_TopicErrorCodes = codes\<rparr>, b)))"

section \<open>Data\<close>

text \<open>The responses of the partitions without a replica are made and dropped.\<close>

fun offset_responses :: "string \<Rightarrow> OffsetsPartition list \<Rightarrow> ('db, 'r) broker \<Rightarrow> PartitionResponse list run" where
  "offset_responses topic [] b = Returns []"
| "offset_responses topic (p # ps) b =
     (case LookupReplica topic (op_Partition p) (bk_replicaLookup b) of
        Ok replica \<Rightarrow>
          (case rp_Log replica of
             None \<Rightarrow> Panics
           | Some l \<Rightarrow>
               (case (if op_Timestamp p = - 2 then OldestOffset l else Ok (NewestOffset l)) of
                  Ok offset \<Rightarrow>
                    (case offset_responses topic ps b of
                       Returns rs \<Rightarrow> Returns (\<lparr>opr_Partition = op_Partition p, opr_ErrorCode = 0,
                         opr_Timestamp = zero_time, opr_Offsets = [offset], opr_Offset = 0\<rparr> # rs)
                     | Panics \<Rightarrow> Panics | Hangs \<Rightarrow> Hangs)
                | _ \<Rightarrow> Panics))
      | _ \<Rightarrow> offset_responses topic ps b)"

definition handleOffsets :: "OffsetsRequest \<Rightarrow> ('db, 'r) broker \<Rightarrow> (OffsetsResponse \<times> ('db, 'r) broker) run" where
  "handleOffsets req b =
     run_bind (for_range (\<lambda>i t b.
        case offset_responses (ot_Topic t) (ot_Partitions t) b of
          Returns rs \<Rightarrow> Returns (\<lparr>ors_Topic = ot_Topic t, ors_PartitionResponses = rs\<rparr>, b)
        | Panics \<Rightarrow> Panics | Hangs \<Rightarrow> Hangs) 0 (oreq_Topics req) b)
       (\<lambda>rs b. Returns (\<lparr>ores_APIVersion = oreq_APIVersion req, ores_ThrottleTime = 0, ores_Responses = rs\<rparr>, b))"

definition produce_response :: "int32 \<Rightarrow> Error \<Rightarrow> patch \<Rightarrow> ProducePartitionResponse" where
  "produce_response i err pch =
     (case pch of
        ProducePatch offset t \<Rightarrow> \<lparr>ppr_Partition = i, ppr_ErrorCode = Error_Code err, ppr_BaseOffset = offset,
          ppr_LogAppendTime = t, ppr_LogStartOffset = 0\<rparr>
      | _ \<Rightarrow> \<lparr>ppr_Partition = i, ppr_ErrorCode = Error_Code err, ppr_BaseOffset = 0, ppr_LogAppendTime = zero_time,
          ppr_LogStartOffset = 0\<rparr>)"

definition handleProduce :: "('db, 'r) env \<Rightarrow> (nat \<Rightarrow> nat \<Rightarrow> timing) \<Rightarrow> ProduceRequest \<Rightarrow> ('db, 'r) broker \<Rightarrow>
    (ProduceResponse \<times> ('db, 'r) broker) run" where
  "handleProduce E when req b =
     (let tds = preq_TopicData req;
          others = (\<lambda>i j. let td = tds ! (i mod length tds) in
            ProduceWork (td_Topic td) (td_Data td ! (j mod length (td_Data td)))) in
      run_bind (for_range (\<lambda>i td b.
         run_bind (for_range (\<lambda>j p b.
            run_bind (withTimeout E (when i j) (preq_Timeout req) (ProduceWork (td_Topic td) p) others b) (\<lambda>(err, pch) b.
              Returns (produce_response (data_Partition p) err pch, b))) 0 (td_Data td) b)
           (\<lambda>tres b. Returns (\<lparr>ptr_Topic = td_Topic td, ptr_PartitionResponses = tres\<rparr>, b))) 0 tds b)
        (\<lambda>rs b. Returns (\<lparr>pres_APIVersion = preq_APIVersion req, pres_Responses = rs, pres_ThrottleTime = 0\<rparr>, b)))"

definition fetch_response :: "int32 \<Rightarrow> Error \<Rightarrow> patch \<Rightarrow> FetchPartitionResponse" where
  "fetch_response i err pch =
     (case pch of
        FetchPatch hw rs \<Rightarrow> \<lparr>fpr_Partition = i, fpr_ErrorCode = Error_Code err, fpr_HighWatermark = hw,
          fpr_LastStableOffset = 0, fpr_AbortedTransactions = [], fpr_RecordSet = rs\<rparr>
      | _ \<Rightarrow> \<lparr>fpr_Partition = i, fpr_ErrorCode = Error_Code err, fpr_HighWatermark = 0, fpr_LastStableOffset = 0,
          fpr_AbortedTransactions = [], fpr_RecordSet = None\<rparr>)"

definition handleFetch :: "('db, 'r) env \<Rightarrow> (nat \<Rightarrow> nat \<Rightarrow> timing) \<Rightarrow> FetchRequest \<Rightarrow> ('db, 'r) broker \<Rightarrow>
    (FetchResponse \<times> ('db, 'r) broker) run" where
  "handleFetch E when r b =
     (let topics = freq_Topics r;
          others = (\<lambda>i j. let t = topics ! (i mod length topics) in
            FetchWork (freq_MinBytes r) (ft_Topic t) (ft_Partitions t ! (j mod length (ft_Partitions t)))) in
      run_bind (for_range (\<lambda>i topic b.
         run_bind (for_range (\<lambda>j p b.
            run_bind (withTimeout E (when i j) (freq_MaxWaitTime r) (FetchWork (freq_MinBytes r) (ft_Topic topic) p) others b)
              (\<lambda>(err, pch) b. Returns (fetch_response (fp_Partition p) err pch, b))) 0 (ft_Partitions topic) b)
           (\<lambda>ps b. Returns (\<lparr>ftr_Topic = ft_Topic topic, ftr_PartitionResponses = ps\<rparr>, b))) 0 topics b)
        (\<lambda>rs b. Returns (\<lparr>fres_APIVersion = freq_APIVersion r, fres_ThrottleTime = 0, fres_Responses = rs\<rparr>, b)))"

end
