(* ===== verification/Broker_Groups.thy ===== *)
theory Broker_Groups
  imports Broker_Handlers
begin

text \<open>
  The handlers for metadata and consumer groups (\<^verbatim>\<open>handleMetadata\<close>, \<^verbatim>\<open>handleFindCoordinator\<close>,
  \<^verbatim>\<open>handleJoinGroup\<close> and the ones after it in \<^verbatim>\<open>jocko/broker.go\<close>).
\<close>

section \<open>Metadata\<close>

text \<open>The loop over the nodes reads the status of every health check, and panics on a node without one.\<close>

definition passing_nodes :: "structs_Node list \<Rightarrow> structs_Node list run" where
  "passing_nodes nodes =
     (if \<exists>n\<in>set nodes. nd_Check n = None then Panics
      else Returns (filter (\<lambda>n. \<exists>c. nd_Check n = Some c \<and> hc_Status c = HealthPassing) nodes))"

fun live_brokers :: "serf_Member list \<Rightarrow> Proto_Data.Broker list run" where
  "live_brokers [] = Returns []"
| "live_brokers (mem # ms) =
     (if sm_Status mem \<noteq> StatusAlive then live_brokers ms
      else case IsBroker mem of
        None \<Rightarrow> live_brokers ms
      | Some m \<Rightarrow>
          (case (Broker_Host m, Broker_Port m) of
             (Ok host, Ok port) \<Rightarrow>
               (case live_brokers ms of
                  Returns bs \<Rightarrow> Returns (\<lparr>brk_NodeID = mt_ID m, brk_Host = host, brk_Port = port\<rparr> # bs)
                | Panics \<Rightarrow> Panics | Hangs \<Rightarrow> Hangs)
           | _ \<Rightarrow> Panics))"

definition no_partition :: "int32 \<Rightarrow> Error \<Rightarrow> PartitionMetadata" where
  "no_partition i err = \<lparr>pm_PartitionErrorCode = Error_Code err, pm_PartitionID = i, pm_Leader = 0, pm_Replicas = [], pm_ISR = []\<rparr>"

fun partitions_metadata :: "'db memdb \<Rightarrow> 'db Store \<Rightarrow> string \<Rightarrow> int32 list \<Rightarrow> PartitionMetadata list run" where
  "partitions_metadata M s topic [] = Returns []"
| "partitions_metadata M s topic (i # is) =
     (case (case GetPartition M s topic i of
          Panic \<Rightarrow> None
        | Err _ \<Rightarrow> Some (no_partition i ErrUnknown)
        | Ok (_, None) \<Rightarrow> Some (no_partition i ErrUnknownTopicOrPartition)
        | Ok (_, Some p) \<Rightarrow> Some \<lparr>pm_PartitionErrorCode = Error_Code ErrNone, pm_PartitionID = pt_ID p,
            pm_Leader = pt_Leader p, pm_Replicas = pt_AR p, pm_ISR = pt_ISR p\<rparr>) of
        None \<Rightarrow> Panics
      | Some pm \<Rightarrow>
          (case partitions_metadata M s topic is of Returns pms \<Rightarrow> Returns (pm # pms) | Panics \<Rightarrow> Panics | Hangs \<Rightarrow> Hangs))"

definition topicMetadataFn :: "'db memdb \<Rightarrow> 'db Store \<Rightarrow> structs_Topic \<Rightarrow> Error \<Rightarrow> TopicMetadata run" where
  "topicMetadataFn M s topic err =
     (if err \<noteq> ErrNone then
        Returns \<lparr>tm_TopicErrorCode = Error_Code err, tm_Topic = tp_Topic topic, tm_PartitionMetadata = []\<rparr>
      else case partitions_metadata M s (tp_Topic topic) (map fst (tp_Partitions topic)) of
        Returns pms \<Rightarrow> Returns \<lparr>tm_TopicErrorCode = Error_Code ErrNone, tm_Topic = tp_Topic topic, tm_PartitionMetadata = pms\<rparr>
      | Panics \<Rightarrow> Panics | Hangs \<Rightarrow> Hangs)"

definition named_topic_metadata :: "'db memdb \<Rightarrow> 'db Store \<Rightarrow> string \<Rightarrow> TopicMetadata run" where
  "named_topic_metadata M s name =
     (case GetTopic M s name of
        Panic \<Rightarrow> Panics
      | Ok (_, Some topic) \<Rightarrow> topicMetadataFn M s topic ErrNone
      | _ \<Rightarrow> topicMetadataFn M s (new_topic name False []) ErrUnknownTopicOrPartition)"

definition handleMetadata :: "('db, 'r) env \<Rightarrow> MetadataRequest \<Rightarrow> ('db, 'r) broker \<Rightarrow>
    (MetadataResponse \<times> ('db, 'r) broker) run" where
  "handleMetadata E req b =
     (let M = en_memdb E; s = broker_state b in
      case GetNodes M s of
        Ok (_, nodes) \<Rightarrow>
          (case passing_nodes nodes of
             Returns _ \<Rightarrow>
               (case live_brokers (LANMembers b) of
                  Returns brokers \<Rightarrow>
                    run_bind
                      (if mreq_Topics req = [] then
                         (case GetTopics M s of
                            Panic \<Rightarrow> Panics
                          | Err _ \<Rightarrow> Returns ([], b)
                          | Ok (_, topics) \<Rightarrow> for_range (\<lambda>i topic b. case topicMetadataFn M s topic ErrNone of
                              Returns tm \<Rightarrow> Returns (tm, b) | Panics \<Rightarrow> Panics | Hangs \<Rightarrow> Hangs) 0 topics b)
                       else for_range (\<lambda>i name b. case named_topic_metadata M s name of
                              Returns tm \<Rightarrow> Returns (tm, b) | Panics \<Rightarrow> Panics | Hangs \<Rightarrow> Hangs) 0 (mreq_Topics req) b)
                      (\<lambda>tms b. Returns (\<lparr>mres_APIVersion = mreq_APIVersion req, mres_Brokers = brokers,
                         mres_ControllerID = 0, mres_TopicMetadata = tms\<rparr>, b))
                | Panics \<Rightarrow> Panics | Hangs \<Rightarrow> Hangs)
           | Panics \<Rightarrow> Panics | Hangs \<Rightarrow> Hangs)
      | _ \<Rightarrow> Panics)"

section \<open>Group coordinator\<close>

definition coordinator_response :: "int16 \<Rightarrow> int16 \<Rightarrow> Coordinator \<Rightarrow> FindCoordinatorResponse" where
  "coordinator_response v code c = \<lparr>fcres_APIVersion = v, fcres_ThrottleTime = 0, fcres_ErrorCode = code,
     fcres_ErrorMessage = None, fcres_Coordinator = c\<rparr>"

abbreviation no_coordinator :: Coordinator where
  "no_coordinator \<equiv> \<lparr>coo_NodeID = 0, coo_Host = [], coo_Port = 0\<rparr>"

text \<open>
  The remainder by the number of partitions panics when there are none, and so does the use of a
  leader the broker does not know.
\<close>

definition handleFindCoordinator :: "('db, 'r) env \<Rightarrow> FindCoordinatorRequest \<Rightarrow> ('db, 'r) broker \<Rightarrow>
    (FindCoordinatorResponse \<times> ('db, 'r) broker) run" where
  "handleFindCoordinator E req b =
     (let v = fcreq_APIVersion req;
          failed = (\<lambda>err b. Returns (coordinator_response v (Error_Code err) no_coordinator, b)) in
      run_bind (offsetsTopic E b) (\<lambda>(topic, err) b.
        case (topic, err) of
          (Some topic, None) \<Rightarrow>
            if tp_Partitions topic = [] then Panics
            else (let i = word_of_int (uint (en_hash E (bytes_of_string (fcreq_CoordinatorKey req))
                      mod word_of_nat (length (tp_Partitions topic)))) :: int32 in
              case GetPartition (en_memdb E) (broker_state b) OffsetsTopicName i of
                Panic \<Rightarrow> Panics
              | Err _ \<Rightarrow> failed ErrUnknown b
              | Ok (_, None) \<Rightarrow> failed ErrUnknownTopicOrPartition b
              | Ok (_, Some p) \<Rightarrow>
                  (case BrokerByID (fmt_d (sint (pt_Leader p))) (bk_brokerLookup b) of
                     None \<Rightarrow> Panics
                   | Some m \<Rightarrow>
                       (case (Broker_Host m, Broker_Port m) of
                          (Ok host, Ok port) \<Rightarrow>
                            Returns (coordinator_response v 0 \<lparr>coo_NodeID = mt_ID m, coo_Host = host, coo_Port = port\<rparr>, b)
                        | _ \<Rightarrow> Panics)))
        | (None, None) \<Rightarrow> Panics
        | _ \<Rightarrow> failed ErrUnknown b))"

section \<open>Group membership\<close>

text \<open>
  The store hands out the group it holds, so a handler that assigns to it changes the store.  The
  key of the group stays the same, so the effect is that of putting the changed group in its place.
\<close>

definition change_group :: "('db, 'r) env \<Rightarrow> structs_Group \<Rightarrow> ('db, 'r) broker \<Rightarrow> ('db, 'r) broker" where
  "change_group E g b =
     (case Insert (en_memdb E) (st_db (broker_state b)) ''groups'' (ObjGroup g) of
        Ok db \<Rightarrow> b\<lparr>bk_fsm := (bk_fsm b)\<lparr>fsm_state := (broker_state b)\<lparr>st_db := db\<rparr>\<rparr>\<rparr>
      | _ \<Rightarrow> b)"

definition new_group :: "string \<Rightarrow> int32 \<Rightarrow> structs_Group" where
  "new_group name i = \<lparr>gr_ID = [], gr_Group = name, gr_Coordinator = i, gr_LeaderID = [], gr_Members = Some [],
     gr_State = GroupStatePreparingRebalance, gr_GenerationID = 0, gr_RaftIndex = zero_index\<rparr>"

definition group_members :: "structs_Group \<Rightarrow> (string \<times> structs_Member) list" where
  "group_members g = (case gr_Members g of None \<Rightarrow> [] | Some ms \<Rightarrow> ms)"

text \<open>A member without an id gets one and is entered; \<^const>\<open>None\<close> where the map of members is nil.\<close>

definition enter_member :: "string \<Rightarrow> string \<Rightarrow> structs_Group \<Rightarrow> (string \<times> structs_Group) option" where
  "enter_member fresh member g =
     (if member \<noteq> [] then Some (member, g)
      else case gr_Members g of
        None \<Rightarrow> None
      | Some ms \<Rightarrow> Some (fresh, g\<lparr>gr_Members := Some (AList.update fresh
          \<lparr>mb_ID = fresh, mb_Metadata = None, mb_Assignment = None\<rparr> ms)\<rparr>))"

abbreviation join_response :: "int16 \<Rightarrow> Error \<Rightarrow> JoinGroupResponse" where
  "join_response v err \<equiv> \<lparr>jres_APIVersion = v, jres_ThrottleTime = 0, jres_ErrorCode = Error_Code err, jres_GenerationID = 0,
     jres_GroupProtocol = [], jres_LeaderID = [], jres_MemberID = [], jres_Members = []\<rparr>"

definition handleJoinGroup :: "('db, 'r) env \<Rightarrow> string \<Rightarrow> JoinGroupRequest \<Rightarrow> ('db, 'r) broker \<Rightarrow>
    (JoinGroupResponse \<times> ('db, 'r) broker) run" where
  "handleJoinGroup E client r b =
     (let v = jreq_APIVersion r in
      case GetGroup (en_memdb E) (broker_state b) (jreq_GroupID r) of
        Panic \<Rightarrow> Panics
      | Err _ \<Rightarrow> Returns (join_response v ErrUnknown, b)
      | Ok (_, found) \<Rightarrow>
          (case enter_member (client @ ''-'' @ en_uuid E) (jreq_MemberID r)
                (case found of Some g \<Rightarrow> g | None \<Rightarrow> new_group (jreq_GroupID r) (broker_ID b)) of
             None \<Rightarrow> Panics
           | Some (member, g) \<Rightarrow>
               let g = (if gr_LeaderID g = [] then g\<lparr>gr_LeaderID := member\<rparr> else g);
                   b = (if found = None then b else change_group E g b) in
               run_bind (raftApply E (RegisterGroupRequest g) b) (\<lambda>err b.
               if err \<noteq> None then Returns (join_response v ErrUnknown, b)
               else Returns ((join_response v ErrNone)\<lparr>jres_LeaderID := gr_LeaderID g, jres_MemberID := member,
                 jres_Members := (if gr_LeaderID g = member
                   then map (\<lambda>(_, m). \<lparr>mem_MemberID = mb_ID m, mem_MemberMetadata = mb_Metadata m\<rparr>) (group_members g)
                   else [])\<rparr>, b))))"

definition handleLeaveGroup :: "('db, 'r) env \<Rightarrow> LeaveGroupRequest \<Rightarrow> ('db, 'r) broker \<Rightarrow>
    (LeaveGroupResponse \<times> ('db, 'r) broker) run" where
  "handleLeaveGroup E r b =
     (let res = (\<lambda>err. \<lparr>lgres_APIVersion = lgreq_APIVersion r, lgres_ThrottleTime = 0, lgres_ErrorCode = Error_Code err\<rparr>) in
      case GetGroup (en_memdb E) (broker_state b) (lgreq_GroupID r) of
        Panic \<Rightarrow> Panics
      | Err _ \<Rightarrow> Returns (res ErrUnknown, b)
      | Ok (_, None) \<Rightarrow> Returns (res ErrInvalidGroupId, b)
      | Ok (_, Some g) \<Rightarrow>
          if lgreq_MemberID r \<notin> fst ` set (group_members g) then Returns (res ErrUnknownMemberId, b)
          else (let g = g\<lparr>gr_Members := map_option (AList.delete (lgreq_MemberID r)) (gr_Members g)\<rparr> in
            run_bind (raftApply E (RegisterGroupRequest g) (change_group E g b)) (\<lambda>err b.
            Returns (res (if err \<noteq> None then ErrUnknown else ErrNone), b))))"

text \<open>
  The members of the map are values: the assignment of the leader is stored in a copy and lost, and
  the assignment made for a rebalance that completes is not used.
\<close>

definition handleSyncGroup :: "('db, 'r) env \<Rightarrow> SyncGroupRequest \<Rightarrow> ('db, 'r) broker \<Rightarrow>
    (SyncGroupResponse \<times> ('db, 'r) broker) run" where
  "handleSyncGroup E r b =
     (let res = (\<lambda>err a. \<lparr>sres_APIVersion = sreq_APIVersion r, sres_ThrottleTime = 0, sres_ErrorCode = Error_Code err,
            sres_MemberAssignment = a\<rparr>) in
      case GetGroup (en_memdb E) (broker_state b) (sreq_GroupID r) of
        Panic \<Rightarrow> Panics
      | Err _ \<Rightarrow> Returns (res ErrUnknown None, b)
      | Ok (_, None) \<Rightarrow> Returns (res ErrInvalidGroupId None, b)
      | Ok (_, Some g) \<Rightarrow>
          (case map_of (group_members g) (sreq_MemberID r) of
             None \<Rightarrow> Returns (res ErrUnknownMemberId None, b)
           | Some m \<Rightarrow>
               if sreq_GenerationID r \<noteq> gr_GenerationID g then Returns (res ErrIllegalGeneration None, b)
               else case gr_State g of
                 GroupStateEmpty \<Rightarrow> Returns (res ErrUnknownMemberId None, b)
               | GroupStateDead \<Rightarrow> Returns (res ErrUnknownMemberId None, b)
               | GroupStatePreparingRebalance \<Rightarrow> Returns (res ErrRebalanceInProgress None, b)
               | _ \<Rightarrow>
                   if gr_LeaderID g = sreq_MemberID r then
                     if \<exists>a\<in>set (sreq_GroupAssignments r). ga_MemberID a \<notin> fst ` set (group_members g) then Panics
                     else run_bind (raftApply E (RegisterGroupRequest g) b) (\<lambda>err b.
                       Returns (res (if err \<noteq> None then ErrUnknown else ErrNone) None, b))
                   else Returns (res ErrNone (mb_Assignment m), b)))"

definition handleHeartbeat :: "('db, 'r) env \<Rightarrow> HeartbeatRequest \<Rightarrow> ('db, 'r) broker \<Rightarrow>
    (HeartbeatResponse \<times> ('db, 'r) broker) run" where
  "handleHeartbeat E r b =
     (let res = (\<lambda>err. \<lparr>hres_APIVersion = hreq_APIVersion r, hres_ThrottleTime = 0, hres_ErrorCode = Error_Code err\<rparr>) in
      case GetGroup (en_memdb E) (broker_state b) (hreq_GroupID r) of
        Panic \<Rightarrow> Panics
      | Err _ \<Rightarrow> Returns (res ErrUnknown, b)
      | Ok (_, None) \<Rightarrow> Returns (res ErrInvalidGroupId, b)
      | Ok (_, Some _) \<Rightarrow> Returns (res ErrNone, b))"

section \<open>Group administration\<close>

definition handleListGroups :: "('db, 'r) env \<Rightarrow> ListGroupsRequest \<Rightarrow> ('db, 'r) broker \<Rightarrow>
    (ListGroupsResponse \<times> ('db, 'r) broker) run" where
  "handleListGroups E req b =
     (case GetGroups (en_memdb E) (broker_state b) of
        Panic \<Rightarrow> Panics
      | Err _ \<Rightarrow> Returns (\<lparr>lsres_APIVersion = lsreq_APIVersion req, lsres_ThrottleTime = 0,
          lsres_ErrorCode = Error_Code ErrUnknown, lsres_Groups = []\<rparr>, b)
      | Ok (_, gs) \<Rightarrow> Returns (\<lparr>lsres_APIVersion = lsreq_APIVersion req, lsres_ThrottleTime = 0, lsres_ErrorCode = 0,
          lsres_Groups = map (\<lambda>g. \<lparr>lsg_GroupID = gr_Group g, lsg_ProtocolType = ''consumer''\<rparr>) gs\<rparr>, b))"

text \<open>
  The members of a group go into a nil map, a group that does not exist is dereferenced, and
  \<^verbatim>\<open>append(res.Groups)\<close> adds nothing.
\<close>

fun describe_groups :: "'db memdb \<Rightarrow> 'db Store \<Rightarrow> string list \<Rightarrow> Group list run" where
  "describe_groups M s [] = Returns []"
| "describe_groups M s (i # is) =
     (case GetGroup M s i of
        Panic \<Rightarrow> Panics
      | Err _ \<Rightarrow> Returns [\<lparr>grp_ErrorCode = Error_Code ErrUnknown, grp_GroupID = i, grp_State = [], grp_ProtocolType = [],
          grp_Protocol = [], grp_GroupMembers = []\<rparr>]
      | Ok (_, None) \<Rightarrow> Panics
      | Ok (_, Some g) \<Rightarrow> if group_members g \<noteq> [] then Panics else describe_groups M s is)"

definition handleDescribeGroups :: "('db, 'r) env \<Rightarrow> DescribeGroupsRequest \<Rightarrow> ('db, 'r) broker \<Rightarrow>
    (DescribeGroupsResponse \<times> ('db, 'r) broker) run" where
  "handleDescribeGroups E req b =
     (case describe_groups (en_memdb E) (broker_state b) (dgreq_GroupIDs req) of
        Returns gs \<Rightarrow> Returns (\<lparr>dgres_APIVersion = dgreq_APIVersion req, dgres_ThrottleTime = 0, dgres_Groups = gs\<rparr>, b)
      | Panics \<Rightarrow> Panics | Hangs \<Rightarrow> Hangs)"

definition handleOffsetFetch :: "OffsetFetchRequest \<Rightarrow> OffsetFetchResponse" where
  "handleOffsetFetch req = \<lparr>ofres_APIVersion = ofreq_APIVersion req,
     ofres_Responses = replicate (length (ofreq_Topics req)) \<lparr>oftr_Topic = [], oftr_Partitions = []\<rparr>\<rparr>"

end
