(* ===== verification/Server.thy ===== *)
theory Server
  imports Broker_Groups
begin

text \<open>
  The server (\<^verbatim>\<open>jocko/server.go\<close>) and the loop that hands its requests to the broker (\<^verbatim>\<open>Run\<close> in
  \<^verbatim>\<open>jocko/broker.go\<close>), for one connection that is served from its first request to its last.  \<^verbatim>\<open>Server_Queues\<close> has the
  goroutines and queues between them, of which this is one run.
\<close>

section \<open>Requests and responses\<close>

datatype api_request =
    ProduceReq ProduceRequest
  | FetchReq FetchRequest
  | OffsetsReq OffsetsRequest
  | MetadataReq MetadataRequest
  | LeaderAndISRReq LeaderAndISRRequest
  | StopReplicaReq StopReplicaRequest
  | UpdateMetadataReq UpdateMetadataRequest
  | ControlledShutdownReq ControlledShutdownRequest
  | OffsetCommitReq OffsetCommitRequest
  | OffsetFetchReq OffsetFetchRequest
  | FindCoordinatorReq FindCoordinatorRequest
  | JoinGroupReq JoinGroupRequest
  | HeartbeatReq HeartbeatRequest
  | LeaveGroupReq LeaveGroupRequest
  | SyncGroupReq SyncGroupRequest
  | DescribeGroupsReq DescribeGroupsRequest
  | ListGroupsReq ListGroupsRequest
  | SaslHandshakeReq SaslHandshakeRequest
  | APIVersionsReq APIVersionsRequest
  | CreateTopicsReq CreateTopicRequests
  | DeleteTopicsReq DeleteTopicsRequest

datatype api_response =
    ProduceRes ProduceResponse
  | FetchRes FetchResponse
  | OffsetsRes OffsetsResponse
  | MetadataRes MetadataResponse
  | LeaderAndISRRes LeaderAndISRResponse
  | OffsetFetchRes OffsetFetchResponse
  | FindCoordinatorRes FindCoordinatorResponse
  | JoinGroupRes JoinGroupResponse
  | HeartbeatRes HeartbeatResponse
  | LeaveGroupRes LeaveGroupResponse
  | SyncGroupRes SyncGroupResponse
  | DescribeGroupsRes DescribeGroupsResponse
  | ListGroupsRes ListGroupsResponse
  | APIVersionsRes APIVersionsResponse
  | CreateTopicsRes CreateTopicsResponse
  | DeleteTopicsRes DeleteTopicsResponse

text \<open>\<^verbatim>\<open>Encode\<close> of the body of a response.\<close>

fun body_ops :: "api_response \<Rightarrow> put list" where
  "body_ops (ProduceRes r) = ProduceResponse_Encode r"
| "body_ops (FetchRes r) = FetchResponse_Encode r"
| "body_ops (OffsetsRes r) = OffsetsResponse_Encode r"
| "body_ops (MetadataRes r) = MetadataResponse_Encode r"
| "body_ops (LeaderAndISRRes r) = LeaderAndISRResponse_Encode r"
| "body_ops (OffsetFetchRes r) = OffsetFetchResponse_Encode r"
| "body_ops (FindCoordinatorRes r) = FindCoordinatorResponse_Encode r"
| "body_ops (JoinGroupRes r) = JoinGroupResponse_Encode r"
| "body_ops (HeartbeatRes r) = HeartbeatResponse_Encode r"
| "body_ops (LeaveGroupRes r) = LeaveGroupResponse_Encode r"
| "body_ops (SyncGroupRes r) = SyncGroupResponse_Encode r"
| "body_ops (DescribeGroupsRes r) = DescribeGroupsResponse_Encode r"
| "body_ops (ListGroupsRes r) = ListGroupsResponse_Encode r"
| "body_ops (APIVersionsRes r) = APIVersionsResponse_Encode r"
| "body_ops (CreateTopicsRes r) = CreateTopicsResponse_Encode r"
| "body_ops (DeleteTopicsRes r) = DeleteTopicsResponse_Encode r"

text \<open>The switch on the API key, and \<^verbatim>\<open>Decode\<close> of the body; an unknown key leaves a nil interface.\<close>

definition dmap :: "('a \<Rightarrow> 'b) \<Rightarrow> 'a dec \<Rightarrow> 'b dec" where
  "dmap f m = dbind m (\<lambda>x. dret (f x))"

definition dpanic :: "'a dec" where "dpanic d = (Panic, d)"

definition decode_request :: "int16 \<Rightarrow> int16 \<Rightarrow> api_request dec" where
  "decode_request key version =
     (if key = ProduceKey then dmap ProduceReq (ProduceRequest_Decode version)
      else if key = FetchKey then dmap FetchReq (FetchRequest_Decode version)
      else if key = OffsetsKey then dmap OffsetsReq (OffsetsRequest_Decode version)
      else if key = MetadataKey then dmap MetadataReq (MetadataRequest_Decode version)
      else if key = LeaderAndISRKey then dmap LeaderAndISRReq (LeaderAndISRRequest_Decode version)
      else if key = StopReplicaKey then dmap StopReplicaReq (StopReplicaRequest_Decode version)
      else if key = UpdateMetadataKey then dmap UpdateMetadataReq (UpdateMetadataRequest_Decode version)
      else if key = ControlledShutdownKey then dmap ControlledShutdownReq (ControlledShutdownRequest_Decode version)
      else if key = OffsetCommitKey then dmap OffsetCommitReq (OffsetCommitRequest_Decode version)
      else if key = OffsetFetchKey then dmap OffsetFetchReq (OffsetFetchRequest_Decode version)
      else if key = FindCoordinatorKey then dmap FindCoordinatorReq (FindCoordinatorRequest_Decode version)
      else if key = JoinGroupKey then dmap JoinGroupReq (JoinGroupRequest_Decode version)
      else if key = HeartbeatKey then dmap HeartbeatReq (HeartbeatRequest_Decode version)
      else if key = LeaveGroupKey then dmap LeaveGroupReq (LeaveGroupRequest_Decode version)
      else if key = SyncGroupKey then dmap SyncGroupReq (SyncGroupRequest_Decode version)
      else if key = DescribeGroupsKey then dmap DescribeGroupsReq (DescribeGroupsRequest_Decode version)
      else if key = ListGroupsKey then dmap ListGroupsReq (ListGroupsRequest_Decode version)
      else if key = SaslHandshakeKey then dmap SaslHandshakeReq (SaslHandshakeRequest_Decode version)
      else if key = APIVersionsKey then dmap APIVersionsReq (APIVersionsRequest_Decode version)
      else if key = CreateTopicsKey then dmap CreateTopicsReq (CreateTopicRequests_Decode version)
      else if key = DeleteTopicsKey then dmap DeleteTopicsReq (DeleteTopicsRequest_Decode version)
      else dpanic)"

section \<open>Reading requests\<close>

text \<open>
  One turn of the loop of \<^verbatim>\<open>handleRequest\<close> on what the connection still delivers before it ends:
  \<^const>\<open>None\<close> where the loop ends and the connection is closed.  The length \<^verbatim>\<open>size+4\<close> of the buffer wraps.
\<close>

definition read_request :: "bytes \<Rightarrow> (RequestHeader \<times> api_request \<times> bytes) option run" where
  "read_request conn =
     (if length conn < 4 then Returns None
      else let sz = Uint32 (take 4 conn) in
        if sz = 0 then Returns None
        else let n = unat (sz + 4) in
          if n < 4 \<or> length conn < n then Panics
          else (case Decode (dbind RequestHeader_Decode (\<lambda>h. dbind (decode_request (rh_APIKey h) (rh_APIVersion h))
                (\<lambda>req. dret (h, req)))) (take n conn) of
              Ok (h, req) \<Rightarrow> Returns (Some (h, req, drop n conn))
            | _ \<Rightarrow> Panics))"

lemma read_request_shorter: "read_request conn = Returns (Some (h, req, rest)) \<Longrightarrow> length rest < length conn"
  by (auto simp: read_request_def Let_def split: if_splits outcome.splits)

section \<open>Handling requests\<close>

text \<open>How the goroutines of the handlers that wait for them come out, for each request.\<close>

type_synonym timings = "nat \<Rightarrow> nat \<Rightarrow> timing"

abbreviation respond :: "('a \<Rightarrow> api_response) \<Rightarrow> ('a \<times> ('db, 'r) broker) run \<Rightarrow> (api_response \<times> ('db, 'r) broker) run" where
  "respond f m \<equiv> run_bind m (\<lambda>x b. Returns (f x, b))"

text \<open>The switch of \<^verbatim>\<open>Run\<close>; the handlers that are not implemented panic.\<close>

fun Run :: "('db, 'r) env \<Rightarrow> timings \<Rightarrow> RequestHeader \<Rightarrow> api_request \<Rightarrow> ('db, 'r) broker \<Rightarrow>
    (api_response \<times> ('db, 'r) broker) run" where
  "Run E when h (ProduceReq r) b = respond ProduceRes (handleProduce E when r b)"
| "Run E when h (FetchReq r) b = respond FetchRes (handleFetch E when r b)"
| "Run E when h (OffsetsReq r) b = respond OffsetsRes (handleOffsets r b)"
| "Run E when h (MetadataReq r) b = respond MetadataRes (handleMetadata E r b)"
| "Run E when h (LeaderAndISRReq r) b = respond LeaderAndISRRes (handleLeaderAndISR E r b)"
| "Run E when h (StopReplicaReq r) b = Panics"
| "Run E when h (UpdateMetadataReq r) b = Panics"
| "Run E when h (ControlledShutdownReq r) b = Panics"
| "Run E when h (OffsetCommitReq r) b = Panics"
| "Run E when h (OffsetFetchReq r) b = Returns (OffsetFetchRes (handleOffsetFetch r), b)"
| "Run E when h (FindCoordinatorReq r) b = respond FindCoordinatorRes (handleFindCoordinator E r b)"
| "Run E when h (JoinGroupReq r) b = respond JoinGroupRes (handleJoinGroup E (rh_ClientID h) r b)"
| "Run E when h (HeartbeatReq r) b = respond HeartbeatRes (handleHeartbeat E r b)"
| "Run E when h (LeaveGroupReq r) b = respond LeaveGroupRes (handleLeaveGroup E r b)"
| "Run E when h (SyncGroupReq r) b = respond SyncGroupRes (handleSyncGroup E r b)"
| "Run E when h (DescribeGroupsReq r) b = respond DescribeGroupsRes (handleDescribeGroups E r b)"
| "Run E when h (ListGroupsReq r) b = respond ListGroupsRes (handleListGroups E r b)"
| "Run E when h (SaslHandshakeReq r) b = Panics"
| "Run E when h (APIVersionsReq r) b = Returns (APIVersionsRes (handleAPIVersions r), b)"
| "Run E when h (CreateTopicsReq r) b = respond CreateTopicsRes (handleCreateTopic E (\<lambda>i. when i 0) r b)"
| "Run E when h (DeleteTopicsReq r) b = respond DeleteTopicsRes (handleDeleteTopics E (\<lambda>i. when i 0) r b)"

text \<open>A response that cannot be encoded is logged, and nothing is sent.\<close>

definition handleResponse :: "RequestHeader \<Rightarrow> api_response \<Rightarrow> bytes run" where
  "handleResponse h res =
     (case Encode (Response_Encode \<lparr>resp_CorrelationID = rh_CorrelationID h, resp_Body = body_ops res\<rparr>) of
        Ok bs \<Rightarrow> Returns bs | Err _ \<Rightarrow> Returns [] | Panic \<Rightarrow> Panics)"

text \<open>A connection from its first byte to its end: what is sent back on it, and the broker afterwards.\<close>

function serve :: "('db, 'r) env \<Rightarrow> (nat \<Rightarrow> timings) \<Rightarrow> nat \<Rightarrow> bytes \<Rightarrow> ('db, 'r) broker \<Rightarrow> (bytes \<times> ('db, 'r) broker) run" where
  "serve E when k conn b =
     (case read_request conn of
        Panics \<Rightarrow> Panics
      | Hangs \<Rightarrow> Hangs
      | Returns None \<Rightarrow> Returns ([], b)
      | Returns (Some (h, req, rest)) \<Rightarrow>
          (case Run E (when k) h req b of
             Panics \<Rightarrow> Panics
           | Hangs \<Rightarrow> Hangs
           | Returns (res, b) \<Rightarrow>
               (case handleResponse h res of
                  Panics \<Rightarrow> Panics
                | Hangs \<Rightarrow> Hangs
                | Returns bs \<Rightarrow> run_bind (serve E when (Suc k) rest b) (\<lambda>out b. Returns (bs @ out, b)))))"
  by pat_completeness auto

termination by (relation "measure (\<lambda>(E, when, k, conn, b). length conn)") (auto dest: read_request_shorter)

declare serve.simps [simp del]

end
