(* ===== verification/Controller.thy ===== *)
theory Controller
  imports Broker_Core
begin

text \<open>
  What a broker does as a member of its cluster and as its leader (\<^verbatim>\<open>jocko/serf.go\<close>, \<^verbatim>\<open>jocko/leader.go\<close>,
  and \<^verbatim>\<open>Leave\<close> and \<^verbatim>\<open>Shutdown\<close> of \<^verbatim>\<open>jocko/broker.go\<close>): the events of the gossip pool, the leader loop and the
  reconciliation of the members with the replicated state.
\<close>

section \<open>Gossip\<close>

text \<open>
  The tags \<^verbatim>\<open>setupSerf\<close> gives the member of a broker; \<open>cf_SerfLANAddr\<close> is the address and port the pool is
  bound to.
\<close>

definition setupSerf :: "Config \<Rightarrow> string \<rightharpoonup> string" where
  "setupSerf c =
     (let tags = [''role'' \<mapsto> ''jocko'', ''id'' \<mapsto> fmt_d (sint (cf_ID c))];
          tags = (if cf_Bootstrap c then tags(''bootstrap'' \<mapsto> ''1'') else tags);
          tags = (if cf_BootstrapExpect c \<noteq> 0 then tags(''expect'' \<mapsto> fmt_d (sint (cf_BootstrapExpect c))) else tags);
          tags = (if cf_NonVoter c then tags(''non_voter'' \<mapsto> ''1'') else tags) in
      tags(''raft_addr'' \<mapsto> cf_RaftAddr c, ''serf_lan_addr'' \<mapsto> cf_SerfLANAddr c, ''broker_addr'' \<mapsto> cf_Addr c))"

text \<open>The brokers of the pool, unless one of them stands against bootstrapping.\<close>

fun bootstrap_servers :: "int64 \<Rightarrow> serf_Member list \<Rightarrow> metadata_Broker list option" where
  "bootstrap_servers expect [] = Some []"
| "bootstrap_servers expect (m # ms) =
     (case IsBroker m of
        None \<Rightarrow> bootstrap_servers expect ms
      | Some meta \<Rightarrow>
          if mt_Expect meta \<noteq> 0 \<and> mt_Expect meta \<noteq> expect then None
          else if mt_Bootstrap meta then None
          else map_option ((#) meta) (bootstrap_servers expect ms))"

definition maybeBootstrap :: "('db, 'r) env \<Rightarrow> ('db, 'r) broker \<Rightarrow> ('db, 'r) broker" where
  "maybeBootstrap E b =
     (let expect = cf_BootstrapExpect (bk_config b);
          over = (\<lambda>b. b\<lparr>bk_config := (bk_config b)\<lparr>cf_BootstrapExpect := 0\<rparr>\<rparr>) in
      case raft_LastIndex (en_raft E) (bk_raft b) of
        Ok index \<Rightarrow>
          if index \<noteq> 0 then over b
          else (case bootstrap_servers expect (LANMembers b) of
            None \<Rightarrow> b
          | Some brokers \<Rightarrow>
              if int (length brokers) < sint expect then b
              else over (b\<lparr>bk_raft := snd (raft_BootstrapCluster (en_raft E) (bk_raft b)
                (map (\<lambda>m. \<lparr>rs_Voter = True, rs_ID = NodeID_String (mt_ID m), rs_Address = mt_RaftAddr m\<rparr>) brokers))\<rparr>))
      | _ \<Rightarrow> b)"

fun lanNodeJoin :: "('db, 'r) env \<Rightarrow> serf_Member list \<Rightarrow> ('db, 'r) broker \<Rightarrow> ('db, 'r) broker" where
  "lanNodeJoin E [] b = b"
| "lanNodeJoin E (m # ms) b =
     (case IsBroker m of
        None \<Rightarrow> lanNodeJoin E ms b
      | Some meta \<Rightarrow>
          let b = b\<lparr>bk_brokerLookup := AddBroker meta (bk_brokerLookup b)\<rparr> in
          lanNodeJoin E ms (if cf_BootstrapExpect (bk_config b) \<noteq> 0 then maybeBootstrap E b else b))"

fun lanNodeFailed :: "serf_Member list \<Rightarrow> ('db, 'r) broker \<Rightarrow> ('db, 'r) broker" where
  "lanNodeFailed [] b = b"
| "lanNodeFailed (m # ms) b =
     (case IsBroker m of
        None \<Rightarrow> lanNodeFailed ms b
      | Some meta \<Rightarrow> lanNodeFailed ms (b\<lparr>bk_brokerLookup := RemoveBroker meta (bk_brokerLookup b)\<rparr>))"

datatype EventType = EventMemberJoin | EventMemberLeave | EventMemberFailed | EventMemberReap | EventOther

text \<open>The channel to the leader loop holds 32 members; what does not fit is dropped.\<close>

fun send_members :: "bool \<Rightarrow> serf_Member list \<Rightarrow> serf_Member list \<Rightarrow> serf_Member list" where
  "send_members isReap [] ch = ch"
| "send_members isReap (m # ms) ch =
     (let m = (if isReap then m\<lparr>sm_Status := StatusReap\<rparr> else m) in
      send_members isReap ms (if length ch < 32 then ch @ [m] else ch))"

definition localMemberEvent :: "('db, 'r) env \<Rightarrow> EventType \<Rightarrow> serf_Member list \<Rightarrow> ('db, 'r) broker \<Rightarrow> ('db, 'r) broker" where
  "localMemberEvent E t ms b =
     (if \<not> isLeader E b then b
      else b\<lparr>bk_reconcileCh := send_members (t = EventMemberReap) ms (bk_reconcileCh b)\<rparr>)"

text \<open>One event of the pool.\<close>

fun lanEventHandler :: "('db, 'r) env \<Rightarrow> EventType \<Rightarrow> serf_Member list \<Rightarrow> ('db, 'r) broker \<Rightarrow> ('db, 'r) broker" where
  "lanEventHandler E EventMemberJoin ms b = localMemberEvent E EventMemberJoin ms (lanNodeJoin E ms b)"
| "lanEventHandler E EventMemberReap ms b = localMemberEvent E EventMemberReap ms b"
| "lanEventHandler E EventMemberLeave ms b = localMemberEvent E EventMemberLeave ms (lanNodeFailed ms b)"
| "lanEventHandler E EventMemberFailed ms b = localMemberEvent E EventMemberFailed ms (lanNodeFailed ms b)"
| "lanEventHandler E EventOther ms b = b"

section \<open>Members of raft\<close>

definition numPeers :: "('db, 'r) env \<Rightarrow> ('db, 'r) broker \<Rightarrow> (string, nat) outcome" where
  "numPeers E b = out_bind (raft_GetConfiguration (en_raft E) (bk_raft b)) (\<lambda>servers. Ok (length (filter rs_Voter servers)))"

definition remove_server :: "('db, 'r) env \<Rightarrow> string \<Rightarrow> ('db, 'r) broker \<Rightarrow> string option \<times> ('db, 'r) broker" where
  "remove_server E i b = (case raft_RemoveServer (en_raft E) (bk_raft b) i of (err, r) \<Rightarrow> (err, b\<lparr>bk_raft := r\<rparr>))"

text \<open>
  A leader with other voters takes itself out of raft; the error of that is logged only.  Leaving the
  pool and the wait for the raft configuration to change have no effect on the broker's own state.
\<close>

definition Leave :: "('db, 'r) env \<Rightarrow> ('db, 'r) broker \<Rightarrow> (string option \<times> ('db, 'r) broker) run" where
  "Leave E b =
     (case numPeers E b of
        Panic \<Rightarrow> Panics
      | Err e \<Rightarrow> Returns (Some e, b)
      | Ok n \<Rightarrow> Returns (None,
          if isLeader E b \<and> 1 < n then snd (remove_server E (fmt_d (sint (broker_ID b))) b) else b))"

definition Shutdown :: "('db, 'r) broker \<Rightarrow> ('db, 'r) broker" where
  "Shutdown b = (if bk_shutdown b then b else b\<lparr>bk_shutdown := True\<rparr>)"

fun remove_clashing :: "('db, 'r) env \<Rightarrow> metadata_Broker \<Rightarrow> raft_Server list \<Rightarrow> ('db, 'r) broker \<Rightarrow>
    (bool \<times> string option) \<times> ('db, 'r) broker" where
  "remove_clashing E parts [] b = ((False, None), b)"
| "remove_clashing E parts (s # ss) b =
     (let same_addr = (rs_Address s = mt_RaftAddr parts); same_id = (rs_ID s = NodeID_String (mt_ID parts)) in
      if same_addr \<and> same_id then ((True, None), b)
      else if same_addr \<or> same_id then
        (case remove_server E (rs_ID s) b of
           (Some e, b) \<Rightarrow> ((True, Some ((if same_addr then ''error removing server with duplicate address ''
             else ''removing server with duplicate ID '') @ e)), b)
         | (None, b) \<Rightarrow> remove_clashing E parts ss b)
      else remove_clashing E parts ss b)"

text \<open>
  \<^verbatim>\<open>joinCluster\<close>: a second bootstrapping broker and a broker that is already in the configuration are
  left alone; servers that share only the address or only the id are removed first.
\<close>

definition joinCluster :: "('db, 'r) env \<Rightarrow> serf_Member \<Rightarrow> metadata_Broker \<Rightarrow> ('db, 'r) broker \<Rightarrow>
    (string option \<times> ('db, 'r) broker) run" where
  "joinCluster E m parts b =
     (if mt_Bootstrap parts \<and> (\<exists>other\<in>set (LANMembers b). sm_Name other \<noteq> sm_Name m \<and>
          (case IsBroker other of Some p \<Rightarrow> mt_Bootstrap p | None \<Rightarrow> False)) then Returns (None, b)
      else case raft_GetConfiguration (en_raft E) (bk_raft b) of
        Panic \<Rightarrow> Panics
      | Err e \<Rightarrow> Returns (Some e, b)
      | Ok servers \<Rightarrow>
          if sm_Name m = cf_NodeName (bk_config b) \<and> length servers < 3 then Returns (None, b)
          else (case remove_clashing E parts servers b of
            ((True, err), b) \<Rightarrow> Returns (err, b)
          | ((False, _), b) \<Rightarrow>
              (case (if mt_NonVoter parts then raft_AddNonvoter (en_raft E) else raft_AddVoter (en_raft E))
                  (bk_raft b) (NodeID_String (mt_ID parts)) (mt_RaftAddr parts) of
                 (err, r) \<Rightarrow> Returns (err, b\<lparr>bk_raft := r\<rparr>))))"

fun remove_by_id :: "('db, 'r) env \<Rightarrow> string \<Rightarrow> raft_Server list \<Rightarrow> ('db, 'r) broker \<Rightarrow> string option \<times> ('db, 'r) broker" where
  "remove_by_id E i [] b = (None, b)"
| "remove_by_id E i (s # ss) b =
     (if rs_ID s \<noteq> i then remove_by_id E i ss b
      else case remove_server E i b of (Some e, b) \<Rightarrow> (Some e, b) | (None, b) \<Rightarrow> remove_by_id E i ss b)"

definition removeServer :: "('db, 'r) env \<Rightarrow> metadata_Broker \<Rightarrow> ('db, 'r) broker \<Rightarrow> (string option \<times> ('db, 'r) broker) run" where
  "removeServer E meta b =
     (case raft_GetConfiguration (en_raft E) (bk_raft b) of
        Panic \<Rightarrow> Panics
      | Err e \<Rightarrow> Returns (Some e, b)
      | Ok servers \<Rightarrow> Returns (remove_by_id E (NodeID_String (mt_ID meta)) servers b))"

section \<open>Reconciliation\<close>

definition health_check :: "string \<Rightarrow> string \<Rightarrow> string \<Rightarrow> HealthCheck" where
  "health_check node status out = \<lparr>hc_Node = node, hc_CheckID = SerfCheckID, hc_Name = SerfCheckName, hc_Status = status,
     hc_Output = out, hc_RaftIndex = zero_index\<rparr>"

definition node_record :: "int32 \<Rightarrow> string \<Rightarrow> HealthCheck option \<Rightarrow> (string \<times> string) list \<Rightarrow> structs_Node" where
  "node_record i addr check meta = \<lparr>nd_ID = 0, nd_Node = i, nd_Address = addr, nd_Check = check, nd_Meta = meta,
     nd_RaftIndex = zero_index\<rparr>"

text \<open>A member that is no broker has no metadata, and using its id panics.\<close>

definition handleAliveMember :: "('db, 'r) env \<Rightarrow> serf_Member \<Rightarrow> ('db, 'r) broker \<Rightarrow> (string option \<times> ('db, 'r) broker) run" where
  "handleAliveMember E m b =
     (case IsBroker m of
        None \<Rightarrow> Panics
      | Some meta \<Rightarrow>
          run_bind (joinCluster E m meta b) (\<lambda>err b.
          if err \<noteq> None then Returns (err, b)
          else case GetNode (en_memdb E) (broker_state b) (mt_ID meta) of
            Panic \<Rightarrow> Panics
          | Err e \<Rightarrow> Returns (Some e, b)
          | Ok (_, Some _) \<Rightarrow> Returns (None, b)
          | Ok (_, None) \<Rightarrow>
              raftApply E (RegisterNodeRequest (node_record (mt_ID meta) (mt_BrokerAddr meta)
                (Some (health_check (NodeID_String (mt_ID meta)) HealthPassing SerfCheckAliveOutput))
                [(''raft_addr'', mt_RaftAddr meta), (''serf_lan_addr'', mt_SerfLANAddr meta), (''name'', mt_Name meta)])) b))"

definition handleDeregisterMember :: "('db, 'r) env \<Rightarrow> serf_Member \<Rightarrow> ('db, 'r) broker \<Rightarrow>
    (string option \<times> ('db, 'r) broker) run" where
  "handleDeregisterMember E m b =
     (case IsBroker m of
        None \<Rightarrow> Returns (None, b)
      | Some meta \<Rightarrow>
          if mt_ID meta = broker_ID b then Returns (None, b)
          else run_bind (removeServer E meta b) (\<lambda>err b.
          if err \<noteq> None then Returns (err, b)
          else case GetNode (en_memdb E) (broker_state b) (mt_ID meta) of
            Panic \<Rightarrow> Panics
          | Err e \<Rightarrow> Returns (Some e, b)
          | Ok (_, None) \<Rightarrow> Returns (None, b)
          | Ok (_, Some _) \<Rightarrow> raftApply E (DeregisterNodeRequest (node_record (mt_ID meta) [] None [])) b))"

text \<open>
  The groups a failed broker coordinated get a random coordinator.  The assignment to the group that
  the store holds is taken together with the write behind it.
\<close>

fun reassign_groups :: "('db, 'r) env \<Rightarrow> structs_Node list \<Rightarrow> nat \<Rightarrow> structs_Group list \<Rightarrow> ('db, 'r) broker \<Rightarrow>
    (string option \<times> ('db, 'r) broker) run" where
  "reassign_groups E passing k [] b = Returns (None, b)"
| "reassign_groups E passing k (g # gs) b =
     (if passing = [] then Panics
      else run_bind (raftApply E (RegisterGroupRequest (g\<lparr>gr_Coordinator :=
          nd_Node (passing ! (en_rand E ''coordinator'' k mod length passing))\<rparr>)) b) (\<lambda>err b.
        if err \<noteq> None then Returns (err, b) else reassign_groups E passing (Suc k) gs b))"

fun reassign_partitions :: "('db, 'r) env \<Rightarrow> int32 \<Rightarrow> structs_Node list \<Rightarrow> nat \<Rightarrow> structs_Partition list \<Rightarrow> ('db, 'r) broker \<Rightarrow>
    (string option \<times> ('db, 'r) broker) run" where
  "reassign_partitions E failed passing k [] b = Returns (None, b)"
| "reassign_partitions E failed passing k (p # ps) b =
     (if passing = [] then Panics
      else run_bind (raftApply E (RegisterPartitionRequest
          \<lparr>pt_ID = pt_Partition p, pt_Partition = pt_Partition p, pt_Topic = pt_Topic p,
           pt_ISR = filter (\<lambda>r. r \<noteq> failed) (pt_ISR p), pt_AR = filter (\<lambda>r. r \<noteq> failed) (pt_AR p),
           pt_Leader = nd_Node (passing ! (en_rand E ''leader'' k mod length passing)),
           pt_ControllerEpoch = 0, pt_LeaderEpoch = 0, pt_RaftIndex = zero_index\<rparr>) b) (\<lambda>err b.
        if err \<noteq> None then Returns (err, b) else reassign_partitions E failed passing (Suc k) ps b))"

text \<open>A request a broker sends to itself over the network arrives there as a request like any other.\<close>

fun tell_nodes :: "('db, 'r) env \<Rightarrow> LeaderAndISRRequest \<Rightarrow> structs_Node list \<Rightarrow> ('db, 'r) broker \<Rightarrow> string option run" where
  "tell_nodes E req [] b = Returns None"
| "tell_nodes E req (n # ns) b =
     (case BrokerByID (fmt_d (sint (nd_Node n))) (bk_brokerLookup b) of
        None \<Rightarrow> tell_nodes E req ns b
      | Some m \<Rightarrow>
          (case en_Dial E (mt_BrokerAddr m) of
             Some e \<Rightarrow> Returns (Some e)
           | None \<Rightarrow>
               (case en_LeaderAndISR E (mt_BrokerAddr m) req of
                  Panic \<Rightarrow> Panics | Err e \<Rightarrow> Returns (Some e) | Ok _ \<Rightarrow> tell_nodes E req ns b)))"

text \<open>The nodes that pass their check and whose field \<^verbatim>\<open>ID\<close>, which no request sets, is not the failed one.\<close>

definition passing_others :: "int32 \<Rightarrow> structs_Node list \<Rightarrow> structs_Node list run" where
  "passing_others i nodes =
     (if \<exists>n\<in>set nodes. nd_Check n = None then Panics
      else Returns (filter (\<lambda>n. (\<exists>c. nd_Check n = Some c \<and> hc_Status c = HealthPassing) \<and> nd_ID n \<noteq> i) nodes))"

definition handleFailedMember :: "('db, 'r) env \<Rightarrow> serf_Member \<Rightarrow> ('db, 'r) broker \<Rightarrow> (string option \<times> ('db, 'r) broker) run" where
  "handleFailedMember E m b =
     (case IsBroker m of
        None \<Rightarrow> Returns (None, b)
      | Some meta \<Rightarrow>
          run_bind (raftApply E (RegisterNodeRequest (node_record (mt_ID meta) []
            (Some (health_check (tag m ''raft_addr'') HealthCritical SerfCheckFailedOutput)) [])) b) (\<lambda>err b.
          if err \<noteq> None then Returns (err, b)
          else let M = en_memdb E; s = broker_state b in
          case GetPartitions M s of
            Ok _ \<Rightarrow>
              (case PartitionsByLeader M s (mt_ID meta) of
                 Panic \<Rightarrow> Panics
               | Err e \<Rightarrow> Returns (Some e, b)
               | Ok (_, partitions) \<Rightarrow>
                   (case GetNodes M s of
                      Panic \<Rightarrow> Panics
                    | Err e \<Rightarrow> Returns (Some e, b)
                    | Ok (_, nodes) \<Rightarrow>
                        (case passing_others (mt_ID meta) nodes of
                           Panics \<Rightarrow> Panics
                         | Hangs \<Rightarrow> Hangs
                         | Returns passing \<Rightarrow>
                             (case GetGroupsByCoordinator M s (mt_ID meta) of
                                Panic \<Rightarrow> Panics
                              | Err e \<Rightarrow> Returns (Some e, b)
                              | Ok (_, groups) \<Rightarrow>
                                  run_bind (reassign_groups E passing 0 groups b) (\<lambda>err b.
                                  if err \<noteq> None then Returns (err, b)
                                  else run_bind (reassign_partitions E (mt_ID meta) passing 0 partitions b) (\<lambda>err b.
                                  if err \<noteq> None then Returns (err, b)
                                  else case tell_nodes E (leader_and_isr (broker_ID b)
                                      (map (\<lambda>p. p\<lparr>pt_ID := pt_Partition p\<rparr>) partitions)) passing b of
                                    Returns err \<Rightarrow> Returns (err, b) | Panics \<Rightarrow> Panics | Hangs \<Rightarrow> Hangs))))))
          | _ \<Rightarrow> Panics))"

text \<open>Errors of a single member are logged, and the reconciliation goes on.\<close>

definition reconcileMember :: "('db, 'r) env \<Rightarrow> serf_Member \<Rightarrow> ('db, 'r) broker \<Rightarrow> (unit \<times> ('db, 'r) broker) run" where
  "reconcileMember E m b =
     run_bind (case sm_Status m of
         StatusAlive \<Rightarrow> handleAliveMember E m b
       | StatusFailed \<Rightarrow> handleFailedMember E m b
       | StatusReap \<Rightarrow> handleDeregisterMember E m b
       | StatusLeft \<Rightarrow> handleDeregisterMember E m b
       | _ \<Rightarrow> Returns (None, b)) (\<lambda>err b. Returns ((), b))"

definition reaped_member :: "int32 \<Rightarrow> serf_Member" where
  "reaped_member i = \<lparr>sm_Name = [], sm_Tags = [''id'' \<mapsto> fmt_d (sint i), ''role'' \<mapsto> ''jocko''], sm_Status = StatusNone\<rparr>"

fun reap_nodes :: "('db, 'r) env \<Rightarrow> int32 set \<Rightarrow> structs_Node list \<Rightarrow> ('db, 'r) broker \<Rightarrow> (string option \<times> ('db, 'r) broker) run" where
  "reap_nodes E known [] b = Returns (None, b)"
| "reap_nodes E known (n # ns) b =
     (if nd_Node n \<in> known then reap_nodes E known ns b
      else run_bind (handleDeregisterMember E (reaped_member (nd_Node n)) b) (\<lambda>err b.
        if err \<noteq> None then Returns (err, b) else reap_nodes E known ns b))"

definition reconcileReaped :: "('db, 'r) env \<Rightarrow> int32 set \<Rightarrow> ('db, 'r) broker \<Rightarrow> (string option \<times> ('db, 'r) broker) run" where
  "reconcileReaped E known b =
     (case GetNodes (en_memdb E) (broker_state b) of
        Panic \<Rightarrow> Panics
      | Err e \<Rightarrow> Returns (Some e, b)
      | Ok (_, nodes) \<Rightarrow> reap_nodes E known nodes b)"

definition known_members :: "serf_Member list \<Rightarrow> int32 set" where
  "known_members ms = set (List.map_filter (\<lambda>m. map_option mt_ID (IsBroker m)) ms)"

definition reconcile :: "('db, 'r) env \<Rightarrow> ('db, 'r) broker \<Rightarrow> (string option \<times> ('db, 'r) broker) run" where
  "reconcile E b =
     (let members = LANMembers b in
      run_bind (for_range (\<lambda>_ m. reconcileMember E m) 0 members b) (\<lambda>_ b.
      reconcileReaped E (known_members members) b))"

section \<open>The leader loop\<close>

definition establishLeadership :: "('db, 'r) broker \<Rightarrow> ('db, 'r) broker" where
  "establishLeadership b = b\<lparr>bk_readyForConsistentReads := True\<rparr>"

definition revokeLeadership :: "('db, 'r) broker \<Rightarrow> ('db, 'r) broker" where
  "revokeLeadership b = b\<lparr>bk_readyForConsistentReads := False\<rparr>"

definition isReadyForConsistentReads :: "('db, 'r) broker \<Rightarrow> bool" where
  "isReadyForConsistentReads b = bk_readyForConsistentReads b"

text \<open>
  The variables of \<^verbatim>\<open>leaderLoop\<close>: whether it has established its leadership, and whether \<^verbatim>\<open>reconcileCh\<close> is
  the channel of the broker or nil.
\<close>

record leader_vars =
  lv_established :: bool
  lv_listening :: bool

text \<open>The part from the label \<^verbatim>\<open>RECONCILE\<close> to the label \<^verbatim>\<open>WAIT\<close>.\<close>

definition reconcile_turn :: "('db, 'r) env \<Rightarrow> bool \<Rightarrow> ('db, 'r) broker \<Rightarrow> (leader_vars \<times> ('db, 'r) broker) run" where
  "reconcile_turn E established b =
     (case raft_Barrier (en_raft E) (bk_raft b) of
        (err, r) \<Rightarrow> let b = b\<lparr>bk_raft := r\<rparr> in
          if err \<noteq> None then Returns (\<lparr>lv_established = established, lv_listening = False\<rparr>, b)
          else let b = (if established then b else establishLeadership b) in
            run_bind (reconcile E b) (\<lambda>err b.
              Returns (\<lparr>lv_established = True, lv_listening = (err = None)\<rparr>, b)))"

text \<open>
  The steps of a broker in the cluster: raft reports that leadership was gained or lost
  (\<^verbatim>\<open>monitorLeadership\<close>), the reconcile interval is over, the leader loop takes a member from its channel,
  the pool reports an event, and the broker shuts down.  The leader loop is \<^const>\<open>None\<close> while it does not
  run; when it returns it revokes the leadership it has established.
\<close>

datatype cluster_event = LeadershipGained | LeadershipLost | IntervalOver | TakeMember | PoolEvent EventType "serf_Member list" | ShutdownEvent

definition end_loop :: "leader_vars option \<Rightarrow> ('db, 'r) broker \<Rightarrow> ('db, 'r) broker" where
  "end_loop lv b = (case lv of Some v \<Rightarrow> if lv_established v then revokeLeadership b else b | None \<Rightarrow> b)"

fun cluster_step :: "('db, 'r) env \<Rightarrow> cluster_event \<Rightarrow> leader_vars option \<times> ('db, 'r) broker \<Rightarrow>
    (leader_vars option \<times> ('db, 'r) broker) run" where
  "cluster_step E LeadershipGained (lv, b) =
     (if lv \<noteq> None \<or> bk_shutdown b then Returns (lv, b)
      else run_bind (reconcile_turn E False b) (\<lambda>v b. Returns (Some v, b)))"
| "cluster_step E LeadershipLost (lv, b) = (if bk_shutdown b then Returns (lv, b) else Returns (None, end_loop lv b))"
| "cluster_step E IntervalOver (lv, b) =
     (case lv of None \<Rightarrow> Returns (None, b)
      | Some v \<Rightarrow> run_bind (reconcile_turn E (lv_established v) b) (\<lambda>v b. Returns (Some v, b)))"
| "cluster_step E TakeMember (lv, b) =
     (case (lv, bk_reconcileCh b) of
        (Some v, m # ms) \<Rightarrow>
          if lv_listening v then run_bind (reconcileMember E m (b\<lparr>bk_reconcileCh := ms\<rparr>)) (\<lambda>_ b. Returns (lv, b))
          else Returns (lv, b)
      | _ \<Rightarrow> Returns (lv, b))"
| "cluster_step E (PoolEvent t ms) (lv, b) =
     (if bk_shutdown b then Returns (lv, b) else Returns (lv, lanEventHandler E t ms b))"
| "cluster_step E ShutdownEvent (lv, b) = Returns (None, Shutdown (end_loop lv b))"

fun cluster_run :: "('db, 'r) env \<Rightarrow> cluster_event list \<Rightarrow> leader_vars option \<times> ('db, 'r) broker \<Rightarrow>
    (leader_vars option \<times> ('db, 'r) broker) run" where
  "cluster_run E [] s = Returns s"
| "cluster_run E (e # es) s = run_bind (cluster_step E e s) (\<lambda>lv b. cluster_run E es (lv, b))"

end
