(* ===== verification/Broker_Invariant.thy ===== *)
theory Broker_Invariant
  imports Server Controller
begin

text \<open>
  Invariants of a broker: the contract a property of its state has to meet so that every handler of
  \<^verbatim>\<open>jocko/broker.go\<close> and the reconciliation of \<^verbatim>\<open>jocko/leader.go\<close> keep it.
\<close>

section \<open>Runs that keep an invariant\<close>

definition keeps :: "('s \<Rightarrow> bool) \<Rightarrow> ('a \<times> 's) run \<Rightarrow> bool" where
  "keeps I m \<longleftrightarrow> (\<forall>x s. m = Returns (x, s) \<longrightarrow> I s)"

lemma keeps_simps [simp]: "keeps I Panics" "keeps I Hangs" "keeps I (Returns r) \<longleftrightarrow> I (snd r)"
  by (cases r; simp add: keeps_def)+

lemma keepsD: "keeps I m \<Longrightarrow> m = Returns (x, s) \<Longrightarrow> I s"
  by (simp add: keeps_def)

lemma keeps_bind: "keeps I m \<Longrightarrow> (\<And>x s. m = Returns (x, s) \<Longrightarrow> I s \<Longrightarrow> keeps I (f x s)) \<Longrightarrow> keeps I (run_bind m f)"
  by (cases m) (auto simp: keeps_def)

lemma keeps_for:
  assumes "I s" and "\<And>i x s. x \<in> set xs \<Longrightarrow> I s \<Longrightarrow> keeps I (f i x s)"
  shows "keeps I (for_range f i xs s)"
  unfolding keeps_def
proof (intro allI impI)
  fix ys s'
  assume "for_range f i xs s = Returns (ys, s')"
  then show "I s'"
    by (rule for_range_invariant [where I = I]) (use assms(1) keepsD [OF assms(2)] in blast)+
qed

lemmas keeps_intros = keeps_bind keeps_for

section \<open>Requests a broker makes of raft\<close>

text \<open>No topic carries a configuration, no node is without a health check, and a group is a good one.\<close>

fun tame :: "(structs_Group \<Rightarrow> bool) \<Rightarrow> request \<Rightarrow> bool" where
  "tame good (RegisterGroupRequest g) \<longleftrightarrow> good g"
| "tame good (RegisterNodeRequest n) \<longleftrightarrow> nd_Check n \<noteq> None"
| "tame good r \<longleftrightarrow> codable r"

lemma tame_codable: "tame good r \<Longrightarrow> codable r"
  by (cases r) auto

section \<open>The contract\<close>

locale broker_invariant =
  fixes E :: "('db, 'r) env"
    and I :: "('db, 'r) broker \<Rightarrow> bool"
    and good :: "structs_Group \<Rightarrow> bool"
  assumes command: "I b \<Longrightarrow> tame good msg \<Longrightarrow> keeps I (raftApply E msg b)"
    and raft_changes: "I b \<Longrightarrow> I (b\<lparr>bk_raft := r\<rparr>)"
    and background_changes: "I b \<Longrightarrow> I (b\<lparr>bk_background := ws\<rparr>)"
    and replica_added: "I b \<Longrightarrow> I (b\<lparr>bk_replicaLookup := AddReplica rp (bk_replicaLookup b)\<rparr>)"
    and group_changes: "I b \<Longrightarrow> good g \<Longrightarrow> I (change_group E g b)"
    and found_good: "I b \<Longrightarrow> GetGroup (en_memdb E) (broker_state b) n = Ok (i, Some g) \<Longrightarrow> good g"
    and coordinated_good: "I b \<Longrightarrow> GetGroupsByCoordinator (en_memdb E) (broker_state b) c = Ok (i, gs) \<Longrightarrow> g \<in> set gs \<Longrightarrow> good g"
    and new_good: "good (new_group n c)"
    and good_members: "good g \<Longrightarrow> good (g\<lparr>gr_Members := ms\<rparr>)"
    and good_leader: "good g \<Longrightarrow> good (g\<lparr>gr_LeaderID := l\<rparr>)"
    and good_coordinator: "good g \<Longrightarrow> good (g\<lparr>gr_Coordinator := c\<rparr>)"
begin

lemma createPartition_keeps:
  "I b \<Longrightarrow> keeps I (createPartition E p b)"
  by (simp add: createPartition_def command)

lemma create_partitions_keeps:
  "I b \<Longrightarrow> keeps I (create_partitions E ps b)"
  by (induction ps arbitrary: b) (auto intro!: keeps_bind createPartition_keeps)

lemma handleLeaderAndISR_keeps: "I b \<Longrightarrow> keeps I (handleLeaderAndISR E req b)"
  unfolding handleLeaderAndISR_def Let_def
proof (intro keeps_intros)
  fix i p b'
  assume "I b'"
  then have added: "I (b'\<lparr>bk_replicaLookup := AddReplica r' (AddReplica r (bk_replicaLookup b'))\<rparr>)" for r r'
    using replica_added [of "b'\<lparr>bk_replicaLookup := AddReplica r (bk_replicaLookup b')\<rparr>" r'] replica_added [of b' r] by simp
  let ?r = "new_replica (broker_ID b') p" and ?b = "b'\<lparr>bk_replicaLookup := AddReplica (new_replica (broker_ID b') p) (bk_replicaLookup b')\<rparr>"
  show "keeps I (case take_role E ?b p ?r of Panics \<Rightarrow> Panics | Hangs \<Rightarrow> Hangs
      | Returns (err, replica) \<Rightarrow> Returns (\<lparr>lip_Topic = ps_Topic p, lip_Partition = ps_Partition p, lip_ErrorCode = Error_Code err\<rparr>,
          ?b\<lparr>bk_replicaLookup := AddReplica replica (bk_replicaLookup ?b)\<rparr>))"
    using added by (simp split: run.split prod.split)
qed auto

lemma tell_brokers_keeps: "I b \<Longrightarrow> keeps I (tell_brokers E req ms b)"
  by (induction ms arbitrary: b)
    (auto intro!: keeps_bind handleLeaderAndISR_keeps split: option.split outcome.split)

lemma createTopic_keeps:
  assumes "I b"
  shows "keeps I (createTopic E req b)"
  using assms unfolding createTopic_def
  by (auto simp: Let_def new_topic_def split: outcome.split option.split prod.split
      intro!: keeps_bind command create_partitions_keeps tell_brokers_keeps)

lemma offsetsTopic_keeps:
  assumes "I b"
  shows "keeps I (offsetsTopic E b)"
  using assms unfolding offsetsTopic_def
  by (auto simp: Let_def new_topic_def split: outcome.split option.split prod.split
      intro!: keeps_bind command create_partitions_keeps)

lemma produce_to_keeps: "I b \<Longrightarrow> keeps I (produce_to E t p b)"
  unfolding produce_to_def by (auto split: outcome.split option.split prod.split intro: replica_added)

lemma run_work_keeps:
  "I b \<Longrightarrow> keeps I (run_work E w b)"
  by (cases w) (auto simp: new_topic_def split: run.split
      intro!: keeps_bind createTopic_keeps command produce_to_keeps)

lemma withTimeout_keeps:
  assumes "I b"
  shows "keeps I (withTimeout E when timeout fn others b)"
  using assms run_work_keeps [OF assms, of fn]
  by (auto simp: withTimeout_def leave_behind_def keeps_def intro: background_changes
      split: timing.split run.split prod.split if_splits)

lemma finish_keeps:
  "I b \<Longrightarrow> keeps I (finish E g b)"
  by (cases g) (auto intro!: keeps_bind run_work_keeps)

lemma topic_handlers_keep:
  assumes "I b"
  shows "keeps I (handleCreateTopic E when1 reqs b)" "keeps I (handleDeleteTopics E when1 dreqs b)"
  using assms unfolding handleCreateTopic_def handleDeleteTopics_def Let_def
  by (auto intro!: keeps_intros withTimeout_keeps)

lemma data_handlers_keep:
  assumes "I b"
  shows "keeps I (handleProduce E when preq b)" "keeps I (handleFetch E when freq b)"
    "keeps I (handleOffsets oreq b)"
  using assms unfolding handleProduce_def handleFetch_def handleOffsets_def Let_def
  by (auto intro!: keeps_intros withTimeout_keeps split: run.split)

lemma handleMetadata_keeps: "I b \<Longrightarrow> keeps I (handleMetadata E mreq b)"
  unfolding handleMetadata_def Let_def
  by (auto intro!: keeps_intros split: run.split outcome.split prod.split)

lemma handleFindCoordinator_keeps:
  assumes "I b"
  shows "keeps I (handleFindCoordinator E fcreq b)"
  using assms unfolding handleFindCoordinator_def Let_def
  by (auto intro!: keeps_bind offsetsTopic_keeps split: run.split outcome.split prod.split option.split)

lemma handleJoinGroup_keeps:
  assumes "I b"
  shows "keeps I (handleJoinGroup E client r b)"
  using assms found_good [OF assms] unfolding handleJoinGroup_def Let_def
  by (auto simp: enter_member_def intro!: keeps_bind command group_changes new_good good_members good_leader
      split: outcome.split option.splits prod.split if_splits)

lemma handleLeaveGroup_keeps:
  assumes "I b"
  shows "keeps I (handleLeaveGroup E r b)"
  using assms found_good [OF assms] unfolding handleLeaveGroup_def Let_def
  by (auto intro!: keeps_bind command group_changes good_members split: outcome.split option.split prod.split)

lemma handleSyncGroup_keeps:
  assumes "I b"
  shows "keeps I (handleSyncGroup E r b)"
  using assms found_good [OF assms] unfolding handleSyncGroup_def Let_def
  by (auto intro!: keeps_bind command split: outcome.split option.split prod.split GroupState.split)

lemma group_queries_keep:
  "I b \<Longrightarrow> keeps I (handleHeartbeat E hreq b)"
  "I b \<Longrightarrow> keeps I (handleListGroups E lsreq b)"
  "I b \<Longrightarrow> keeps I (handleDescribeGroups E dgreq b)"
  unfolding handleHeartbeat_def handleListGroups_def handleDescribeGroups_def Let_def
  by (auto split: outcome.split option.split prod.split run.split)

lemma Run_keeps:
  assumes "I b"
  shows "keeps I (Run E when h req b)"
  using assms
  by (cases req) (auto intro!: keeps_bind topic_handlers_keep data_handlers_keep handleMetadata_keeps
      handleLeaderAndISR_keeps handleFindCoordinator_keeps handleJoinGroup_keeps handleLeaveGroup_keeps
      handleSyncGroup_keeps group_queries_keep)

lemma serve_keeps: "I b \<Longrightarrow> keeps I (serve E tm k conn b)"
proof (induction conn arbitrary: k b rule: measure_induct_rule [of length])
  case (less conn)
  show ?case
  proof (cases "read_request conn")
    case (Returns r)
    show ?thesis
    proof (cases r)
      case None
      with Returns less.prems show ?thesis by (subst serve.simps) simp
    next
      case (Some q)
      obtain h req rest where q: "q = (h, req, rest)" by (cases q)
      have "keeps I (serve E tm (Suc k) rest b')" if "Run E (tm k) h req b = Returns (res, b')" for res b'
        using keepsD [OF Run_keeps [OF less.prems] that] Returns Some q
        by (intro less.IH) (auto dest: read_request_shorter)
      with Returns Some q show ?thesis
        by (subst serve.simps) (auto split: run.split intro!: keeps_bind dest: keepsD)
    qed
  qed (subst serve.simps, simp)+
qed

text \<open>Reconciliation.\<close>

lemma remove_server_keeps: "I b \<Longrightarrow> remove_server E i b = (err, b') \<Longrightarrow> I b'"
  by (auto simp: remove_server_def intro: raft_changes split: prod.splits)

lemma remove_clashing_keeps: "I b \<Longrightarrow> remove_clashing E parts ss b = (r, b') \<Longrightarrow> I b'"
  by (induction ss arbitrary: b)
    (auto simp: Let_def dest: remove_server_keeps split: prod.splits option.splits if_splits)

lemma remove_by_id_keeps: "I b \<Longrightarrow> remove_by_id E i ss b = (r, b') \<Longrightarrow> I b'"
  by (induction ss arbitrary: b) (auto dest: remove_server_keeps split: prod.splits option.splits if_splits)

lemma joinCluster_keeps: "I b \<Longrightarrow> keeps I (joinCluster E m parts b)"
  unfolding joinCluster_def
  by (auto intro: raft_changes dest: remove_clashing_keeps split: outcome.split prod.split bool.split)

lemma removeServer_keeps: "I b \<Longrightarrow> keeps I (removeServer E meta b)"
  unfolding removeServer_def keeps_def by (auto dest: remove_by_id_keeps split: outcome.splits)

lemma handleAliveMember_keeps:
  assumes "I b"
  shows "keeps I (handleAliveMember E m b)"
  using assms unfolding handleAliveMember_def
  by (auto simp: node_record_def split: option.split outcome.split prod.split
      intro!: keeps_bind joinCluster_keeps command)

lemma handleDeregisterMember_keeps:
  assumes "I b"
  shows "keeps I (handleDeregisterMember E m b)"
  using assms unfolding handleDeregisterMember_def
  by (auto split: option.split outcome.split prod.split intro!: keeps_bind removeServer_keeps command)

lemma reassign_groups_keeps:
  "I b \<Longrightarrow> \<forall>g\<in>set gs. good g \<Longrightarrow> keeps I (reassign_groups E passing k gs b)"
  by (induction gs arbitrary: b k) (auto intro!: keeps_bind command good_coordinator)

lemma reassign_partitions_keeps:
  "I b \<Longrightarrow> keeps I (reassign_partitions E i passing k ps b)"
  by (induction ps arbitrary: b k) (auto intro!: keeps_bind command)

lemma handleFailedMember_keeps:
  assumes "I b"
  shows "keeps I (handleFailedMember E m b)"
  using assms unfolding handleFailedMember_def Let_def
  by (auto simp: node_record_def split: option.split outcome.split prod.split run.split
      intro!: keeps_bind command reassign_groups_keeps reassign_partitions_keeps)
    (erule (2) coordinated_good)

lemma reconcileMember_keeps:
  assumes "I b"
  shows "keeps I (reconcileMember E m b)"
  using assms unfolding reconcileMember_def
  by (auto split: MemberStatus.split
      intro!: keeps_bind handleAliveMember_keeps handleFailedMember_keeps handleDeregisterMember_keeps)

lemma reap_nodes_keeps:
  "I b \<Longrightarrow> keeps I (reap_nodes E known ns b)"
  by (induction ns arbitrary: b) (auto intro!: keeps_bind handleDeregisterMember_keeps)

lemma reconcile_keeps:
  assumes "I b"
  shows "keeps I (reconcile E b)"
  using assms unfolding reconcile_def reconcileReaped_def Let_def
  by (auto intro!: keeps_intros reconcileMember_keeps reap_nodes_keeps split: outcome.split prod.split)

end

end
