(* ===== verification/Broker_Correct.thy ===== *)
theory Broker_Correct
  imports Broker_Invariant
begin

text \<open>
  What a broker keeps: the assignment of replicas, the effect of a command on the replicated
  catalogue, and an invariant of the broker that every request and every event of the cluster keeps.
\<close>

section \<open>Assignment of replicas\<close>

lemma length_assign_partitions [simp]: "length (assign_partitions ids topic rnd extra here i n) = n"
  by (induction ids topic rnd extra here i n rule: assign_partitions.induct) (simp_all add: Let_def)

text \<open>Walking round a ring of different ids, fewer than a full turn meets different ones.\<close>

lemma ring_distinct:
  assumes "distinct ids" and "k \<le> length ids"
  shows "distinct (map (\<lambda>j. ids ! ((h + j) mod length ids)) [0..<k])"
proof -
  have "inj_on (\<lambda>j. ids ! ((h + j) mod length ids)) {0..<k}"
  proof (rule linorder_inj_onI)
    fix x y :: nat
    assume "x < y" and xy: "x \<in> {0..<k}" "y \<in> {0..<k}"
    then have pos: "0 < length ids" and less: "y - x < length ids" "0 < y - x" using assms(2) by auto
    have "(h + x) mod length ids \<noteq> (h + y) mod length ids"
    proof
      assume "(h + x) mod length ids = (h + y) mod length ids"
      then have "length ids dvd (h + y) - (h + x)" 
        using mod_eq_dvd_iff_nat [of "h + x" "h + y" "length ids"] \<open>x < y\<close> by simp
      with less show False by (simp add: nat_dvd_not_less)
    qed
    with assms(1) pos show "ids ! ((h + x) mod length ids) \<noteq> ids ! ((h + y) mod length ids)"
      by (simp add: nth_eq_iff_index_eq)
  qed auto
  then show ?thesis by (simp add: distinct_map)
qed

lemma sint_word_of_int_16:
  assumes "- (2 ^ 15) \<le> k" and "k < 2 ^ 15"
  shows "sint (word_of_int k :: int16) = k"
  using assms by (simp add: sint_sbintrunc' signed_take_bit_int_eq_self)

lemma sint_pred_16: "1 \<le> sint (w :: int16) \<Longrightarrow> sint (w - 1) = sint w - 1"
  using sint_word_of_int_16 [of "sint w - 1"] sint_lt [of w] by simp

text \<open>A partition as the assignment makes it: \<open>n\<close> different replicas, the leader the first of them, all in sync.\<close>

definition well_assigned :: "int32 set \<Rightarrow> nat \<Rightarrow> structs_Partition \<Rightarrow> bool" where
  "well_assigned ids n p \<longleftrightarrow> length (pt_AR p) = n \<and> distinct (pt_AR p) \<and> set (pt_AR p) \<subseteq> ids \<and>
     pt_Leader p = hd (pt_AR p) \<and> pt_ISR p = pt_AR p"

lemma ring_assigned:
  assumes "distinct ids" and "extra < length ids" and "h < length ids"
    and "pt_AR p = map (\<lambda>k. ids ! ((h + k) mod length ids)) [0..<Suc extra]" and "pt_ISR p = pt_AR p" and "pt_Leader p = ids ! h"
  shows "well_assigned (set ids) (Suc extra) p"
proof -
  have "distinct (pt_AR p)" unfolding assms(4) using assms(1,2) by (intro ring_distinct) auto
  moreover have "set (pt_AR p) \<subseteq> set ids" unfolding assms(4) using assms(3) by (auto simp del: upt_Suc intro!: nth_mem mod_less_divisor)
  moreover have "hd (pt_AR p) = ids ! h" unfolding assms(4) using assms(3) by (simp add: upt_conv_Cons del: upt_Suc)
  ultimately show ?thesis using assms(4-6) by (simp add: well_assigned_def del: upt_Suc)
qed

lemma assign_partitions_nth:
  assumes "distinct ids" and "extra < length ids" and "k < n"
  shows "pt_ID (assign_partitions ids topic rnd extra here i n ! k) = word_of_nat (i + k) \<and>
    pt_Partition (assign_partitions ids topic rnd extra here i n ! k) = word_of_nat (i + k) \<and>
    pt_Topic (assign_partitions ids topic rnd extra here i n ! k) = topic \<and>
    well_assigned (set ids) (Suc extra) (assign_partitions ids topic rnd extra here i n ! k)"
  using assms
proof (induction n arbitrary: k i here)
  case (Suc n)
  let ?h = "(here + rnd i mod length ids) mod length ids"
  show ?case
  proof (cases k)
    case 0
    have "?h < length ids" using Suc.prems(2) by (intro mod_less_divisor) linarith
    then have "well_assigned (set ids) (Suc extra) (assign_partitions ids topic rnd extra here i (Suc n) ! 0)"
      by (intro ring_assigned [OF Suc.prems(1,2), where h = ?h]) (simp_all add: Let_def del: upt_Suc)
    moreover have "pt_ID (assign_partitions ids topic rnd extra here i (Suc n) ! 0) = word_of_nat i \<and>
        pt_Partition (assign_partitions ids topic rnd extra here i (Suc n) ! 0) = word_of_nat i \<and>
        pt_Topic (assign_partitions ids topic rnd extra here i (Suc n) ! 0) = topic"
      by (simp add: Let_def del: upt_Suc)
    ultimately show ?thesis unfolding 0 by (simp only: add_0_right)
  next
    case k: (Suc m)
    have "assign_partitions ids topic rnd extra here i (Suc n) ! k =
        assign_partitions ids topic rnd extra ((?h + extra) mod length ids) (Suc i) n ! m"
      unfolding k by (simp only: assign_partitions.simps Let_def nth_Cons_Suc)
    moreover have "m < n" "Suc i + m = i + k" using k Suc.prems(3) by simp_all
    ultimately show ?thesis
      using Suc.IH [OF Suc.prems(1,2), of m "(?h + extra) mod length ids" "Suc i"] by (simp only:)
  qed
qed simp

lemma buildPartitions_assigned:
  assumes "lookup_ok (bk_brokerLookup b)" and "1 \<le> sint rf" and "sint rf \<le> int (length (Brokers (bk_brokerLookup b)))"
  shows "\<exists>ps. buildPartitions E topic n rf b = Ok ps \<and> length ps = nat (sint n) \<and>
    (\<forall>k<length ps. pt_ID (ps ! k) = word_of_nat k \<and> pt_Partition (ps ! k) = word_of_nat k \<and> pt_Topic (ps ! k) = topic \<and>
       well_assigned (mt_ID ` set (Brokers (bk_brokerLookup b))) (nat (sint rf)) (ps ! k))"
proof -
  let ?ids = "map mt_ID (Brokers (bk_brokerLookup b))"
  have "sint (rf - 1) = sint rf - 1" using assms(2) by (intro sint_pred_16)
  then have extra: "nat (sint (rf - 1)) < length ?ids" "Suc (nat (sint (rf - 1))) = nat (sint rf)"
    using assms(2,3) by auto
  let ?ps = "assign_partitions ?ids topic (en_rand E topic) (nat (sint (rf - 1))) 0 0 (nat (sint n))"
  have "buildPartitions E topic n rf b = Ok ?ps"
    using assms(2,3) by (cases "Brokers (bk_brokerLookup b)") (simp_all add: buildPartitions_def Let_def)
  moreover have "distinct ?ids" using distinct_Brokers [OF assms(1)] .
  note assign_partitions_nth [OF this extra(1), of _ "nat (sint n)" topic "en_rand E topic" 0 0, unfolded extra(2) add_0 set_map]
  ultimately show ?thesis by (intro exI [of _ ?ps]) (auto simp only: length_assign_partitions)
qed

section \<open>The invariant of a broker\<close>

text \<open>
  The state machine is in good order; every group is in the state and generation it was created
  with, and every node has a health check; every replica is found under its own topic and number.
\<close>

definition fresh_group :: "structs_Group \<Rightarrow> bool" where
  "fresh_group g \<longleftrightarrow> gr_State g = GroupStatePreparingRebalance \<and> gr_GenerationID g = 0"

definition catalog_ok :: "catalog \<Rightarrow> bool" where
  "catalog_ok c \<longleftrightarrow> (\<forall>g\<in>ran (cat_groups c). fresh_group g) \<and> (\<forall>n\<in>ran (cat_nodes c). nd_Check n \<noteq> None)"

definition replicas_ok :: "replicaLookup \<Rightarrow> bool" where
  "replicas_ok rl \<longleftrightarrow> (\<forall>k r. replica_at rl k = Some r \<longrightarrow> replica_key r = k)"

lemma replicas_ok_AddReplica [simp]: "replicas_ok rl \<Longrightarrow> replicas_ok (AddReplica r rl)"
  by (simp add: replicas_ok_def replica_table.find_add)

definition broker_ok :: "('db, 'r) env \<Rightarrow> 'db memdb_view \<Rightarrow> ('db, 'r) broker \<Rightarrow> bool" where
  "broker_ok E V b \<longleftrightarrow> fsm_ok (en_memdb E) V (bk_fsm b) \<and> catalog_ok (fsm_catalog V (bk_fsm b)) \<and>
     replicas_ok (bk_replicaLookup b)"

lemma broker_ok_update [simp]:
  "broker_ok E V (b\<lparr>bk_config := c\<rparr>) = broker_ok E V b"
  "broker_ok E V (b\<lparr>bk_readyForConsistentReads := x\<rparr>) = broker_ok E V b"
  "broker_ok E V (b\<lparr>bk_brokerLookup := l\<rparr>) = broker_ok E V b"
  "broker_ok E V (b\<lparr>bk_raft := r\<rparr>) = broker_ok E V b"
  "broker_ok E V (b\<lparr>bk_reconcileCh := ms\<rparr>) = broker_ok E V b"
  "broker_ok E V (b\<lparr>bk_members := ms\<rparr>) = broker_ok E V b"
  "broker_ok E V (b\<lparr>bk_shutdown := x\<rparr>) = broker_ok E V b"
  "broker_ok E V (b\<lparr>bk_background := ws\<rparr>) = broker_ok E V b"
  by (simp_all add: broker_ok_def)

lemma broker_ok_lookup [simp]:
  "broker_ok E V b \<Longrightarrow> replicas_ok (bk_replicaLookup b)"
  "broker_ok E V b \<Longrightarrow> replicas_ok rl \<Longrightarrow> broker_ok E V (b\<lparr>bk_replicaLookup := rl\<rparr>)"
  by (simp_all add: broker_ok_def)

lemma broker_okD:
  assumes "broker_ok E V b"
  shows "store_ok (en_memdb E) V (broker_state b)" "catalog_ok (catalog_abs V (broker_state b))"
  using assms by (auto simp: broker_ok_def fsm_ok_def)

lemma broker_ok_group: "broker_ok E V b \<Longrightarrow> cat_groups (catalog_abs V (broker_state b)) n = Some g \<Longrightarrow> fresh_group g"
  by (auto simp: broker_ok_def catalog_ok_def ran_def)

lemma ran_upd_subset: "ran (m(k \<mapsto> v)) \<subseteq> insert v (ran m)" "ran (m(k := None)) \<subseteq> ran m"
  by (auto simp: ran_def)

lemma spec_apply_catalog_ok:
  assumes "catalog_ok c" and "tame fresh_group r"
  shows "catalog_ok (spec_apply lower idx r c)"
proof (cases r)
  case (RegisterGroupRequest g)
  with assms show ?thesis using ran_upd_subset(1)
    by (fastforce simp: catalog_ok_def spec_defs touch_def fresh_group_def)
next
  case (RegisterNodeRequest n)
  with assms show ?thesis using ran_upd_subset(1)
    by (fastforce simp: catalog_ok_def spec_defs touch_def)
next
  case (DeregisterNodeRequest n)
  with assms show ?thesis using ran_upd_subset(2)
    by (fastforce simp: catalog_ok_def spec_defs touch_def)
qed (use assms in \<open>auto simp: catalog_ok_def spec_defs touch_def\<close>)

text \<open>What a command does to a broker: nothing but a step of its catalogue and of raft.\<close>

lemma raftApply_step:
  assumes "fsm_ok (en_memdb E) V (bk_fsm b)" and "msgpack_ok (en_codec E)" and "codable msg"
    and "raftApply E msg b = Returns (err, b')"
  shows "\<exists>r c. b' = b\<lparr>bk_raft := r, bk_fsm := c\<rparr> \<and> fsm_ok (en_memdb E) V c \<and>
    (fsm_catalog V c = fsm_catalog V (bk_fsm b) \<or>
     (\<exists>idx. fsm_catalog V c = spec_apply (db_lower V) idx msg (fsm_catalog V (bk_fsm b))))"
proof (cases "structs_Encode (en_codec E) (request_type msg) msg")
  case (Ok buf)
  obtain res r where raft: "raft_Apply (en_raft E) (bk_raft b) buf = (res, r)" by force
  show ?thesis
  proof (cases res)
    case ok: (Ok idx)
    from FSM_Apply_step [OF assms(1-3) Ok, of idx] consider
        (applied) c where "FSM_Apply (en_memdb E) (en_codec E) (bk_fsm b) buf idx = Ok c" "fsm_ok (en_memdb E) V c"
          "fsm_catalog V c = spec_apply (db_lower V) idx msg (fsm_catalog V (bk_fsm b))"
      | (failed) e where "FSM_Apply (en_memdb E) (en_codec E) (bk_fsm b) buf idx = Err e"
      by (auto split: if_splits)
    then show ?thesis
    proof cases
      case applied
      with assms(4) Ok raft ok show ?thesis
        by (intro exI [of _ r] exI [of _ c]) (auto simp: raftApply_def)
    next
      case failed
      with assms(1,4) Ok raft ok show ?thesis
        by (intro exI [of _ r] exI [of _ "bk_fsm b"]) (auto simp: raftApply_def)
    qed
  qed (use assms(1,4) Ok raft in \<open>auto simp: raftApply_def intro!: exI [of _ r] exI [of _ "bk_fsm b"]\<close>)
qed (use assms(1,4) in \<open>auto simp: raftApply_def intro!: exI [of _ "bk_raft b"] exI [of _ "bk_fsm b"]\<close>)

lemma raftApply_keeps:
  assumes "msgpack_ok (en_codec E)" and "broker_ok E V b" and "tame fresh_group msg"
  shows "keeps (broker_ok E V) (raftApply E msg b)"
  unfolding keeps_def
proof (intro allI impI)
  fix err b'
  assume "raftApply E msg b = Returns (err, b')"
  moreover have fsm: "fsm_ok (en_memdb E) V (bk_fsm b)" "catalog_ok (fsm_catalog V (bk_fsm b))"
      "replicas_ok (bk_replicaLookup b)"
    using assms(2) by (simp_all add: broker_ok_def)
  ultimately obtain r c where c: "b' = b\<lparr>bk_raft := r, bk_fsm := c\<rparr>" "fsm_ok (en_memdb E) V c"
    "fsm_catalog V c = fsm_catalog V (bk_fsm b) \<or>
     (\<exists>idx. fsm_catalog V c = spec_apply (db_lower V) idx msg (fsm_catalog V (bk_fsm b)))"
    using raftApply_step [OF fsm(1) assms(1) tame_codable [OF assms(3)]] by blast
  have "catalog_ok (fsm_catalog V c)"
    using c(3) fsm(2) spec_apply_catalog_ok [OF fsm(2) assms(3)] by (elim disjE exE) simp_all
  with c(1,2) fsm(3) show "broker_ok E V b'" by (simp add: broker_ok_def)
qed

lemma coordinated_group:
  assumes "broker_ok E V b" and "GetGroupsByCoordinator (en_memdb E) (broker_state b) i = Ok (k, gs)"
    and "g \<in> set gs"
  shows "fresh_group g"
  using assms(2,3) index_laws(1) [OF broker_okD(1) [OF assms(1)], of i] broker_okD(2) [OF assms(1)]
  by (auto simp: catalog_ok_def)

lemma found_group:
  assumes "broker_ok E V b" and "GetGroup (en_memdb E) (broker_state b) n = Ok (i, Some g)"
  shows "fresh_group g"
  using assms(2) Get_laws(3) [OF broker_okD(1) [OF assms(1)], of n] broker_ok_group [OF assms(1)] by auto

lemma change_group_ok:
  assumes "broker_ok E V b" and "fresh_group g"
  shows "broker_ok E V (change_group E g b)"
proof -
  let ?M = "en_memdb E" and ?db = "st_db (broker_state b)" and ?k = "db_key V (db_lower V (gr_Group g))"
  let ?R = "db_rows V ?db"
  have ok: "db_ok ?M V ?db" using broker_okD(1) [OF assms(1)] by (simp add: store_ok_def)
  note ix = db_okD(2) [OF ok]
  show ?thesis
  proof (cases "gr_Group g = []")
    case True
    then have "\<exists>e. Insert ?M ?db ''groups'' (ObjGroup g) = Err e"
      using string_index_key [OF ix, of "ObjGroup g" "''Group''" "[]" True]
      by (intro Insert_missing [OF ok, of _ "groupTableSchema ?M"]) (simp_all add: tables_def)
    with assms(1) show ?thesis by (auto simp: change_group_def)
  next
    case False
    then have "stored V ''groups'' ?k (ObjGroup g)" "has_name (ObjGroup g)" by (simp_all add: string_key_def)
    from Insert_stored [OF ok this] obtain db where db: "Insert ?M ?db ''groups'' (ObjGroup g) = Ok db"
      "db_ok ?M V db" "db_rows V db = ?R(''groups'' := (?R ''groups'')(?k \<mapsto> ObjGroup g))" by blast
    have "catalog_of V (db_rows V db) = (catalog_of V ?R)\<lparr>cat_groups :=
        (cat_groups (catalog_of V ?R))(db_lower V (gr_Group g) \<mapsto> g)\<rparr>"
      by (simp add: db(3) catalog_write [OF ix])
    with db assms ran_upd_subset(1) [of "cat_groups (catalog_of V ?R)" "db_lower V (gr_Group g)" g] show ?thesis
      by (auto simp: change_group_def broker_ok_def fsm_ok_def store_ok_def catalog_abs_def catalog_ok_def)
  qed
qed

lemma tame_mono: "tame good r \<Longrightarrow> (\<And>g. good g \<Longrightarrow> good' g) \<Longrightarrow> tame good' r"
  by (cases r) auto

interpretation keep_ok: broker_invariant E "\<lambda>b. msgpack_ok (en_codec E) \<longrightarrow> broker_ok E V b"
    "\<lambda>g. msgpack_ok (en_codec E) \<longrightarrow> fresh_group g" for E V
proof (unfold_locales, goal_cases)
  case (1 b msg)
  show ?case
  proof (cases "msgpack_ok (en_codec E)")
    case True
    with 1 have "keeps (broker_ok E V) (raftApply E msg b)" by (intro raftApply_keeps) (auto elim: tame_mono)
    then show ?thesis by (simp add: keeps_def)
  qed (simp add: keeps_def)
qed (auto simp: fresh_group_def new_group_def intro: change_group_ok dest: found_group coordinated_group)

text \<open>What requests and reconciliation leave alone.\<close>

abbreviation own_part :: "('db, 'r) broker \<Rightarrow> Config \<times> bool \<times> brokerLookup \<times> serf_Member list \<times> serf_Member list \<times> bool" where
  "own_part b \<equiv> (bk_config b, bk_readyForConsistentReads b, bk_brokerLookup b, bk_reconcileCh b, bk_members b, bk_shutdown b)"

lemma raftApply_own_part: "raftApply E msg b = Returns (err, b') \<Longrightarrow> own_part b' = own_part b"
  by (auto simp: raftApply_def Let_def split: outcome.splits prod.splits)

interpretation frame: broker_invariant E "\<lambda>b. own_part b = x" "\<lambda>_. True" for E x
  by unfold_locales (auto simp: keeps_def change_group_def dest: raftApply_own_part split: outcome.split)

section \<open>Reachable states\<close>

text \<open>
  The steps of a running broker, with the variables of its leader loop: it handles a request, sees
  an event of the cluster, finishes work it left behind, or a replicator fetches or appends.  Raft moves on by
  itself; it applies the commands of other brokers, which are such as a broker issues, and restores snapshots.
\<close>

inductive broker_step :: "('db, 'r) env \<Rightarrow> leader_vars option \<times> ('db, 'r) broker \<Rightarrow>
    leader_vars option \<times> ('db, 'r) broker \<Rightarrow> bool" for E where
  request: "Run E tm h req b = Returns (res, b') \<Longrightarrow> broker_step E (lv, b) (lv, b')"
| event: "cluster_step E e (lv, b) = Returns (lv', b') \<Longrightarrow> broker_step E (lv, b) (lv', b')"
| background: "bk_background b = gs @ g # gs' \<Longrightarrow> finish E g (b\<lparr>bk_background := gs @ gs'\<rparr>) = Returns (u, b') \<Longrightarrow>
    broker_step E (lv, b) (lv, b')"
| fetched: "LookupReplica t i (bk_replicaLookup b) = Ok rp \<Longrightarrow> rp_Replicator rp = Some r \<Longrightarrow> rr_running r \<Longrightarrow>
    fetchMessages behind answer r = Returns (more_to_do, r') \<Longrightarrow>
    broker_step E (lv, b) (lv, b\<lparr>bk_replicaLookup := AddReplica (rp\<lparr>rp_Replicator := Some r'\<rparr>) (bk_replicaLookup b)\<rparr>)"
| appended: "LookupReplica t i (bk_replicaLookup b) = Ok rp \<Longrightarrow> rp_Replicator rp = Some r \<Longrightarrow> rr_running r \<Longrightarrow>
    rp_Log rp = Some l \<Longrightarrow> appendMessages (en_hash E) r l = Returns (r', l') \<Longrightarrow>
    broker_step E (lv, b) (lv, b\<lparr>bk_replicaLookup :=
      AddReplica (rp\<lparr>rp_Replicator := Some r', rp_Log := Some l'\<rparr>) (bk_replicaLookup b)\<rparr>)"
| raft_moved: "broker_step E (lv, b) (lv, b\<lparr>bk_raft := r\<rparr>)"
| replicated: "tame fresh_group msg \<Longrightarrow> structs_Encode (en_codec E) (request_type msg) msg = Ok buf \<Longrightarrow>
    FSM_Apply (en_memdb E) (en_codec E) (bk_fsm b) buf idx = Ok c \<Longrightarrow> broker_step E (lv, b) (lv, b\<lparr>bk_fsm := c\<rparr>)"
| restored: "FSM_Restore (en_memdb E) (en_codec E) (bk_fsm b) buf = Ok c \<Longrightarrow> broker_step E (lv, b) (lv, b\<lparr>bk_fsm := c\<rparr>)"

inductive reachable :: "('db, 'r) env \<Rightarrow> leader_vars option \<times> ('db, 'r) broker \<Rightarrow> bool" for E where
  started: "NewBroker E L pool config = Ok b \<Longrightarrow> reachable E (None, b)"
| stepped: "reachable E s \<Longrightarrow> broker_step E s s' \<Longrightarrow> reachable E s'"

lemma NewBroker_ok:
  assumes "memdb_ok (en_memdb E) V" and "NewBroker E L pool config = Ok b"
  shows "broker_ok E V b"
proof -
  obtain c where "FSM_New (en_memdb E) = Ok c" "fsm_ok (en_memdb E) V c" "fsm_catalog V c = empty_catalog"
    using FSM_New_ok [OF assms(1)] by blast
  with assms(2) show ?thesis
    by (auto simp: broker_ok_def catalog_ok_def empty_catalog_def replicas_ok_def NewReplicaLookup_def elim!: NewBroker_Ok)
qed

subsection \<open>The invariant holds\<close>

lemma maybeBootstrap_ok [simp]: "broker_ok E V (maybeBootstrap E b) = broker_ok E V b"
  by (simp add: maybeBootstrap_def Let_def split: outcome.split option.split)

lemma lanNodeJoin_ok [simp]: "broker_ok E V (lanNodeJoin E ms b) = broker_ok E V b"
  by (induction ms arbitrary: b) (simp_all add: Let_def split: option.split)

lemma lanNodeFailed_ok [simp]: "broker_ok E V (lanNodeFailed ms b) = broker_ok E V b"
  by (induction ms arbitrary: b) (simp_all split: option.split)

lemma lanEventHandler_ok [simp]: "broker_ok E V (lanEventHandler E t ms b) = broker_ok E V b"
  by (cases t) (simp_all add: localMemberEvent_def)

lemma reconcile_turn_keeps:
  assumes "msgpack_ok (en_codec E)" and "broker_ok E V b"
  shows "keeps (broker_ok E V) (reconcile_turn E established b)"
  using assms keep_ok.reconcile_keeps [of E V] unfolding reconcile_turn_def Let_def
  by (auto simp: establishLeadership_def intro!: keeps_bind split: prod.split)

lemma cluster_step_keeps:
  assumes "msgpack_ok (en_codec E)" and "broker_ok E V b"
  shows "keeps (broker_ok E V) (cluster_step E e (lv, b))"
  using assms keep_ok.reconcileMember_keeps [of E V]
  by (cases e) (auto simp: end_loop_def revokeLeadership_def Shutdown_def split: option.split list.split
      intro!: keeps_bind reconcile_turn_keeps)

lemma broker_step_ok:
  assumes "msgpack_ok (en_codec E)" and "broker_ok E V b" and "broker_step E (lv, b) (lv', b')"
  shows "broker_ok E V b'"
  using assms(3)
proof cases
  case (request tm h req res)
  with keep_ok.Run_keeps [of E V b] assms show ?thesis by (auto dest: keepsD)
next
  case (event e)
  with cluster_step_keeps [OF assms(1,2)] show ?thesis by (auto dest: keepsD)
next
  case (background gs g gs' u)
  with keep_ok.finish_keeps [of E V "b\<lparr>bk_background := gs @ gs'\<rparr>" g] assms show ?thesis by (auto dest: keepsD)
next
  case (replicated msg buf idx c)
  have b: "fsm_ok (en_memdb E) V (bk_fsm b)" "catalog_ok (fsm_catalog V (bk_fsm b))" "replicas_ok (bk_replicaLookup b)"
    using assms(2) by (simp_all add: broker_ok_def)
  from FSM_Apply_step [OF b(1) assms(1) tame_codable [OF replicated(3)] replicated(4), of idx] replicated(5)
  have "fsm_ok (en_memdb E) V c" "fsm_catalog V c = spec_apply (db_lower V) idx msg (fsm_catalog V (bk_fsm b))"
    by (auto split: if_splits)
  with replicated(2) b spec_apply_catalog_ok [OF b(2) replicated(3)] show ?thesis by (simp add: broker_ok_def)
next
  case (restored buf c)
  have "fsm_ok (en_memdb E) V (bk_fsm b)" using assms(2) by (simp add: broker_ok_def)
  from FSM_Restore_empty [OF this restored(3)] restored(2) assms(2) show ?thesis
    by (simp add: broker_ok_def catalog_ok_def empty_catalog_def)
qed (use assms in simp_all)

lemma reachable_ok:
  assumes "memdb_ok (en_memdb E) V" and "msgpack_ok (en_codec E)" and "reachable E s"
  shows "broker_ok E V (snd s)"
  using assms(3)
proof induction
  case (started L pool config b)
  with NewBroker_ok [OF assms(1)] show ?case by simp
next
  case (stepped s s')
  with broker_step_ok [OF assms(2), of V "snd s" "fst s" "fst s'" "snd s'"] show ?case by simp
qed

subsection \<open>Leadership\<close>

abbreviation leading :: "leader_vars option \<Rightarrow> bool" where
  "leading lv \<equiv> \<exists>v. lv = Some v \<and> lv_established v"

lemma reconcile_turn_ready:
  assumes "reconcile_turn E established b = Returns (v, b')" and "bk_readyForConsistentReads b = established"
  shows "bk_readyForConsistentReads b' = lv_established v"
proof -
  have "bk_readyForConsistentReads s' = bk_readyForConsistentReads s" if "reconcile E s = Returns (err, s')" for s s' err
    using keepsD [OF frame.reconcile_keeps [OF refl, of s E] that] by simp
  note kept = this
  obtain err r where bar: "raft_Barrier (en_raft E) (bk_raft b) = (err, r)" by force
  show ?thesis
  proof (cases err)
    case (Some e)
    with assms bar show ?thesis by (auto simp: reconcile_turn_def)
  next
    case None
    let ?b = "if established then b\<lparr>bk_raft := r\<rparr> else establishLeadership (b\<lparr>bk_raft := r\<rparr>)"
    from assms(1) bar None obtain err' where "reconcile E ?b = Returns (err', b')" "lv_established v"
      by (auto simp: reconcile_turn_def Let_def run_bind_eq_Returns)
    with kept assms(2) show ?thesis by (auto simp: establishLeadership_def split: if_splits)
  qed
qed

lemma bootstrap_ready [simp]: "bk_readyForConsistentReads (maybeBootstrap E b) = bk_readyForConsistentReads b"
  by (simp add: maybeBootstrap_def Let_def split: outcome.split option.split)

lemma lanNodeJoin_ready [simp]: "bk_readyForConsistentReads (lanNodeJoin E ms b) = bk_readyForConsistentReads b"
  by (induction ms arbitrary: b) (simp_all add: Let_def split: option.split)

lemma lanNodeFailed_ready [simp]: "bk_readyForConsistentReads (lanNodeFailed ms b) = bk_readyForConsistentReads b"
  by (induction ms arbitrary: b) (simp_all split: option.split)

lemma lanEventHandler_ready [simp]: "bk_readyForConsistentReads (lanEventHandler E t ms b) = bk_readyForConsistentReads b"
  by (cases t) (simp_all add: localMemberEvent_def)

lemma cluster_step_ready:
  assumes "cluster_step E e (lv, b) = Returns (lv', b')" and "bk_readyForConsistentReads b = leading lv"
  shows "bk_readyForConsistentReads b' = leading lv'"
proof (cases e)
  case LeadershipGained
  with assms reconcile_turn_ready [of E False b] show ?thesis
    by (auto simp: run_bind_eq_Returns split: if_splits)
next
  case IntervalOver
  with assms reconcile_turn_ready [of E _ b] show ?thesis
    by (fastforce simp: run_bind_eq_Returns split: option.splits)
next
  case TakeMember
  have "bk_readyForConsistentReads s' = bk_readyForConsistentReads s" if "reconcileMember E m s = Returns (u, s')" for m s s' u
    using keepsD [OF frame.reconcileMember_keeps [OF refl, of s E] that] by simp
  with TakeMember assms show ?thesis
    by (fastforce simp: run_bind_eq_Returns split: option.splits list.splits if_splits)
qed (use assms in \<open>auto simp: end_loop_def revokeLeadership_def Shutdown_def split: option.splits if_splits\<close>)

lemma broker_step_ready:
  assumes "broker_step E (lv, b) (lv', b')" and "bk_readyForConsistentReads b = leading lv"
  shows "bk_readyForConsistentReads b' = leading lv'"
  using assms(1)
proof cases
  case (request tm h req res)
  with keepsD [OF frame.Run_keeps [OF refl, of b E]] assms(2) show ?thesis by fastforce
next
  case (event e)
  with cluster_step_ready assms(2) show ?thesis by blast
next
  case (background gs g gs' u)
  with keepsD [OF frame.finish_keeps [OF refl, of "b\<lparr>bk_background := gs @ gs'\<rparr>" E]] assms(2) show ?thesis by fastforce
qed (use assms(2) in simp_all)

lemma reachable_ready:
  assumes "reachable E (lv, b)"
  shows "bk_readyForConsistentReads b = leading lv"
  using assms
proof (induction "(lv, b)" arbitrary: lv b)
  case (started L pool config b)
  then show ?case by (auto elim!: NewBroker_Ok)
next
  case (stepped s lv' b')
  then show ?case using broker_step_ready [of E "fst s" "snd s" lv' b'] by simp
qed

end
