(* ===== verification/Broker_Data.thy ===== *)
theory Broker_Data
  imports Broker_Handlers
begin

text \<open>
  The data path of a broker: what producing to and fetching from a partition it leads does to the
  log of the partition, on top of the correctness of the log itself.
\<close>

lemma error_codes [simp]:
  "Error_Code ErrUnknown = - 1" "Error_Code ErrNone = 0" "Error_Code ErrUnknownTopicOrPartition = 3"
  "Error_Code ErrNotLeaderForPartition = 6" "Error_Code ErrRequestTimedOut = 7" "Error_Code ErrReplicaNotAvailable = 9"
  "Error_Code ErrIllegalGeneration = 22" "Error_Code ErrInvalidGroupId = 24" "Error_Code ErrUnknownMemberId = 25"
  "Error_Code ErrRebalanceInProgress = 27" "Error_Code ErrTopicAlreadyExists = 36"
  by (simp_all add: Error_Code_def error_defs)

section \<open>Copying a log\<close>

abbreviation reader_ok :: "CommitLog \<Rightarrow> Reader \<Rightarrow> bool" where
  "reader_ok l rd \<equiv> (\<forall>s\<in>set (cl_segments l). \<not> seg_closed s) \<and> rd_idx rd < length (cl_segments l)"

abbreviation rest :: "CommitLog \<Rightarrow> Reader \<Rightarrow> bytes" where
  "rest l rd \<equiv> stream (cl_segments l) (rd_idx rd) (rd_pos rd)"

lemma Reader_Read_rest:
  assumes "reader_ok l rd"
  shows "\<exists>rd'. Reader_Read rd n l = Ok (take n (rest l rd), if length (rest l rd) < n then Some EOF else None, rd') \<and>
    reader_ok l rd' \<and> rest l rd' = drop n (rest l rd)"
  using read_loop_stream [of "cl_segments l" "rd_idx rd" "rd_pos rd" n] assms by (auto simp: Reader_Read_def)

text \<open>The copy ends, since every read takes something, and takes all that is left.\<close>

lemma ReadFrom_rest:
  assumes "reader_ok l rd" and "\<forall>k. 0 < chunk k"
  shows "\<exists>rd'. ReadFrom chunk l buf rd = Some (Ok (buf @ rest l rd, rd')) \<and> reader_ok l rd' \<and> rest l rd' = []"
  using assms(1)
proof (induction "length (rest l rd)" arbitrary: buf rd rule: less_induct)
  case less
  let ?n = "chunk (length buf)"
  obtain rd' where rd': "Reader_Read rd ?n l = Ok (take ?n (rest l rd), if length (rest l rd) < ?n then Some EOF else None, rd')"
      "reader_ok l rd'" "rest l rd' = drop ?n (rest l rd)"
    using Reader_Read_rest [OF less.prems, of ?n] by blast
  show ?case
  proof (cases "length (rest l rd) < ?n")
    case True
    with rd' show ?thesis by (subst ReadFrom.simps) simp
  next
    case False
    then have "length (rest l rd') < length (rest l rd)" using rd'(3) assms(2) [rule_format, of "length buf"] by simp
    from less.hyps [OF this rd'(2), of "buf @ take ?n (rest l rd)"] False rd' show ?thesis
      by (subst ReadFrom.simps) (auto simp: append_assoc)
  qed
qed

lemma fetch_loop_enough:
  assumes "reader_ok l rd" and "\<forall>k. 0 < chunk k" and "length (rest l rd) < 2 ^ 31" and "sint m \<le> int (length (rest l rd))"
  shows "fetch_loop chunk l m None 0 rd = Some (Ok (if 0 < sint m then Some (rest l rd) else None))"
proof -
  obtain rd' where "ReadFrom chunk l [] rd = Some (Ok (rest l rd, rd'))"
    using ReadFrom_rest [where chunk = chunk and buf = "[]", OF assms(1,2)] by auto
  moreover have "sint (word_of_nat (length (rest l rd)) :: int32) = int (length (rest l rd))"
    using assms(3) sint_word_of_int_32 [of "int (length (rest l rd))"] by simp
  ultimately show ?thesis
    using assms(4) by (subst fetch_loop.simps, simp) (subst fetch_loop.simps, simp)
qed

text \<open>At the end of the log, and still short of the bytes asked for, the loop goes on forever.\<close>

lemma fetch_loop_stuck:
  assumes "fetch_loop chunk l m buf n rd = Some r" and "\<forall>k. 0 < chunk k" and "reader_ok l rd" and "rest l rd = []"
  shows "\<not> sint n < sint m"
proof -
  have "(\<forall>k. 0 < chunk k) \<longrightarrow> reader_ok l rd \<longrightarrow> rest l rd = [] \<longrightarrow> \<not> sint n < sint m"
    using assms(1)
  proof (rule fetch_loop.raw_induct [rotated])
    fix self chunk l m buf n rd r
    assume IH: "\<And>chunk l m buf n rd r. self chunk l m buf n rd = Some r \<Longrightarrow>
        (\<forall>k. 0 < chunk k) \<longrightarrow> reader_ok l rd \<longrightarrow> rest l rd = [] \<longrightarrow> \<not> sint n < sint m"
      and eq: "(if \<not> sint n < sint m then Some (Ok buf)
        else case ReadFrom chunk l (buffer_bytes buf) rd of None \<Rightarrow> None
          | Some Panic \<Rightarrow> Some Panic | Some (Err e) \<Rightarrow> Some (Err e)
          | Some (Ok (buf', rd)) \<Rightarrow>
              self chunk l m (Some buf') (n + word_of_nat (length buf' - length (buffer_bytes buf))) rd) = Some r"
    show "(\<forall>k. 0 < chunk k) \<longrightarrow> reader_ok l rd \<longrightarrow> rest l rd = [] \<longrightarrow> \<not> sint n < sint m"
    proof (intro impI notI)
      assume chunk: "\<forall>k. 0 < chunk k" and rd: "reader_ok l rd" "rest l rd = []" and less: "sint n < sint m"
      obtain rd' where "ReadFrom chunk l (buffer_bytes buf) rd = Some (Ok (buffer_bytes buf, rd'))" "reader_ok l rd'" "rest l rd' = []"
        using ReadFrom_rest [OF rd(1), of chunk "buffer_bytes buf"] chunk rd(2) by auto
      with eq less IH [of chunk l m "Some (buffer_bytes buf)" n rd' r] chunk show False by simp
    qed
  qed
  with assms show ?thesis by blast
qed

text \<open>The loop of a fetch ends exactly when the log holds as many bytes, from where it reads, as the request asks for.\<close>

lemma fetch_loop_ends_iff:
  assumes "reader_ok l rd" and "\<forall>k. 0 < chunk k" and "length (rest l rd) < 2 ^ 31"
  shows "(\<exists>r. fetch_loop chunk l m None 0 rd = Some r) \<longleftrightarrow> sint m \<le> int (length (rest l rd))"
proof
  assume "\<exists>r. fetch_loop chunk l m None 0 rd = Some r"
  then obtain r where r: "fetch_loop chunk l m None 0 rd = Some r" ..
  show "sint m \<le> int (length (rest l rd))"
  proof (cases "0 < sint m")
    case True
    obtain rd' where rd': "ReadFrom chunk l [] rd = Some (Ok (rest l rd, rd'))" "reader_ok l rd'" "rest l rd' = []"
      using ReadFrom_rest [where chunk = chunk and buf = "[]", OF assms(1,2)] by auto
    from r True rd'(1) have "fetch_loop chunk l m (Some (rest l rd)) (word_of_nat (length (rest l rd))) rd' = Some r"
      by (subst (asm) fetch_loop.simps) simp
    from fetch_loop_stuck [OF this assms(2) rd'(2,3)] show ?thesis
      using assms(3) sint_word_of_int_32 [of "int (length (rest l rd))"] by simp
  qed simp
next
  assume "sint m \<le> int (length (rest l rd))"
  from fetch_loop_enough [OF assms this] show "\<exists>r. fetch_loop chunk l m None 0 rd = Some r" by blast
qed

lemma stamp_length: "valid_set b \<Longrightarrow> length (stamp off b) = length b"
  by (simp add: stamp_def valid_set_def)

lemma map_length_stamps: "\<forall>b\<in>set bs. valid_set b \<Longrightarrow> map length (stamps off bs) = map length bs"
  by (induction off bs rule: stamps.induct) (simp_all add: stamp_length)

lemma stamps_lengths:
  "\<forall>b\<in>set bs. valid_set b \<Longrightarrow> length (concat (drop j (stamps off bs))) = length (concat (drop j bs))"
  by (simp add: length_concat map_length_stamps flip: drop_map)

lemma length_concat_ge_length: "\<forall>b\<in>set bs. b \<noteq> [] \<Longrightarrow> length bs \<le> length (concat bs)"
  by (induction bs) (auto simp: Suc_le_eq add_strict_increasing)

lemma length_concat_drop_mono:
  assumes "j \<le> k"
  shows "length (concat (drop k bs)) \<le> length (concat (drop j bs))"
proof -
  have "drop j bs = take (k - j) (drop j bs) @ drop k bs"
    using assms append_take_drop_id [of "k - j" "drop j bs"] by simp
  then show ?thesis by (metis concat_append le_add2 length_append)
qed

section \<open>Partitions a broker leads\<close>

text \<open>
  The broker knows the topic and leads the partition, and the log of the partition is in good order,
  holds the records \<open>rss\<close>, segment by segment, and keeps everything.
\<close>

definition leads :: "('db, 'r) env \<Rightarrow> ('db, 'r) broker \<Rightarrow> string \<Rightarrow> int32 \<Rightarrow> CommitLog \<Rightarrow> bytes list list \<Rightarrow> bool" where
  "leads E b t i l rss \<longleftrightarrow> (\<exists>idx tp. GetTopic (en_memdb E) (broker_state b) t = Ok (idx, Some tp)) \<and>
     (\<exists>rp. LookupReplica t i (bk_replicaLookup b) = Ok rp \<and> replica_key rp = (t, i) \<and>
        pt_Leader (rp_Partition rp) = broker_ID b \<and> rp_Log rp = Some l) \<and>
     log_repr l rss \<and> log_limits l \<and> cl_cleaner l = DeleteCleaner (- 1)"

lemma LookupReplica_AddReplica:
  "LookupReplica t i (AddReplica rp rl) = (if replica_key rp = (t, i) then Ok rp else LookupReplica t i rl)"
  using replica_table.find_add [of rp rl "(t, i)"] by (auto simp: LookupReplica_def)

text \<open>Work that is done in time does not depend on the other turns of the loop.\<close>

definition in_time :: "('db, 'r) env \<Rightarrow> duration \<Rightarrow> work \<Rightarrow> ('db, 'r) broker \<Rightarrow> ((Error \<times> patch) \<times> ('db, 'r) broker) run" where
  "in_time E d w b = withTimeout E InTime d w (\<lambda>_ _. w) b"

lemma withTimeout_InTime: "withTimeout E InTime d w others b = in_time E d w b"
  by (simp add: in_time_def withTimeout_def)

lemma in_time_Returns: "run_work E w b = Returns ((ErrNone, pch), b') \<Longrightarrow> in_time E d w b = Returns ((ErrNone, pch), b')"
  by (simp add: in_time_def withTimeout_def)

subsection \<open>Producing\<close>

lemma newest_nonneg: "log_repr l rss \<Longrightarrow> 0 \<le> sint (NewestOffset l)"
  using last_ok [of l rss] seg_next [of "activeSegment l" "last rss"]
  by (simp add: NewestOffset_def seg_ok_def seg_repr_def)

lemma produce_to_leads:
  assumes "leads E b t i l rss" and "valid_set rs" and "sint (NewestOffset l) + 1 < 2 ^ 63"
  shows "\<exists>b' l' rss'. produce_to E t \<lparr>data_Partition = i, data_RecordSet = Some rs\<rparr> b =
      Returns ((ErrNone, ProducePatch (NewestOffset l) (en_now E)), b') \<and>
    leads E b' t i l' rss' \<and> concat rss' = concat rss @ [stamp (NewestOffset l) rs] \<and>
    NewestOffset l' = NewestOffset l + 1"
proof -
  obtain idx tp rp where topic: "GetTopic (en_memdb E) (broker_state b) t = Ok (idx, Some tp)"
    and rp: "LookupReplica t i (bk_replicaLookup b) = Ok rp" "replica_key rp = (t, i)"
      "pt_Leader (rp_Partition rp) = broker_ID b" "rp_Log rp = Some l"
    and l: "log_repr l rss" "log_limits l" "cl_cleaner l = DeleteCleaner (- 1)"
    using assms(1) by (auto simp: leads_def)
  obtain l' rss' where l': "Append (en_hash E) rs l = Some (Ok (NewestOffset l, l'))" "log_repr l' rss'" "log_limits l'"
      "concat rss' = concat rss @ [stamp (NewestOffset l) rs]" "NewestOffset l' = NewestOffset l + 1" "cl_cleaner l' = cl_cleaner l"
    using Append_delete [OF l(1,2) assms(2) l(3) assms(3), of "en_hash E"] PutOffset_stamp [OF assms(2), of "NewestOffset l"] by auto
  let ?rp = "rp\<lparr>rp_Log := Some l'\<rparr>"
  let ?b = "b\<lparr>bk_replicaLookup := AddReplica ?rp (bk_replicaLookup b)\<rparr>"
  have "leads E ?b t i l' rss'"
    unfolding leads_def using topic rp l l' by (simp add: LookupReplica_AddReplica)
  with topic rp l' show ?thesis by (auto simp: produce_to_def)
qed

lemma produce_all_leads:
  assumes "leads E b t i l rss" and "\<forall>rs\<in>set bs. valid_set rs" and "sint (NewestOffset l) + int (length bs) < 2 ^ 63"
  shows "\<exists>b' l' rss'. for_range (\<lambda>j p b. run_bind (in_time E d (ProduceWork t p) b) (\<lambda>(err, pch) b.
      Returns (produce_response (data_Partition p) err pch, b))) k (map (\<lambda>rs. \<lparr>data_Partition = i, data_RecordSet = Some rs\<rparr>) bs) b =
      Returns (map (\<lambda>off. produce_response i ErrNone (ProducePatch off (en_now E))) (offsets_from (NewestOffset l) (length bs)), b') \<and>
    leads E b' t i l' rss' \<and> concat rss' = concat rss @ stamps (NewestOffset l) bs \<and>
    NewestOffset l' = NewestOffset l + word_of_nat (length bs)"
  using assms(1-3)
proof (induction bs arbitrary: b l rss k)
  case (Cons rs bs)
  have nonneg: "0 \<le> sint (NewestOffset l)" using Cons.prems(1) newest_nonneg by (auto simp: leads_def)
  then have next': "sint (NewestOffset l + 1) = sint (NewestOffset l) + 1"
    using Cons.prems(3) by (intro sint_Suc_64) auto
  obtain b1 l1 rss1 where 1: "produce_to E t \<lparr>data_Partition = i, data_RecordSet = Some rs\<rparr> b =
      Returns ((ErrNone, ProducePatch (NewestOffset l) (en_now E)), b1)"
    "leads E b1 t i l1 rss1" "concat rss1 = concat rss @ [stamp (NewestOffset l) rs]" "NewestOffset l1 = NewestOffset l + 1"
    using produce_to_leads [OF Cons.prems(1), of rs] Cons.prems(2,3) by auto
  from Cons.IH [OF 1(2), of "Suc k"] Cons.prems(2,3) 1(4) next' obtain b' l' rss' where
    "for_range (\<lambda>j p b. run_bind (in_time E d (ProduceWork t p) b) (\<lambda>(err, pch) b.
      Returns (produce_response (data_Partition p) err pch, b))) (Suc k) (map (\<lambda>rs. \<lparr>data_Partition = i, data_RecordSet = Some rs\<rparr>) bs) b1 =
      Returns (map (\<lambda>off. produce_response i ErrNone (ProducePatch off (en_now E))) (offsets_from (NewestOffset l1) (length bs)), b')"
    "leads E b' t i l' rss'" "concat rss' = concat rss1 @ stamps (NewestOffset l1) bs"
    "NewestOffset l' = NewestOffset l1 + word_of_nat (length bs)" by auto
  with 1 in_time_Returns [of E "ProduceWork t \<lparr>data_Partition = i, data_RecordSet = Some rs\<rparr>" b] show ?case
    by (intro exI [of _ b'] exI [of _ l'] exI [of _ rss']) (simp add: add.assoc)
qed auto

text \<open>A request that sends sets to one partition, and the answer of a broker that stored them.\<close>

definition one_produce :: "int16 \<Rightarrow> duration \<Rightarrow> string \<Rightarrow> int32 \<Rightarrow> bytes list \<Rightarrow> ProduceRequest" where
  "one_produce v d t i bs = \<lparr>preq_APIVersion = v, preq_TransactionalID = None, preq_Acks = 1, preq_Timeout = d,
     preq_TopicData = [\<lparr>td_Topic = t, td_Data = map (\<lambda>rs. \<lparr>data_Partition = i, data_RecordSet = Some rs\<rparr>) bs\<rparr>]\<rparr>"

definition produced :: "int16 \<Rightarrow> go_time \<Rightarrow> string \<Rightarrow> int32 \<Rightarrow> int64 list \<Rightarrow> ProduceResponse" where
  "produced v now t i offs = \<lparr>pres_APIVersion = v,
     pres_Responses = [\<lparr>ptr_Topic = t, ptr_PartitionResponses = map (\<lambda>off.
       \<lparr>ppr_Partition = i, ppr_ErrorCode = 0, ppr_BaseOffset = off, ppr_LogAppendTime = now, ppr_LogStartOffset = 0\<rparr>) offs\<rparr>],
     pres_ThrottleTime = 0\<rparr>"

lemma handleProduce_leads:
  assumes "leads E b t i l rss" and "\<forall>rs\<in>set bs. valid_set rs" and "sint (NewestOffset l) + int (length bs) < 2 ^ 63"
    and "\<forall>j k. tm j k = InTime"
  shows "\<exists>b' l' rss'. handleProduce E tm (one_produce v d t i bs) b =
      Returns (produced v (en_now E) t i (offsets_from (NewestOffset l) (length bs)), b') \<and>
    leads E b' t i l' rss' \<and> concat rss' = concat rss @ stamps (NewestOffset l) bs \<and>
    NewestOffset l' = NewestOffset l + word_of_nat (length bs)"
proof -
  obtain b' l' rss' where b': "for_range (\<lambda>j p b. run_bind (in_time E d (ProduceWork t p) b)
      (\<lambda>(err, pch) b. Returns (produce_response (data_Partition p) err pch, b))) 0
      (map (\<lambda>rs. \<lparr>data_Partition = i, data_RecordSet = Some rs\<rparr>) bs) b =
      Returns (map (\<lambda>off. produce_response i ErrNone (ProducePatch off (en_now E))) (offsets_from (NewestOffset l) (length bs)), b')"
    "leads E b' t i l' rss'" "concat rss' = concat rss @ stamps (NewestOffset l) bs"
    "NewestOffset l' = NewestOffset l + word_of_nat (length bs)"
    using produce_all_leads [OF assms(1-3), where d = d and k = 0] by blast
  have "handleProduce E tm (one_produce v d t i bs) b =
      Returns (produced v (en_now E) t i (offsets_from (NewestOffset l) (length bs)), b')"
    by (simp add: handleProduce_def one_produce_def assms(4) withTimeout_InTime b'(1))
      (simp add: produced_def produce_response_def)
  with b'(2-4) show ?thesis by blast
qed

subsection \<open>Fetching\<close>

definition one_fetch :: "int16 \<Rightarrow> duration \<Rightarrow> int32 \<Rightarrow> string \<Rightarrow> int32 \<Rightarrow> int64 \<Rightarrow> FetchRequest" where
  "one_fetch v d m t i off = \<lparr>freq_APIVersion = v, freq_ReplicaID = - 1, freq_MaxWaitTime = d, freq_MinBytes = m,
     freq_MaxBytes = 0, freq_IsolationLevel = 0,
     freq_Topics = [\<lparr>ft_Topic = t, ft_Partitions = [\<lparr>fp_Partition = i, fp_FetchOffset = off, fp_MaxBytes = 0\<rparr>]\<rparr>]\<rparr>"

definition fetched :: "int16 \<Rightarrow> string \<Rightarrow> int32 \<Rightarrow> int16 \<Rightarrow> int64 \<Rightarrow> bytes option \<Rightarrow> FetchResponse" where
  "fetched v t i code hw data = \<lparr>fres_APIVersion = v, fres_ThrottleTime = 0, fres_Responses = [\<lparr>ftr_Topic = t,
     ftr_PartitionResponses = [\<lparr>fpr_Partition = i, fpr_ErrorCode = code, fpr_HighWatermark = hw, fpr_LastStableOffset = 0,
       fpr_AbortedTransactions = [], fpr_RecordSet = data\<rparr>]\<rparr>]\<rparr>"

text \<open>A fetch reads from a record at or before its offset to the end of the log, or waits for ever.\<close>

lemma fetch_from_leads:
  assumes "leads E b t i l rss" and "k < length (concat rss)"
    and "off = seg_BaseOffset (cl_segments l ! 0) + word_of_nat k"
    and "\<forall>n. 0 < en_chunk E n" and "length (concat (concat rss)) < 2 ^ 31"
  shows "\<exists>k'\<le>k. let data = concat (drop k' (concat rss)) in
    fetch_from E m t \<lparr>fp_Partition = i, fp_FetchOffset = off, fp_MaxBytes = mb\<rparr> b =
     (if sint m \<le> int (length data)
      then Returns (ErrNone, FetchPatch (NewestOffset l - 1) (if 0 < sint m then Some data else None))
      else Hangs)"
proof -
  obtain rp where rp: "LookupReplica t i (bk_replicaLookup b) = Ok rp" "pt_Leader (rp_Partition rp) = broker_ID b"
      "rp_Log rp = Some l" and l: "log_repr l rss"
    using assms(1) by (auto simp: leads_def)
  obtain rd k' where rd: "NewReader off l = Ok rd" "rd_idx rd < length (cl_segments l)" "k' \<le> k"
      "rest l rd = concat (drop k' (concat rss))"
    using NewReader_stream [OF l assms(2,3)] by blast
  have ok: "reader_ok l rd" using rd(2) l all_open by (auto simp: log_repr_def)
  have "length (concat (concat rss)) = length (concat (take k' (concat rss))) + length (rest l rd)"
    unfolding rd(4) by (metis append_take_drop_id concat_append length_append)
  then have short: "length (rest l rd) < 2 ^ 31" using assms(5) by simp
  have "fetch_loop (en_chunk E) l m None 0 rd =
      (if sint m \<le> int (length (rest l rd)) then Some (Ok (if 0 < sint m then Some (rest l rd) else None)) else None)"
    using fetch_loop_enough [OF ok assms(4) short] fetch_loop_ends_iff [OF ok assms(4) short, of m]
    by (cases "fetch_loop (en_chunk E) l m None 0 rd") auto
  with rp rd show ?thesis by (intro exI [of _ k']) (simp add: fetch_from_def Let_def)
qed

lemma leads_behind [simp]: "leads E (leave_behind g b) t i l rss = leads E b t i l rss"
  by (simp add: leads_def leave_behind_def)

lemma fetch_from_behind [simp]: "fetch_from E m t p (leave_behind g b) = fetch_from E m t p b"
  by (simp add: fetch_from_def leave_behind_def split: outcome.split)

lemma handleFetch_and_left_behind:
  assumes "leads E b t i l rss" and "k < length (concat rss)"
    and "off = seg_BaseOffset (cl_segments l ! 0) + word_of_nat k"
    and "\<forall>n. 0 < en_chunk E n" and "length (concat (concat rss)) < 2 ^ 31" and "\<forall>j k. tm j k = InTime"
  shows "\<exists>k'\<le>k. let data = concat (drop k' (concat rss)); p = \<lparr>fp_Partition = i, fp_FetchOffset = off, fp_MaxBytes = 0\<rparr>;
      work = (if sint m \<le> int (length data)
        then Returns (ErrNone, FetchPatch (NewestOffset l - 1) (if 0 < sint m then Some data else None)) else Hangs) in
    fetch_from E m t p b = work \<and>
    handleFetch E tm (one_fetch v d m t i off) b =
     (if sint m \<le> int (length data)
      then Returns (fetched v t i 0 (NewestOffset l - 1) (if 0 < sint m then Some data else None), b)
      else if sint d \<le> 0 then Returns (fetched v t i 0 0 None, leave_behind (Spawned (FetchWork m t p)) b)
      else Returns (fetched v t i 7 0 None, leave_behind (Overdue (FetchWork m t p)) b))"
proof -
  from fetch_from_leads [OF assms(1-5), of m 0] obtain k' where "k' \<le> k" and
    fetch: "fetch_from E m t \<lparr>fp_Partition = i, fp_FetchOffset = off, fp_MaxBytes = 0\<rparr> b =
     (if sint m \<le> int (length (concat (drop k' (concat rss))))
      then Returns (ErrNone, FetchPatch (NewestOffset l - 1) (if 0 < sint m then Some (concat (drop k' (concat rss))) else None))
      else Hangs)"
    by (auto simp: Let_def)
  then show ?thesis
    using assms(6)
    by (intro exI [of _ k'])
      (simp add: handleFetch_def one_fetch_def fetched_def fetch_response_def withTimeout_def fetch Let_def)
qed

lemma handleFetch_leads:
  assumes "leads E b t i l rss" and "k < length (concat rss)"
    and "off = seg_BaseOffset (cl_segments l ! 0) + word_of_nat k"
    and "\<forall>n. 0 < en_chunk E n" and "length (concat (concat rss)) < 2 ^ 31" and "\<forall>j k. tm j k = InTime"
  shows "\<exists>k'\<le>k. let data = concat (drop k' (concat rss)); p = \<lparr>fp_Partition = i, fp_FetchOffset = off, fp_MaxBytes = 0\<rparr> in
    handleFetch E tm (one_fetch v d m t i off) b =
     (if sint m \<le> int (length data)
      then Returns (fetched v t i 0 (NewestOffset l - 1) (if 0 < sint m then Some data else None), b)
      else if sint d \<le> 0 then Returns (fetched v t i 0 0 None, leave_behind (Spawned (FetchWork m t p)) b)
      else Returns (fetched v t i 7 0 None, leave_behind (Overdue (FetchWork m t p)) b))"
  using handleFetch_and_left_behind [OF assms, of m v d] by (auto simp: Let_def)

subsection \<open>Replicating\<close>

lemma first_record:
  assumes "log_repr l rss" and "concat rss \<noteq> []"
  shows "is_record (seg_BaseOffset (cl_segments l ! 0)) (hd (concat rss))"
proof -
  obtain rs rss' where rss: "rss = rs # rss'" using log_repr_lengths [OF assms(1)] by (cases rss) auto
  have "rs \<noteq> []" using assms rss by (cases rss') (auto simp: log_repr_def)
  moreover have "seg_repr (cl_segments l ! 0) rs" using log_repr_nth [OF assms(1), of 0] rss by (simp add: seg_ok_def)
  ultimately have "is_record (seg_BaseOffset (cl_segments l ! 0)) (rs ! 0)" unfolding seg_repr_def by force
  with \<open>rs \<noteq> []\<close> rss show ?thesis by (simp add: hd_conv_nth nth_append)
qed

text \<open>What a whole log starts with is the offset of its first record.\<close>

lemma leading_offset_log:
  assumes "log_repr l rss" and "concat rss \<noteq> []"
  shows "leading_offset behind (concat (concat rss)) = Some (seg_BaseOffset (cl_segments l ! 0))"
    "12 \<le> length (concat (concat rss))"
proof -
  obtain x xs where x: "concat rss = x # xs" using assms(2) by (cases "concat rss") auto
  then have r: "is_record (seg_BaseOffset (cl_segments l ! 0)) x" using first_record [OF assms] by simp
  then show "12 \<le> length (concat (concat rss))" using x by (simp add: is_record_def)
  show "leading_offset behind (concat (concat rss)) = Some (seg_BaseOffset (cl_segments l ! 0))"
    using r x by (auto simp: leading_offset_def is_record_def MessageSet_Offset_def Uint64_def split: if_splits)
qed

lemma fetch_request_answer:
  assumes "leads E b t i l rss" and "concat rss \<noteq> []" and "seg_BaseOffset (cl_segments l ! 0) = 0"
    and "\<forall>n. 0 < en_chunk E n" and "length (concat (concat rss)) < 2 ^ 31" and "replica_key rp = (t, i)"
    and "r = Replicate (NewReplicator \<lparr>rc_MinBytes = 0, rc_MaxWaitTime = 0\<rparr> addr)"
  shows "\<exists>res b'. handleFetch E tm (fetch_request rp r) b = Returns (res, b') \<and> leads E b' t i l rss \<and>
    (res = fetched 0 t i 0 (NewestOffset l - 1) (Some (concat (concat rss))) \<or> res = fetched 0 t i 0 0 None)"
proof -
  let ?p = "\<lparr>fp_Partition = i, fp_FetchOffset = 0, fp_MaxBytes = 0\<rparr>"
  have l: "log_repr l rss" using assms(1) by (simp add: leads_def)
  have len: "12 \<le> length (concat (concat rss))" using leading_offset_log(2) [OF l assms(2)] .
  have "fetch_from E 1 t ?p b = Returns (ErrNone, FetchPatch (NewestOffset l - 1) (Some (concat (concat rss))))"
    using fetch_from_leads [OF assms(1) _ _ assms(4,5), of 0 0 1 0] assms(2,3) len by (auto simp: Let_def)
  moreover have req: "fetch_request rp r = \<lparr>freq_APIVersion = 0, freq_ReplicaID = rp_BrokerID rp, freq_MaxWaitTime = 0,
      freq_MinBytes = 1, freq_MaxBytes = 0, freq_IsolationLevel = 0, freq_Topics = [\<lparr>ft_Topic = t, ft_Partitions = [?p]\<rparr>]\<rparr>"
    using assms(6) by (simp add: fetch_request_def assms(7) Replicate_def NewReplicator_def)
  ultimately show ?thesis
    using assms(1)
    by (cases "tm 0 0")
      (auto simp: handleFetch_def req withTimeout_def fetched_def fetch_response_def)
qed

end
