(* ===== verification/Broker_Topics.thy ===== *)
theory Broker_Topics
  imports Broker_Correct Broker_Data
begin

text \<open>
  Creating a topic: the commands that register it and its partitions, and the replicas that start
  when the brokers are told.
\<close>

section \<open>Commands that get through\<close>

text \<open>Raft commits whatever is applied, and the codec knows the request.\<close>

definition raft_serves :: "('db, 'r) env \<Rightarrow> bool" where
  "raft_serves E \<longleftrightarrow> (\<forall>r buf. \<exists>idx r'. raft_Apply (en_raft E) r buf = (Ok idx, r'))"

definition encodable :: "('db, 'r) env \<Rightarrow> request \<Rightarrow> bool" where
  "encodable E msg \<longleftrightarrow> (\<exists>buf. mp_Encode (en_codec E) msg = Ok buf)"

lemma raftApply_served:
  assumes "fsm_ok (en_memdb E) V (bk_fsm b)" and "msgpack_ok (en_codec E)" and "codable msg" and "acceptable msg"
    and "raft_serves E" and "encodable E msg"
  shows "\<exists>r c idx. raftApply E msg b = Returns (None, b\<lparr>bk_raft := r, bk_fsm := c\<rparr>) \<and> fsm_ok (en_memdb E) V c \<and>
    fsm_catalog V c = spec_apply (db_lower V) idx msg (fsm_catalog V (bk_fsm b))"
proof -
  obtain buf where buf: "structs_Encode (en_codec E) (request_type msg) msg = Ok buf"
    using assms(6) by (auto simp: encodable_def structs_Encode_def)
  obtain idx r where r: "raft_Apply (en_raft E) (bk_raft b) buf = (Ok idx, r)"
    using assms(5) unfolding raft_serves_def by blast
  obtain c where "FSM_Apply (en_memdb E) (en_codec E) (bk_fsm b) buf idx = Ok c" "fsm_ok (en_memdb E) V c"
      "fsm_catalog V c = spec_apply (db_lower V) idx msg (fsm_catalog V (bk_fsm b))"
    using FSM_Apply_step [OF assms(1-3) buf, of idx] assms(4) by auto
  with buf r show ?thesis by (intro exI [of _ r] exI [of _ c] exI [of _ idx]) (simp add: raftApply_def)
qed

abbreviation part_key :: "structs_Partition \<Rightarrow> string \<times> int32" where
  "part_key p \<equiv> (pt_Topic p, pt_Partition p)"

lemma create_partitions_served:
  assumes "fsm_ok (en_memdb E) V (bk_fsm b)" and "msgpack_ok (en_codec E)" and "raft_serves E"
    and "\<forall>p\<in>set ps. encodable E (RegisterPartitionRequest p) \<and> pt_Topic p \<noteq> []" and "distinct (map part_key ps)"
  shows "\<exists>r c. create_partitions E ps b = Returns (None, b\<lparr>bk_raft := r, bk_fsm := c\<rparr>) \<and> fsm_ok (en_memdb E) V c \<and>
    cat_topics (fsm_catalog V c) = cat_topics (fsm_catalog V (bk_fsm b)) \<and>
    (\<forall>k. k \<notin> part_key ` set ps \<longrightarrow> cat_partitions (fsm_catalog V c) k = cat_partitions (fsm_catalog V (bk_fsm b)) k) \<and>
    (\<forall>p\<in>set ps. \<exists>ri. cat_partitions (fsm_catalog V c) (part_key p) = Some (p\<lparr>pt_RaftIndex := ri\<rparr>))"
  using assms(1,4,5)
proof (induction ps arbitrary: b)
  case Nil
  then show ?case by (intro exI [of _ "bk_raft b"] exI [of _ "bk_fsm b"]) simp
next
  case (Cons p ps)
  from raftApply_served [OF Cons.prems(1) assms(2) _ _ assms(3), of "RegisterPartitionRequest p"] Cons.prems(2)
  obtain r c idx where c: "raftApply E (RegisterPartitionRequest p) b = Returns (None, b\<lparr>bk_raft := r, bk_fsm := c\<rparr>)"
      "fsm_ok (en_memdb E) V c" "fsm_catalog V c = spec_EnsurePartition idx p (fsm_catalog V (bk_fsm b))"
    by auto
  let ?b = "b\<lparr>bk_raft := r, bk_fsm := c\<rparr>"
  have cats: "cat_topics (fsm_catalog V c) = cat_topics (fsm_catalog V (bk_fsm b))"
      "k \<noteq> part_key p \<Longrightarrow> cat_partitions (fsm_catalog V c) k = cat_partitions (fsm_catalog V (bk_fsm b)) k"
      "\<exists>ri. cat_partitions (fsm_catalog V c) (part_key p) = Some (p\<lparr>pt_RaftIndex := ri\<rparr>)" for k
    by (auto simp: c(3) spec_EnsurePartition_def touch_def)
  from Cons.IH [of ?b] c(2) Cons.prems(2,3) obtain r' c' where
    "create_partitions E ps ?b = Returns (None, ?b\<lparr>bk_raft := r', bk_fsm := c'\<rparr>)" "fsm_ok (en_memdb E) V c'"
    "cat_topics (fsm_catalog V c') = cat_topics (fsm_catalog V c)"
    "\<forall>k. k \<notin> part_key ` set ps \<longrightarrow> cat_partitions (fsm_catalog V c') k = cat_partitions (fsm_catalog V c) k"
    "\<forall>p\<in>set ps. \<exists>ri. cat_partitions (fsm_catalog V c') (part_key p) = Some (p\<lparr>pt_RaftIndex := ri\<rparr>)"
    by auto
  moreover have "part_key p \<notin> part_key ` set ps" using Cons.prems(3) by auto
  ultimately show ?case
    using c(1) cats by (intro exI [of _ r'] exI [of _ c']) (auto simp: createPartition_def)
qed

section \<open>Replicas that start\<close>

definition fresh_log :: "CommitLog \<Rightarrow> bool" where
  "fresh_log l \<longleftrightarrow> log_repr l [[]] \<and> NewestOffset l = 0 \<and> log_limits l \<and> cl_cleaner l = DeleteCleaner (- 1)"

text \<open>The topic is there, with the configuration the store gives it.\<close>

definition knows_topic :: "('db, 'r) env \<Rightarrow> ('db, 'r) broker \<Rightarrow> string \<Rightarrow> bool" where
  "knows_topic E b t \<longleftrightarrow> (\<exists>idx tp. GetTopic (en_memdb E) (broker_state b) t = Ok (idx, Some tp) \<and> tp_Config tp = Some NewTopicConfig)"

lemma startReplica_fresh:
  assumes "knows_topic E b (pt_Topic (rp_Partition rp))" and "rp_Log rp = None" and "\<forall>path. en_files E path = []"
  shows "\<exists>l. startReplica E b rp = Returns (ErrNone, rp\<lparr>rp_Log := Some l\<rparr>) \<and> fresh_log l"
proof -
  let ?path = "replica_path (bk_config b) (pt_ID (rp_Partition rp))"
  have "?path \<noteq> []" by (simp add: replica_path_def)
  from CommitLog_New_fresh [OF this, of "en_cwd E" 1024 "- 1"] obtain l where
    l: "CommitLog_New (en_cwd E) [] ?path 1024 (- 1) [] = Ok l" "fresh_log l"
    by (auto simp: fresh_log_def log_limits_def)
  then have "CommitLog_New (en_cwd E) [] ?path 1024 (- 1) ''delete'' = Ok l" by (simp add: CommitLog_New_def)
  with assms l(2) show ?thesis
    by (auto simp: startReplica_def knows_topic_def cleanup_policy_default)
qed

lemma Truncate_fresh: "fresh_log l \<Longrightarrow> \<exists>l'. Truncate (NewestOffset l) l = Ok l'"
  by (cases "cl_segments l") (auto simp: fresh_log_def log_repr_def seg_ok_def seg_repr_def Truncate_def)

lemma take_role_fresh:
  assumes "knows_topic E b (ps_Topic p)" and "\<forall>path. en_files E path = []"
  shows "\<exists>err rp. take_role E b p (new_replica (broker_ID b) p) = Returns (err, rp) \<and>
    replica_key rp = (ps_Topic p, ps_Partition p) \<and>
    (ps_Leader p = broker_ID b \<longrightarrow> err = ErrNone \<and> pt_Leader (rp_Partition rp) = broker_ID b \<and>
      (\<exists>l. rp_Log rp = Some l \<and> fresh_log l))"
proof -
  let ?rp = "new_replica (broker_ID b) p"
  obtain l where l: "startReplica E b ?rp = Returns (ErrNone, ?rp\<lparr>rp_Log := Some l\<rparr>)" "fresh_log l"
    using startReplica_fresh [of E b ?rp] assms by (auto simp: new_replica_def)
  obtain l' where l': "Truncate (NewestOffset l) l = Ok l'" using Truncate_fresh [OF l(2)] ..
  show ?thesis
  proof (cases "ps_Leader p = broker_ID b")
    case True
    with l show ?thesis
      by (simp add: take_role_def becomeLeader_def close_replicator_def new_replica_def)
  next
    case False
    with l l' show ?thesis
      by (auto simp: take_role_def becomeFollower_def close_replicator_def new_replica_def Let_def
          split: option.split)
  qed
qed

lemma handleLeaderAndISR_loop:
  assumes "\<forall>p\<in>set ps. knows_topic E b (ps_Topic p)" and "\<forall>path. en_files E path = []"
    and "distinct (map (\<lambda>p. (ps_Topic p, ps_Partition p)) ps)"
  shows "\<exists>ys rl'. for_range (\<lambda>i p b.
        let replica = new_replica (broker_ID b) p;
            b = b\<lparr>bk_replicaLookup := AddReplica replica (bk_replicaLookup b)\<rparr> in
        case take_role E b p replica of
          Panics \<Rightarrow> Panics
        | Hangs \<Rightarrow> Hangs
        | Returns (err, replica) \<Rightarrow>
            Returns (\<lparr>lip_Topic = ps_Topic p, lip_Partition = ps_Partition p, lip_ErrorCode = Error_Code err\<rparr>,
              b\<lparr>bk_replicaLookup := AddReplica replica (bk_replicaLookup b)\<rparr>)) n ps (b\<lparr>bk_replicaLookup := rl\<rparr>) =
      Returns (ys, b\<lparr>bk_replicaLookup := rl'\<rparr>) \<and>
    (\<forall>k. k \<notin> (\<lambda>p. (ps_Topic p, ps_Partition p)) ` set ps \<longrightarrow> replica_at rl' k = replica_at rl k) \<and>
    (\<forall>p\<in>set ps. ps_Leader p = broker_ID b \<longrightarrow> (\<exists>rp l. replica_at rl' (ps_Topic p, ps_Partition p) = Some rp \<and>
       replica_key rp = (ps_Topic p, ps_Partition p) \<and> pt_Leader (rp_Partition rp) = broker_ID b \<and>
       rp_Log rp = Some l \<and> fresh_log l))"
    (is "\<exists>ys rl'. for_range ?f n ps _ = _ \<and> _")
  using assms(1,3)
proof (induction ps arbitrary: rl n)
  case (Cons p ps)
  let ?b = "b\<lparr>bk_replicaLookup := AddReplica (new_replica (broker_ID b) p) rl\<rparr>"
  have "knows_topic E ?b (ps_Topic p)" using Cons.prems(1) by (simp add: knows_topic_def)
  from take_role_fresh [OF this assms(2)] obtain err rp where rp:
    "take_role E ?b p (new_replica (broker_ID b) p) = Returns (err, rp)" "replica_key rp = (ps_Topic p, ps_Partition p)"
    "ps_Leader p = broker_ID b \<longrightarrow> pt_Leader (rp_Partition rp) = broker_ID b \<and> (\<exists>l. rp_Log rp = Some l \<and> fresh_log l)"
    by auto
  let ?rl = "AddReplica rp (AddReplica (new_replica (broker_ID b) p) rl)"
  have at: "replica_at ?rl k = (if k = (ps_Topic p, ps_Partition p) then Some rp else replica_at rl k)" for k
    using rp(2) replica_table.find_add [of rp _ k] replica_table.find_add [of "new_replica (broker_ID b) p" rl k]
    by (simp add: new_replica_def)
  obtain ys rl' where rl': "for_range ?f (Suc n) ps (b\<lparr>bk_replicaLookup := ?rl\<rparr>) = Returns (ys, b\<lparr>bk_replicaLookup := rl'\<rparr>)"
    "\<forall>k. k \<notin> (\<lambda>p. (ps_Topic p, ps_Partition p)) ` set ps \<longrightarrow> replica_at rl' k = replica_at ?rl k"
    "\<forall>p\<in>set ps. ps_Leader p = broker_ID b \<longrightarrow> (\<exists>rp l. replica_at rl' (ps_Topic p, ps_Partition p) = Some rp \<and>
       replica_key rp = (ps_Topic p, ps_Partition p) \<and> pt_Leader (rp_Partition rp) = broker_ID b \<and>
       rp_Log rp = Some l \<and> fresh_log l)"
    using Cons.IH [of "Suc n" ?rl] Cons.prems by auto
  have new: "(ps_Topic p, ps_Partition p) \<notin> (\<lambda>p. (ps_Topic p, ps_Partition p)) ` set ps" using Cons.prems(2) by auto
  show ?case
  proof (intro exI conjI)
    show "for_range ?f n (p # ps) (b\<lparr>bk_replicaLookup := rl\<rparr>) =
        Returns (\<lparr>lip_Topic = ps_Topic p, lip_Partition = ps_Partition p, lip_ErrorCode = Error_Code err\<rparr> # ys,
          b\<lparr>bk_replicaLookup := rl'\<rparr>)"
      using rp(1) rl'(1) by simp
    show "\<forall>k. k \<notin> (\<lambda>p. (ps_Topic p, ps_Partition p)) ` set (p # ps) \<longrightarrow> replica_at rl' k = replica_at rl k"
      using rl'(2) at by simp
    show "\<forall>p\<in>set (p # ps). ps_Leader p = broker_ID b \<longrightarrow> (\<exists>rp l. replica_at rl' (ps_Topic p, ps_Partition p) = Some rp \<and>
       replica_key rp = (ps_Topic p, ps_Partition p) \<and> pt_Leader (rp_Partition rp) = broker_ID b \<and>
       rp_Log rp = Some l \<and> fresh_log l)"
      using rl'(2,3) at new rp(2,3) by simp
  qed
qed auto

lemma handleLeaderAndISR_fresh:
  assumes "\<forall>p\<in>set (lireq_PartitionStates req). knows_topic E b (ps_Topic p)" and "\<forall>path. en_files E path = []"
    and "distinct (map (\<lambda>p. (ps_Topic p, ps_Partition p)) (lireq_PartitionStates req))"
  shows "\<exists>res rl'. handleLeaderAndISR E req b = Returns (res, b\<lparr>bk_replicaLookup := rl'\<rparr>) \<and> lires_ErrorCode res = 0 \<and>
    (\<forall>p\<in>set (lireq_PartitionStates req). ps_Leader p = broker_ID b \<longrightarrow>
      (\<exists>l. fresh_log l \<and> leads E (b\<lparr>bk_replicaLookup := rl'\<rparr>) (ps_Topic p) (ps_Partition p) l [[]]))"
proof -
  from handleLeaderAndISR_loop [OF assms, of 0 "bk_replicaLookup b"] obtain ys rl' where
    run: "handleLeaderAndISR E req b = Returns (\<lparr>lires_APIVersion = lireq_APIVersion req, lires_ErrorCode = 0, lires_Partitions = ys\<rparr>,
      b\<lparr>bk_replicaLookup := rl'\<rparr>)"
    and led: "\<forall>p\<in>set (lireq_PartitionStates req). ps_Leader p = broker_ID b \<longrightarrow>
      (\<exists>rp l. replica_at rl' (ps_Topic p, ps_Partition p) = Some rp \<and>
       replica_key rp = (ps_Topic p, ps_Partition p) \<and> pt_Leader (rp_Partition rp) = broker_ID b \<and>
       rp_Log rp = Some l \<and> fresh_log l)"
    by (auto simp: handleLeaderAndISR_def)
  have "\<exists>l. fresh_log l \<and> leads E (b\<lparr>bk_replicaLookup := rl'\<rparr>) (ps_Topic p) (ps_Partition p) l [[]]"
    if p: "p \<in> set (lireq_PartitionStates req)" "ps_Leader p = broker_ID b" for p
  proof -
    obtain rp l where "replica_at rl' (ps_Topic p, ps_Partition p) = Some rp" "replica_key rp = (ps_Topic p, ps_Partition p)"
      "pt_Leader (rp_Partition rp) = broker_ID b" "rp_Log rp = Some l" "fresh_log l"
      using led p by blast
    with assms(1) p(1) show ?thesis
      by (intro exI [of _ l]) (auto simp: leads_def knows_topic_def fresh_log_def LookupReplica_def)
  qed
  with run show ?thesis by auto
qed

text \<open>Whatever the other brokers answer, the broker itself gets through, and only its replicas change.\<close>

lemma tell_brokers_returns:
  assumes "\<forall>p\<in>set (lireq_PartitionStates req). knows_topic E b (ps_Topic p)" and "\<forall>path. en_files E path = []"
    and "distinct (map (\<lambda>p. (ps_Topic p, ps_Partition p)) (lireq_PartitionStates req))"
    and "\<forall>a q. en_LeaderAndISR E a q \<noteq> Panic"
  shows "\<exists>err rl'. tell_brokers E req ms b = Returns (err, b\<lparr>bk_replicaLookup := rl'\<rparr>)"
  using assms(1)
proof (induction ms arbitrary: b)
  case Nil
  then show ?case by (intro exI [of _ ErrNone] exI [of _ "bk_replicaLookup b"]) simp
next
  case (Cons m ms)
  show ?case
  proof (cases "mt_ID m = broker_ID b")
    case True
    obtain res rl' where 1: "handleLeaderAndISR E req b = Returns (res, b\<lparr>bk_replicaLookup := rl'\<rparr>)" "lires_ErrorCode res = 0"
      using handleLeaderAndISR_fresh [OF Cons.prems assms(2,3)] by blast
    have "\<forall>p\<in>set (lireq_PartitionStates req). knows_topic E (b\<lparr>bk_replicaLookup := rl'\<rparr>) (ps_Topic p)"
      using Cons.prems by (simp add: knows_topic_def)
    from Cons.IH [OF this] 1 True show ?thesis by simp
  next
    case False
    have same: "\<exists>rl'. b = b\<lparr>bk_replicaLookup := rl'\<rparr>" by (rule exI [of _ "bk_replicaLookup b"]) simp
    with False Cons.IH [OF Cons.prems] assms(4) show ?thesis
      by (auto split: option.split outcome.split intro: same)
  qed
qed

section \<open>Creating a topic\<close>

lemma createTopic_registers:
  assumes "fsm_ok (en_memdb E) V (bk_fsm b)" and "msgpack_ok (en_codec E)" and "raft_serves E"
    and "cat_topics (fsm_catalog V (bk_fsm b)) (db_lower V (ctr_Topic req)) = None" and "ctr_Topic req \<noteq> []"
    and "buildPartitions E (ctr_Topic req) (ctr_NumPartitions req) (ctr_ReplicationFactor req) b = Ok ps"
    and "encodable E (RegisterTopicRequest (new_topic (ctr_Topic req) False (fold (\<lambda>p. AList.update (pt_ID p) (pt_AR p)) ps [])))"
    and "\<forall>p\<in>set ps. encodable E (RegisterPartitionRequest p) \<and> pt_Topic p = ctr_Topic req" and "distinct (map part_key ps)"
  shows "\<exists>r c. createTopic E req b = tell_brokers E (leader_and_isr (broker_ID b) ps) (Brokers (bk_brokerLookup b))
      (b\<lparr>bk_raft := r, bk_fsm := c\<rparr>) \<and> fsm_ok (en_memdb E) V c \<and> knows_topic E (b\<lparr>bk_raft := r, bk_fsm := c\<rparr>) (ctr_Topic req) \<and>
    (\<forall>p\<in>set ps. \<exists>ri. cat_partitions (fsm_catalog V c) (part_key p) = Some (p\<lparr>pt_RaftIndex := ri\<rparr>))"
proof -
  let ?tt = "new_topic (ctr_Topic req) False (fold (\<lambda>p. AList.update (pt_ID p) (pt_AR p)) ps [])"
  have store: "store_ok (en_memdb E) V (broker_state b)" using assms(1) by (simp add: fsm_ok_def)
  have tt: "codable (RegisterTopicRequest ?tt)" "acceptable (RegisterTopicRequest ?tt)"
    using assms(5) by (simp_all add: new_topic_def)
  obtain r c idx where c: "raftApply E (RegisterTopicRequest ?tt) b = Returns (None, b\<lparr>bk_raft := r, bk_fsm := c\<rparr>)"
      "fsm_ok (en_memdb E) V c" "fsm_catalog V c = spec_EnsureTopic (db_lower V) idx ?tt (fsm_catalog V (bk_fsm b))"
    using raftApply_served [OF assms(1,2) tt assms(3,7)] by auto
  let ?b = "b\<lparr>bk_raft := r, bk_fsm := c\<rparr>"
  obtain r' c' where c': "create_partitions E ps ?b = Returns (None, ?b\<lparr>bk_raft := r', bk_fsm := c'\<rparr>)"
      "fsm_ok (en_memdb E) V c'" "cat_topics (fsm_catalog V c') = cat_topics (fsm_catalog V c)"
      "\<forall>p\<in>set ps. \<exists>ri. cat_partitions (fsm_catalog V c') (part_key p) = Some (p\<lparr>pt_RaftIndex := ri\<rparr>)"
    using create_partitions_served [of E V ?b ps] c(2) assms(2,3,5,8,9) by auto
  have store': "store_ok (en_memdb E) V (fsm_state c')" using c'(2) by (simp add: fsm_ok_def)
  have "\<exists>tp. cat_topics (fsm_catalog V c') (db_lower V (ctr_Topic req)) = Some tp \<and> tp_Config tp = Some NewTopicConfig"
    unfolding c'(3) c(3) by (simp add: spec_EnsureTopic_def touch_def new_topic_def)
  then have "knows_topic E (b\<lparr>bk_raft := r', bk_fsm := c'\<rparr>) (ctr_Topic req)"
    using Get_laws(2) [OF store', of "ctr_Topic req"] by (auto simp: knows_topic_def)
  moreover have "createTopic E req b = tell_brokers E (leader_and_isr (broker_ID b) ps) (Brokers (bk_brokerLookup b))
      (b\<lparr>bk_raft := r', bk_fsm := c'\<rparr>)"
    using Get_laws(2) [OF store, of "ctr_Topic req"] assms(4,6) c(1) c'(1) by (simp add: createTopic_def)
  ultimately show ?thesis using c'(2,4) by blast
qed

text \<open>The partitions of a topic have different numbers.\<close>

lemma distinct_part_keys:
  assumes "\<forall>k<length ps. pt_Partition (ps ! k) = word_of_nat k" and "length ps < 2 ^ 32"
  shows "distinct (map part_key ps)"
proof -
  have "pt_Partition (ps ! j) \<noteq> pt_Partition (ps ! k)" if "j < length ps" "k < length ps" "j \<noteq> k" for j k
  proof
    assume "pt_Partition (ps ! j) = pt_Partition (ps ! k)"
    then have "unat (word_of_nat j :: int32) = unat (word_of_nat k :: int32)" using assms(1) that by simp
    moreover have "unat (word_of_nat i :: int32) = i" if "i < length ps" for i
      using that assms(2) by (simp add: unsigned_of_nat take_bit_nat_eq_self)
    ultimately show False using that by simp
  qed
  then show ?thesis by (auto simp: distinct_conv_nth)
qed

lemma partition_state_simps [simp]:
  "ps_Topic (partition_state p) = pt_Topic p" "ps_Partition (partition_state p) = pt_ID p"
  "ps_Leader (partition_state p) = pt_Leader p"
  by (simp_all add: partition_state_def)

lemma leader_and_isr_states [simp]: "lireq_PartitionStates (leader_and_isr c ps) = map partition_state ps"
  by (simp add: leader_and_isr_def)

text \<open>The only broker of a cluster creates a topic: it leads every partition, on an empty log.\<close>

lemma createTopic_alone:
  assumes "broker_ok E V b" and "msgpack_ok (en_codec E)" and "raft_serves E" and "\<forall>path. en_files E path = []"
    and "lookup_ok (bk_brokerLookup b)" and "Brokers (bk_brokerLookup b) = [m]" and "mt_ID m = broker_ID b"
    and "cat_topics (fsm_catalog V (bk_fsm b)) (db_lower V (ctr_Topic req)) = None" and "ctr_Topic req \<noteq> []"
    and "ctr_ReplicationFactor req = 1"
    and "buildPartitions E (ctr_Topic req) (ctr_NumPartitions req) 1 b = Ok ps"
    and "encodable E (RegisterTopicRequest (new_topic (ctr_Topic req) False (fold (\<lambda>p. AList.update (pt_ID p) (pt_AR p)) ps [])))"
    and "\<forall>p\<in>set ps. encodable E (RegisterPartitionRequest p)"
  shows "\<exists>b'. createTopic E req b = Returns (ErrNone, b') \<and>
    (\<forall>k<nat (sint (ctr_NumPartitions req)). \<exists>l. fresh_log l \<and> leads E b' (ctr_Topic req) (word_of_nat k) l [[]])"
proof -
  let ?n = "ctr_NumPartitions req"
  from buildPartitions_assigned [OF assms(5), of 1 E "ctr_Topic req" ?n] assms(6,11)
  have len: "length ps = nat (sint ?n)"
    and nth: "\<forall>k<length ps. pt_ID (ps ! k) = word_of_nat k \<and> pt_Partition (ps ! k) = word_of_nat k \<and>
       pt_Topic (ps ! k) = ctr_Topic req \<and> well_assigned {mt_ID m} 1 (ps ! k)" by auto
  have "sint ?n < 2 ^ 31" using sint_lt [of ?n] by simp
  then have short: "length ps < 2 ^ 32" using len by simp
  then have keys: "distinct (map part_key ps)" using nth by (intro distinct_part_keys) auto
  have each: "pt_Topic p = ctr_Topic req \<and> pt_ID p = pt_Partition p \<and> pt_Leader p = broker_ID b" if p: "p \<in> set ps" for p
  proof -
    from p obtain k where "k < length ps" "p = ps ! k" by (auto simp: in_set_conv_nth)
    with nth have p': "pt_Topic p = ctr_Topic req" "pt_ID p = pt_Partition p" "well_assigned {mt_ID m} 1 p" by auto
    from p'(3) have "pt_AR p \<noteq> []" "set (pt_AR p) \<subseteq> {mt_ID m}" "pt_Leader p = hd (pt_AR p)"
      by (auto simp: well_assigned_def)
    then have "pt_Leader p = mt_ID m" by (cases "pt_AR p") auto
    with p' assms(7) show ?thesis by simp
  qed
  have fsm: "fsm_ok (en_memdb E) V (bk_fsm b)" using assms(1) by (simp add: broker_ok_def)
  have enc: "\<forall>p\<in>set ps. encodable E (RegisterPartitionRequest p) \<and> pt_Topic p = ctr_Topic req" using assms(13) each by blast
  obtain r c where c: "createTopic E req b = tell_brokers E (leader_and_isr (broker_ID b) ps) [m] (b\<lparr>bk_raft := r, bk_fsm := c\<rparr>)"
      "knows_topic E (b\<lparr>bk_raft := r, bk_fsm := c\<rparr>) (ctr_Topic req)"
    using createTopic_registers [OF fsm assms(2,3,8,9) _ assms(12) enc keys] assms(6,10,11) by auto
  let ?b = "b\<lparr>bk_raft := r, bk_fsm := c\<rparr>" and ?req = "leader_and_isr (broker_ID b) ps"
  have known: "\<forall>p\<in>set (lireq_PartitionStates ?req). knows_topic E ?b (ps_Topic p)" using c(2) each by simp
  have "map (\<lambda>p. (ps_Topic p, ps_Partition p)) (lireq_PartitionStates ?req) = map part_key ps" using each by simp
  with keys have dist: "distinct (map (\<lambda>p. (ps_Topic p, ps_Partition p)) (lireq_PartitionStates ?req))" by (simp only:)
  obtain res rl where rl: "handleLeaderAndISR E ?req ?b = Returns (res, ?b\<lparr>bk_replicaLookup := rl\<rparr>)" "lires_ErrorCode res = 0"
    "\<forall>p\<in>set ps. pt_Leader p = broker_ID b \<longrightarrow> (\<exists>l. fresh_log l \<and> leads E (?b\<lparr>bk_replicaLookup := rl\<rparr>) (pt_Topic p) (pt_ID p) l [[]])"
    using handleLeaderAndISR_fresh [OF known assms(4) dist] by auto
  have "createTopic E req b = Returns (ErrNone, ?b\<lparr>bk_replicaLookup := rl\<rparr>)"
    using c(1) rl(1,2) assms(7) by simp
  moreover have "\<exists>l. fresh_log l \<and> leads E (?b\<lparr>bk_replicaLookup := rl\<rparr>) (ctr_Topic req) (word_of_nat k) l [[]]"
    if "k < nat (sint ?n)" for k
    using rl(3) each [of "ps ! k"] nth that len by (metis nth_mem)
  ultimately show ?thesis by blast
qed

text \<open>A broker that cannot be dialled makes telling the brokers fail, if it gets that far.\<close>

lemma tell_brokers_unreachable:
  assumes "tell_brokers E req ms b = Returns (err, b')" and "m \<in> set ms" and "mt_ID m \<noteq> broker_ID b"
    and "en_Dial E (mt_BrokerAddr m) \<noteq> None"
  shows "err = unknown_error"
  using assms
proof (induction ms arbitrary: b)
  case (Cons m' ms)
  show ?case
  proof (cases "mt_ID m' = broker_ID b")
    case True
    with Cons.prems(1) obtain res b1 where 1: "handleLeaderAndISR E req b = Returns (res, b1)" "tell_brokers E req ms b1 = Returns (err, b')"
      by (auto simp: run_bind_eq_Returns split: if_splits)
    have "bk_config b1 = bk_config b"
      using keepsD [OF frame.handleLeaderAndISR_keeps [OF refl, of b E req] 1(1)] by simp
    with Cons.IH [OF 1(2)] Cons.prems(2-4) True show ?thesis by auto
  next
    case False
    with Cons.IH Cons.prems show ?thesis by (auto split: option.splits outcome.splits)
  qed
qed simp

lemma createTopic_fails:
  assumes "broker_ok E V b" and "msgpack_ok (en_codec E)" and "raft_serves E" and "\<forall>path. en_files E path = []"
    and "\<forall>a q. en_LeaderAndISR E a q \<noteq> Panic" and "lookup_ok (bk_brokerLookup b)" and "1 \<le> sint (ctr_ReplicationFactor req)"
    and "cat_topics (fsm_catalog V (bk_fsm b)) (db_lower V (ctr_Topic req)) = None" and "ctr_Topic req \<noteq> []"
    and "buildPartitions E (ctr_Topic req) (ctr_NumPartitions req) (ctr_ReplicationFactor req) b = Ok ps"
    and "encodable E (RegisterTopicRequest (new_topic (ctr_Topic req) False (fold (\<lambda>p. AList.update (pt_ID p) (pt_AR p)) ps [])))"
    and "\<forall>p\<in>set ps. encodable E (RegisterPartitionRequest p)"
    and "m \<in> set (Brokers (bk_brokerLookup b))" and "mt_ID m \<noteq> broker_ID b" and "en_Dial E (mt_BrokerAddr m) \<noteq> None"
  shows "\<exists>b'. createTopic E req b = Returns (unknown_error, b') \<and> createTopic E req b' = Returns (ErrTopicAlreadyExists, b') \<and>
    (\<forall>p\<in>set ps. \<exists>i ri. GetPartition (en_memdb E) (broker_state b') (ctr_Topic req) (pt_ID p) = Ok (i, Some (p\<lparr>pt_RaftIndex := ri\<rparr>)))"
proof -
  let ?t = "ctr_Topic req" and ?n = "ctr_NumPartitions req" and ?rf = "ctr_ReplicationFactor req"
  have "sint ?rf \<le> int (length (Brokers (bk_brokerLookup b)))"
    using assms(10) by (auto simp: buildPartitions_def Let_def split: if_splits)
  from buildPartitions_assigned [OF assms(6,7) this, of E ?t ?n] assms(10)
  have len: "length ps = nat (sint ?n)"
    and nth: "\<forall>k<length ps. pt_ID (ps ! k) = word_of_nat k \<and> pt_Partition (ps ! k) = word_of_nat k \<and> pt_Topic (ps ! k) = ?t" by auto
  have "sint ?n < 2 ^ 31" using sint_lt [of ?n] by simp
  then have keys: "distinct (map part_key ps)" using nth len by (intro distinct_part_keys) auto
  have each: "pt_Topic p = ?t \<and> pt_ID p = pt_Partition p" if "p \<in> set ps" for p
    using that nth by (auto simp: in_set_conv_nth)
  have fsm: "fsm_ok (en_memdb E) V (bk_fsm b)" using assms(1) by (simp add: broker_ok_def)
  have enc: "\<forall>p\<in>set ps. encodable E (RegisterPartitionRequest p) \<and> pt_Topic p = ?t" using assms(12) each by blast
  obtain r c where c: "createTopic E req b = tell_brokers E (leader_and_isr (broker_ID b) ps) (Brokers (bk_brokerLookup b)) (b\<lparr>bk_raft := r, bk_fsm := c\<rparr>)"
      "fsm_ok (en_memdb E) V c" "knows_topic E (b\<lparr>bk_raft := r, bk_fsm := c\<rparr>) ?t"
      "\<forall>p\<in>set ps. \<exists>ri. cat_partitions (fsm_catalog V c) (part_key p) = Some (p\<lparr>pt_RaftIndex := ri\<rparr>)"
    using createTopic_registers [OF fsm assms(2,3,8,9,10,11) enc keys] by blast
  let ?b = "b\<lparr>bk_raft := r, bk_fsm := c\<rparr>" and ?req = "leader_and_isr (broker_ID b) ps"
  have known: "\<forall>p\<in>set (lireq_PartitionStates ?req). knows_topic E ?b (ps_Topic p)" using c(3) each by simp
  have "map (\<lambda>p. (ps_Topic p, ps_Partition p)) (lireq_PartitionStates ?req) = map part_key ps" using each by simp
  with keys have dist: "distinct (map (\<lambda>p. (ps_Topic p, ps_Partition p)) (lireq_PartitionStates ?req))" by (simp only:)
  obtain err rl where rl: "createTopic E req b = Returns (err, ?b\<lparr>bk_replicaLookup := rl\<rparr>)"
    using tell_brokers_returns [OF known assms(4) dist assms(5)] c(1) by metis
  then have "err = unknown_error"
    using tell_brokers_unreachable [of E ?req "Brokers (bk_brokerLookup b)" ?b err _ m] c(1) assms(13-15) by simp
  moreover have store: "store_ok (en_memdb E) V (fsm_state c)" using c(2) by (simp add: fsm_ok_def)
  have "createTopic E req (?b\<lparr>bk_replicaLookup := rl\<rparr>) = Returns (ErrTopicAlreadyExists, ?b\<lparr>bk_replicaLookup := rl\<rparr>)"
    using c(3) by (auto simp: createTopic_def knows_topic_def)
  moreover have "\<forall>p\<in>set ps. \<exists>i ri. GetPartition (en_memdb E) (broker_state (?b\<lparr>bk_replicaLookup := rl\<rparr>)) ?t (pt_ID p) =
      Ok (i, Some (p\<lparr>pt_RaftIndex := ri\<rparr>))"
    using c(4) each Get_laws(4) [OF store] by fastforce
  ultimately show ?thesis using rl by blast
qed

end
