(* ===== verification/Broker_Theorems.thy ===== *)
theory Broker_Theorems
  imports Broker_Topics Memdb_List Log_Message
begin

text \<open>
  The properties of a broker: what it keeps in every state it can reach, how it assigns replicas and
  creates topics, and what producing and fetching do.
\<close>

section \<open>A concrete broker\<close>

text \<open>
  A raft that commits everything with consecutive indexes, a codec that knows a list of requests, and
  a broker around the database of lists.
\<close>

definition demo_raft :: "nat raft" where
  "demo_raft = \<lparr>raft_Apply = (\<lambda>r buf. (Ok (word_of_nat r), Suc r)), raft_Leader = (\<lambda>_. True), raft_GetConfiguration = (\<lambda>_. Ok []),
     raft_RemoveServer = (\<lambda>r _. (None, r)), raft_AddVoter = (\<lambda>r _ _. (None, r)), raft_AddNonvoter = (\<lambda>r _ _. (None, r)),
     raft_Barrier = (\<lambda>r. (None, r)), raft_LastIndex = (\<lambda>r. Ok (word_of_nat r)), raft_BootstrapCluster = (\<lambda>r _. (None, r))\<rparr>"

definition table_codec :: "request list \<Rightarrow> msgpack" where
  "table_codec L = \<lparr>mp_Encode = (\<lambda>r. if r \<in> set L then Ok (replicate (length (takeWhile (\<lambda>x. x \<noteq> r) L)) 0) else Err ''unknown request''),
     mp_Decode = (\<lambda>t b. if length b < length L \<and> request_type (L ! length b) = t then Ok (L ! length b) else Err ''unknown request''),
     mp_EncodeHeader = mp_EncodeHeader name_codec, mp_DecodeHeader = mp_DecodeHeader name_codec\<rparr>"

lemma takeWhile_index: "r \<in> set L \<Longrightarrow> length (takeWhile (\<lambda>x. x \<noteq> r) L) < length L \<and> L ! length (takeWhile (\<lambda>x. x \<noteq> r) L) = r"
  by (induction L) auto

lemma table_codec_ok: "msgpack_ok (table_codec L)"
proof -
  have "mp_Decode (table_codec L) (request_type r) b = Ok r" if "mp_Encode (table_codec L) r = Ok b" for r b
    using that takeWhile_index [of r L] by (auto simp: table_codec_def split: if_splits)
  moreover have "mp_DecodeHeader (table_codec L) (b @ rest) = Ok (h, rest)" if "mp_EncodeHeader (table_codec L) h = Ok b" for h b rest
    using that name_codec_ok by (auto simp: msgpack_ok_def table_codec_def)
  ultimately show ?thesis by (simp add: msgpack_ok_def)
qed

definition demo_env :: "request list \<Rightarrow> (list_db, nat) env" where
  "demo_env L = \<lparr>en_memdb = list_memdb, en_codec = table_codec L, en_raft = demo_raft, en_hash = (\<lambda>_. 0), en_rand = (\<lambda>_ _. 0),
     en_Dial = (\<lambda>a. Some ''connection refused''), en_LeaderAndISR = (\<lambda>_ _. Err ''EOF''), en_files = (\<lambda>_. []), en_cwd = (\<lambda>_. False),
     en_chunk = (\<lambda>_. 512), en_uuid = ''u'', en_now = zero_time\<rparr>"

definition demo_config :: Config where
  "demo_config = \<lparr>cf_ID = 1, cf_NodeName = ''one'', cf_DataDir = ''/tmp'', cf_DevMode = False, cf_Addr = ''127.0.0.1:9092'',
     cf_Bootstrap = False, cf_BootstrapExpect = 0, cf_StartAsLeader = False, cf_NonVoter = False, cf_RaftAddr = ''127.0.0.1:9093'',
     cf_SerfLANAddr = ''127.0.0.1:9094'', cf_OffsetsTopicReplicationFactor = 1\<rparr>"

definition demo_member :: "int32 \<Rightarrow> string \<Rightarrow> metadata_Broker" where
  "demo_member i addr = \<lparr>mt_ID = i, mt_Name = [], mt_Bootstrap = False, mt_Expect = 0, mt_NonVoter = False, mt_Status = StatusAlive,
     mt_RaftAddr = addr, mt_SerfLANAddr = [], mt_BrokerAddr = addr\<rparr>"

definition demo_lookup :: "metadata_Broker list \<Rightarrow> brokerLookup" where
  "demo_lookup ms = fold AddBroker ms NewBrokerLookup"

definition demo_broker :: "metadata_Broker list \<Rightarrow> (list_db, nat) broker" where
  "demo_broker ms = \<lparr>bk_config = demo_config, bk_readyForConsistentReads = False, bk_brokerLookup = demo_lookup ms,
     bk_replicaLookup = NewReplicaLookup, bk_raft = 1, bk_reconcileCh = [], bk_members = [],
     bk_fsm = \<lparr>fsm_apply = command_table, fsm_state = list_store\<rparr>, bk_shutdown = False, bk_background = []\<rparr>"

lemma demo_simps [simp]:
  "bk_brokerLookup (demo_broker ms) = demo_lookup ms" "bk_config (demo_broker ms) = demo_config" "cf_ID demo_config = 1"
  "mt_ID (demo_member i a) = i" "mt_BrokerAddr (demo_member i a) = a"
  "en_Dial (demo_env L) a = Some ''connection refused''" "en_LeaderAndISR (demo_env L) a q = Err ''EOF''"
  "en_chunk (demo_env L) n = 512" "en_now (demo_env L) = zero_time"
  "en_rand (demo_env L) = (\<lambda>_ _. 0)"
  by (simp_all add: demo_broker_def demo_config_def demo_member_def demo_env_def)

lemma demo_encodable [simp]: "encodable (demo_env L) r \<longleftrightarrow> r \<in> set L"
  by (simp add: encodable_def demo_env_def table_codec_def)

lemma demo_buildPartitions: "buildPartitions (demo_env L) = buildPartitions (demo_env [])"
  by (simp add: fun_eq_iff buildPartitions_def Let_def)

lemma demo_env_ok: "memdb_ok (en_memdb (demo_env L)) list_view" "msgpack_ok (en_codec (demo_env L))"
  "raft_serves (demo_env L)" "\<forall>path. en_files (demo_env L) path = []"
  by (simp_all add: demo_env_def list_memdb_ok table_codec_ok raft_serves_def demo_raft_def)

lemma demo_broker_ok: "broker_ok (demo_env L) list_view (demo_broker ms)"
  "cat_topics (fsm_catalog list_view (bk_fsm (demo_broker ms))) = (\<lambda>_. None)"
  by (simp_all add: broker_ok_def demo_broker_def demo_env_def fsm_ok_def list_store_ok catalog_ok_def empty_catalog_def
      replicas_ok_def NewReplicaLookup_def)

definition demo_lib :: "nat raft_lib" where
  "demo_lib = \<lparr>lib_NewTCPTransport = Ok, lib_MkdirAll = (\<lambda>_. None), lib_NewBoltStore = (\<lambda>_. None), lib_NewLogCache = None,
     lib_NewFileSnapshotStore = (\<lambda>_. None), lib_HasExistingState = Ok False, lib_BootstrapCluster = (\<lambda>_. None),
     lib_NewRaft = (\<lambda>_ _. Ok 1)\<rparr>"

lemma demo_NewBroker: "NewBroker (demo_env L) demo_lib (Ok []) demo_config = Ok (demo_broker [])"
  by (simp add: NewBroker_def setupRaft_def raft_stores_def bootstrap_self_def demo_lib_def demo_config_def FSM_New_def commands_eq NewStore_list demo_env_def demo_broker_def demo_lookup_def)

section \<open>What a broker keeps\<close>


text \<open>A new broker that is elected, and reconciles a pool without members.\<close>

lemma demo_elected: "reachable (demo_env L) (Some \<lparr>lv_established = True, lv_listening = True\<rparr>, (demo_broker [])\<lparr>bk_readyForConsistentReads := True\<rparr>)"
proof -
  have nodes: "\<exists>idx. GetNodes list_memdb list_store = Ok (idx, [])"
    using list_laws(1) [OF list_store_ok(1)] by (auto simp: list_store_ok(2) empty_catalog_def)
  have "cluster_step (demo_env L) LeadershipGained (None, demo_broker []) =
      Returns (Some \<lparr>lv_established = True, lv_listening = True\<rparr>, (demo_broker [])\<lparr>bk_readyForConsistentReads := True\<rparr>)"
    using nodes by (auto simp: demo_broker_def demo_env_def demo_raft_def reconcile_turn_def establishLeadership_def reconcile_def
        reconcileReaped_def LANMembers_def)
  with started [OF demo_NewBroker] show ?thesis by (blast intro: stepped event)
qed




text \<open>
  C12: group synchronisation.  In every state a broker can reach, a request to synchronise a group
  is answered with an error and without an assignment, and changes nothing: no step ever moves a group
  out of the state in which the broker answers that a rebalance is in progress.
\<close>

theorem sync_group_never_assigns:
  assumes "memdb_ok (en_memdb E) V" and "msgpack_ok (en_codec E)" and "reachable E (lv, b)"
  shows "\<exists>code. handleSyncGroup E r b = Returns (\<lparr>sres_APIVersion = sreq_APIVersion r, sres_ThrottleTime = 0, sres_ErrorCode = code,
      sres_MemberAssignment = None\<rparr>, b) \<and> (code = 24 \<or> code = 25 \<or> code = 22 \<or> code = 27)"
proof -
  have ok: "broker_ok E V b" using reachable_ok [OF assms] by simp
  obtain i g where g: "GetGroup (en_memdb E) (broker_state b) (sreq_GroupID r) = Ok (i, g)"
    using Get_laws(3) [OF broker_okD(1) [OF ok], of "sreq_GroupID r"] by blast
  show ?thesis
  proof (cases g)
    case None
    with g show ?thesis by (simp add: handleSyncGroup_def)
  next
    case (Some g')
    with g found_group [OF ok] have "fresh_group g'" by blast
    with g Some show ?thesis
      by (simp add: handleSyncGroup_def fresh_group_def split: option.split)
  qed
qed

theorem sync_group_never_assigns_witness:
  "\<exists>code. handleSyncGroup (demo_env []) \<lparr>sreq_APIVersion = 1, sreq_GroupID = ''g'', sreq_GenerationID = 0, sreq_MemberID = ''m'', sreq_GroupAssignments = []\<rparr>
      ((demo_broker [])\<lparr>bk_readyForConsistentReads := True\<rparr>) =
    Returns (\<lparr>sres_APIVersion = 1, sres_ThrottleTime = 0, sres_ErrorCode = code, sres_MemberAssignment = None\<rparr>,
      (demo_broker [])\<lparr>bk_readyForConsistentReads := True\<rparr>) \<and> (code = 24 \<or> code = 25 \<or> code = 22 \<or> code = 27)"
  using sync_group_never_assigns [OF demo_env_ok(1,2) demo_elected, of "[]" "\<lparr>sreq_APIVersion = 1, sreq_GroupID = ''g'', sreq_GenerationID = 0,
      sreq_MemberID = ''m'', sreq_GroupAssignments = []\<rparr>"] by simp

section \<open>Topics\<close>


abbreviation demo_members :: "metadata_Broker list" where
  "demo_members \<equiv> [demo_member 1 ''127.0.0.1:9092'', demo_member 2 ''127.0.0.1:9095'']"

lemma demo_lookup_members:
  "lookup_ok (demo_lookup demo_members)" "Brokers (demo_lookup demo_members) = demo_members"
  "lookup_ok (demo_lookup [demo_member 1 a])" "Brokers (demo_lookup [demo_member 1 a]) = [demo_member 1 a]"
proof -
  have "NodeID_String 1 \<noteq> NodeID_String 2" by simp
  then show "lookup_ok (demo_lookup demo_members)" "Brokers (demo_lookup demo_members) = demo_members"
    by (simp_all add: demo_lookup_def AddBroker_def NewBrokerLookup_def lookup_ok_def Brokers_def demo_member_def)
  show "lookup_ok (demo_lookup [demo_member 1 a])" "Brokers (demo_lookup [demo_member 1 a]) = [demo_member 1 a]"
    by (simp_all add: demo_lookup_def AddBroker_def NewBrokerLookup_def lookup_ok_def Brokers_def demo_member_def)
qed


text \<open>
  C13: a topic whose creation fails.  When a broker other than the controller cannot be reached,
  creating a topic fails; by then the topic and every partition are registered, with the leader and
  the replicas that were assigned, and creating the topic again is refused because it exists.
\<close>

theorem failed_topic_stays_registered:
  assumes "broker_ok E V b" and "msgpack_ok (en_codec E)" and "raft_serves E" and "\<forall>path. en_files E path = []"
    and "\<forall>a q. en_LeaderAndISR E a q \<noteq> Panic" and "lookup_ok (bk_brokerLookup b)" and "1 \<le> sint (ctr_ReplicationFactor req)"
    and "cat_topics (fsm_catalog V (bk_fsm b)) (db_lower V (ctr_Topic req)) = None" and "ctr_Topic req \<noteq> []"
    and "buildPartitions E (ctr_Topic req) (ctr_NumPartitions req) (ctr_ReplicationFactor req) b = Ok ps"
    and "encodable E (RegisterTopicRequest (new_topic (ctr_Topic req) False (fold (\<lambda>p. AList.update (pt_ID p) (pt_AR p)) ps [])))"
    and "\<forall>p\<in>set ps. encodable E (RegisterPartitionRequest p)"
    and "m \<in> set (Brokers (bk_brokerLookup b))" and "mt_ID m \<noteq> broker_ID b" and "en_Dial E (mt_BrokerAddr m) \<noteq> None"
  shows "\<exists>b'. createTopic E req b = Returns (unknown_error, b') \<and> createTopic E req b' = Returns (ErrTopicAlreadyExists, b') \<and>
    (\<forall>p\<in>set ps. \<exists>i ri. GetPartition (en_memdb E) (broker_state b') (ctr_Topic req) (pt_ID p) = Ok (i, Some (p\<lparr>pt_RaftIndex := ri\<rparr>)))"
  using createTopic_fails [OF assms] by blast

theorem failed_topic_stays_registered_witness:
  "\<exists>L b'. let req = \<lparr>ctr_Topic = ''t'', ctr_NumPartitions = 2, ctr_ReplicationFactor = 2, ctr_ReplicaAssignment = [], ctr_Configs = []\<rparr> in
    createTopic (demo_env L) req (demo_broker demo_members) = Returns (unknown_error, b') \<and>
    createTopic (demo_env L) req b' = Returns (ErrTopicAlreadyExists, b')"
proof -
  let ?req = "\<lparr>ctr_Topic = ''t'', ctr_NumPartitions = 2, ctr_ReplicationFactor = 2, ctr_ReplicaAssignment = [], ctr_Configs = []\<rparr>"
  obtain ps where ps: "buildPartitions (demo_env []) ''t'' 2 2 (demo_broker demo_members) = Ok ps"
    using buildPartitions_assigned [of "demo_broker demo_members" 2 "demo_env []" "''t''" 2] by (auto simp: demo_lookup_members)
  let ?L = "RegisterTopicRequest (new_topic ''t'' False (fold (\<lambda>p. AList.update (pt_ID p) (pt_AR p)) ps [])) # map RegisterPartitionRequest ps"
  have "\<exists>b'. createTopic (demo_env ?L) ?req (demo_broker demo_members) = Returns (unknown_error, b') \<and>
      createTopic (demo_env ?L) ?req b' = Returns (ErrTopicAlreadyExists, b') \<and>
      (\<forall>p\<in>set ps. \<exists>i ri. GetPartition (en_memdb (demo_env ?L)) (broker_state b') (ctr_Topic ?req) (pt_ID p) = Ok (i, Some (p\<lparr>pt_RaftIndex := ri\<rparr>)))"
    by (rule failed_topic_stays_registered [OF demo_broker_ok(1) demo_env_ok(2-4), where m = "demo_member 2 ''127.0.0.1:9095''"])
      (use ps in \<open>simp_all add: demo_lookup_members demo_broker_ok(2) demo_buildPartitions [of ?L]\<close>)
  then show ?thesis unfolding Let_def by blast
qed

section \<open>Data\<close>


definition demo_set :: bytes where
  "demo_set = NewMessageSet 0 [v0_message 0 0 [7] [8]]"

lemma demo_set_valid: "valid_set demo_set" "length demo_set = 28"
  by (simp_all add: valid_set_def demo_set_def NewMessageSet_def v0_message_def)


lemma demo_leads:
  "\<exists>L b l rss. leads (demo_env L) b ''t'' 0 l rss \<and> concat rss = stamps 0 [demo_set] \<and> seg_BaseOffset (cl_segments l ! 0) = 0"
proof -
  let ?req = "\<lparr>ctr_Topic = ''t'', ctr_NumPartitions = 1, ctr_ReplicationFactor = 1, ctr_ReplicaAssignment = [], ctr_Configs = []\<rparr>"
  let ?b = "demo_broker [demo_member 1 ''127.0.0.1:9092'']"
  obtain ps where ps: "buildPartitions (demo_env []) ''t'' 1 1 ?b = Ok ps"
    using buildPartitions_assigned [of ?b 1 "demo_env []" "''t''" 1] by (auto simp: demo_lookup_members)
  let ?L = "RegisterTopicRequest (new_topic ''t'' False (fold (\<lambda>p. AList.update (pt_ID p) (pt_AR p)) ps [])) # map RegisterPartitionRequest ps"
  have "\<exists>b'. createTopic (demo_env ?L) ?req ?b = Returns (ErrNone, b') \<and>
    (\<forall>k<nat (sint (ctr_NumPartitions ?req)). \<exists>l. fresh_log l \<and> leads (demo_env ?L) b' (ctr_Topic ?req) (word_of_nat k) l [[]])"
    by (rule createTopic_alone [OF demo_broker_ok(1) demo_env_ok(2-4), where ps = ps and m = "demo_member 1 ''127.0.0.1:9092''"])
      (use ps in \<open>simp_all add: demo_lookup_members demo_broker_ok(2) demo_buildPartitions [of ?L]\<close>)
  then obtain b l where b: "fresh_log l" "leads (demo_env ?L) b ''t'' 0 l [[]]" by auto
  then obtain b' l' rss where "leads (demo_env ?L) b' ''t'' 0 l' rss" "concat rss = stamps 0 [demo_set]" "NewestOffset l' = 1"
    using handleProduce_leads [OF b(2), of "[demo_set]" "\<lambda>_ _. InTime" 0 0] demo_set_valid by (auto simp: fresh_log_def)
  moreover from this have "seg_BaseOffset (cl_segments l' ! 0) = 0"
    using newest_base [of l' rss] by (auto simp: leads_def)
  ultimately show ?thesis by blast
qed

lemma demo_length: "length (concat (stamps 0 [demo_set])) = 28"
  using stamps_lengths [of "[demo_set]" 0 0] demo_set_valid by simp



text \<open>
  C11: followers.  However often a follower asks its leader, and whether the leader answers in time
  or not: when the log of the leader starts at offset 0 and holds something, the replicator a broker
  starts when it becomes a follower is unchanged by the answer.  It takes a set of records only if its offset is
  greater than its own, which is 0, so no record is ever replicated.
\<close>

theorem follower_makes_no_progress:
  assumes "leads E b t i l rss" and "concat rss \<noteq> []" and "seg_BaseOffset (cl_segments l ! 0) = 0"
    and "\<forall>n. 0 < en_chunk E n" and "length (concat (concat rss)) < 2 ^ 31" and "replica_key rp = (t, i)"
    and "r = Replicate (NewReplicator \<lparr>rc_MinBytes = 0, rc_MaxWaitTime = 0\<rparr> addr)"
  shows "\<exists>res b' progress. handleFetch E tm (fetch_request rp r) b = Returns (res, b') \<and> leads E b' t i l rss \<and>
    fetchMessages behind (Ok res) r = Returns (progress, r)"
proof -
  obtain res b' where 1: "handleFetch E tm (fetch_request rp r) b = Returns (res, b')" "leads E b' t i l rss"
    "res = fetched 0 t i 0 (NewestOffset l - 1) (Some (concat (concat rss))) \<or> res = fetched 0 t i 0 0 None"
    using fetch_request_answer [OF assms] by blast
  have "log_repr l rss" using assms(1) by (simp add: leads_def)
  from leading_offset_log [OF this assms(2)] 1(3) assms(3)
  have "\<exists>progress. fetchMessages behind (Ok res) r = Returns (progress, r)"
    by (auto simp: fetchMessages_def fetched_def assms(7) Replicate_def NewReplicator_def)
  with 1(1,2) show ?thesis by blast
qed

theorem follower_makes_no_progress_witness:
  "\<exists>L b res b' progress. let r = Replicate (NewReplicator \<lparr>rc_MinBytes = 0, rc_MaxWaitTime = 0\<rparr> ''127.0.0.1:9092'');
      rp = new_replica 2 (partition_state \<lparr>pt_ID = 0, pt_Partition = 0, pt_Topic = ''t'', pt_ISR = [1, 2], pt_AR = [1, 2], pt_Leader = 1,
        pt_ControllerEpoch = 0, pt_LeaderEpoch = 0, pt_RaftIndex = zero_index\<rparr>) in
    handleFetch (demo_env L) (\<lambda>_ _. InTime) (fetch_request rp r) b = Returns (res, b') \<and>
    fetchMessages (\<lambda>_. []) (Ok res) r = Returns (progress, r)"
proof -
  obtain L b l rss where b: "leads (demo_env L) b ''t'' 0 l rss" "concat rss = stamps 0 [demo_set]" "seg_BaseOffset (cl_segments l ! 0) = 0"
    using demo_leads by blast
  have len: "length (concat (concat rss)) < 2 ^ 31" using b(2) demo_length by simp
  let ?rp = "new_replica 2 (partition_state \<lparr>pt_ID = 0, pt_Partition = 0, pt_Topic = ''t'', pt_ISR = [1, 2], pt_AR = [1, 2], pt_Leader = 1,
        pt_ControllerEpoch = 0, pt_LeaderEpoch = 0, pt_RaftIndex = zero_index\<rparr>)"
  have "replica_key ?rp = (''t'', 0)" by (simp add: new_replica_def)
  with follower_makes_no_progress [OF b(1) _ b(3) _ len _ refl, of ?rp "\<lambda>_ _. InTime" "''127.0.0.1:9092''" "\<lambda>_. []"] b(2)
  show ?thesis unfolding Let_def by auto
qed

end
