(* ===== verification/Client.thy ===== *)
theory Client
  imports Server
begin

text \<open>
  The internal client (\<^verbatim>\<open>Conn\<close> in \<^verbatim>\<open>jocko/conn.go\<close>): how a broker calls another one.  One caller uses the connection, so its
  locks are not modelled; opening connections and their deadlines are in \<^verbatim>\<open>Dialer\<close>.
\<close>

section \<open>Connections\<close>

text \<open>
  \<open>cn_in\<close> is what the peer has sent and nobody has read, \<open>cn_open\<close> whether this side has closed the
  connection.
\<close>

record Conn =
  cn_open :: bool
  cn_in :: bytes
  cn_clientID :: string
  cn_correlationID :: int32

definition NewConn :: "string \<Rightarrow> Conn" where
  "NewConn clientID = \<lparr>cn_open = True, cn_in = [], cn_clientID = clientID, cn_correlationID = 0\<rparr>"

text \<open>
  \<^verbatim>\<open>Peek\<close> of a \<^verbatim>\<open>bufio.Reader\<close> with its default buffer of 4096 bytes, on a connection that delivers no more
  than \<open>cn_in\<close>.
\<close>

definition Peek :: "int \<Rightarrow> Conn \<Rightarrow> (string, bytes) outcome" where
  "Peek n c =
     (if n < 0 then Err ''bufio: negative count''
      else if 4096 < n then Err ''bufio: buffer full''
      else if \<not> cn_open c \<or> length (cn_in c) < nat n then Err ''EOF''
      else Ok (take (nat n) (cn_in c)))"

definition Discard :: "nat \<Rightarrow> Conn \<Rightarrow> Conn" where
  "Discard n c = c\<lparr>cn_in := drop n (cn_in c)\<rparr>"

definition Conn_Close :: "Conn \<Rightarrow> Conn" where
  "Conn_Close c = c\<lparr>cn_open := False\<rparr>"

section \<open>Requests\<close>

text \<open>
  \<open>peer\<close> is what the other side sends back for the bytes of a request.  A request that cannot be
  encoded, or a connection that is closed, is an error of the write.
\<close>

definition writeRequest :: "(bytes \<Rightarrow> bytes) \<Rightarrow> Body \<Rightarrow> Conn \<Rightarrow> (bool \<times> Conn) run" where
  "writeRequest peer body c =
     (case Encode (Request_Encode \<lparr>req_CorrelationID = cn_correlationID c, req_ClientID = cn_clientID c, req_Body = body\<rparr>) of
        Panic \<Rightarrow> Panics
      | Err _ \<Rightarrow> Returns (False, c)
      | Ok bs \<Rightarrow> if cn_open c then Returns (True, c\<lparr>cn_in := cn_in c @ peer bs\<rparr>) else Returns (False, c))"

text \<open>The error of the write closes the connection and is not returned.\<close>

definition doRequest :: "(bytes \<Rightarrow> bytes) \<Rightarrow> Body \<Rightarrow> Conn \<Rightarrow> (int32 \<times> Conn) run" where
  "doRequest peer body c =
     (let c = c\<lparr>cn_correlationID := cn_correlationID c + 1\<rparr> in
      run_bind (writeRequest peer body c) (\<lambda>ok c.
        Returns (cn_correlationID c, if ok then c else Conn_Close c)))"

text \<open>The error of \<^verbatim>\<open>Peek\<close> is not returned: the size and the id are 0 then.\<close>

definition peekResponseSizeAndID :: "Conn \<Rightarrow> int32 \<times> int32" where
  "peekResponseSizeAndID c =
     (case Peek 8 c of Ok b \<Rightarrow> (Uint32 (take 4 b), Uint32 (drop 4 b)) | _ \<Rightarrow> (0, 0))"

text \<open>
  Nothing in the loop changes the connection, so with one caller it ends in its first turn or never.
\<close>

definition waitResponse :: "int32 \<Rightarrow> Conn \<Rightarrow> (int \<times> Conn) run" where
  "waitResponse i c =
     (case peekResponseSizeAndID c of
        (rsz, rid) \<Rightarrow> if i = rid then Returns (sint (rsz - 4), Discard 8 c) else Hangs)"

definition readResponse :: "'a dec \<Rightarrow> int \<Rightarrow> Conn \<Rightarrow> ((string, 'a) outcome \<times> Conn) run" where
  "readResponse dec sz c =
     (case Peek sz c of
        Panic \<Rightarrow> Panics
      | Err e \<Rightarrow> Returns (Err e, c)
      | Ok b \<Rightarrow>
          (case Decode dec b of
             Panic \<Rightarrow> Panics
           | Err _ \<Rightarrow> Returns (Err ''decode error'', Discard (nat sz) c)
           | Ok x \<Rightarrow> Returns (Ok x, Discard (nat sz) c)))"

definition Conn_do :: "(bytes \<Rightarrow> bytes) \<Rightarrow> Body \<Rightarrow> 'a dec \<Rightarrow> Conn \<Rightarrow> ((string, 'a) outcome \<times> Conn) run" where
  "Conn_do peer body dec c =
     run_bind (doRequest peer body c) (\<lambda>i c.
     run_bind (waitResponse i c) (\<lambda>sz c.
     run_bind (readResponse dec sz c) (\<lambda>res c.
     Returns (res, case res of Ok _ \<Rightarrow> c | _ \<Rightarrow> Conn_Close c))))"

section \<open>Calls\<close>

text \<open>Every call sends its request and reads its response in the version of the request.\<close>

definition Conn_LeaderAndISR :: "(bytes \<Rightarrow> bytes) \<Rightarrow> LeaderAndISRRequest \<Rightarrow> Conn \<Rightarrow> ((string, LeaderAndISRResponse) outcome \<times> Conn) run" where
  "Conn_LeaderAndISR peer req =
     Conn_do peer \<lparr>body_Key = LeaderAndISRKey, body_Version = lireq_APIVersion req, body_Encode = LeaderAndISRRequest_Encode req\<rparr>
       (LeaderAndISRResponse_Decode (lireq_APIVersion req))"

definition Conn_CreateTopics :: "(bytes \<Rightarrow> bytes) \<Rightarrow> CreateTopicRequests \<Rightarrow> Conn \<Rightarrow> ((string, CreateTopicsResponse) outcome \<times> Conn) run" where
  "Conn_CreateTopics peer req =
     Conn_do peer \<lparr>body_Key = CreateTopicsKey, body_Version = ctrs_APIVersion req, body_Encode = CreateTopicRequests_Encode req\<rparr>
       (CreateTopicsResponse_Decode (ctrs_APIVersion req))"

definition Conn_Produce :: "(bytes \<Rightarrow> bytes) \<Rightarrow> ProduceRequest \<Rightarrow> Conn \<Rightarrow> ((string, ProduceResponse) outcome \<times> Conn) run" where
  "Conn_Produce peer req =
     Conn_do peer \<lparr>body_Key = ProduceKey, body_Version = preq_APIVersion req, body_Encode = ProduceRequest_Encode req\<rparr>
       (ProduceResponse_Decode (preq_APIVersion req))"

definition Conn_Offsets :: "(bytes \<Rightarrow> bytes) \<Rightarrow> OffsetsRequest \<Rightarrow> Conn \<Rightarrow> ((string, OffsetsResponse) outcome \<times> Conn) run" where
  "Conn_Offsets peer req =
     Conn_do peer \<lparr>body_Key = OffsetsKey, body_Version = oreq_APIVersion req, body_Encode = OffsetsRequest_Encode req\<rparr>
       (OffsetsResponse_Decode (oreq_APIVersion req))"

definition Conn_StopReplica :: "(bytes \<Rightarrow> bytes) \<Rightarrow> StopReplicaRequest \<Rightarrow> Conn \<Rightarrow> ((string, StopReplicaResponse) outcome \<times> Conn) run" where
  "Conn_StopReplica peer req =
     Conn_do peer \<lparr>body_Key = StopReplicaKey, body_Version = srreq_APIVersion req, body_Encode = StopReplicaRequest_Encode req\<rparr>
       (StopReplicaResponse_Decode (srreq_APIVersion req))"

definition Conn_UpdateMetadata :: "(bytes \<Rightarrow> bytes) \<Rightarrow> UpdateMetadataRequest \<Rightarrow> Conn \<Rightarrow> ((string, UpdateMetadataResponse) outcome \<times> Conn) run" where
  "Conn_UpdateMetadata peer req =
     Conn_do peer \<lparr>body_Key = UpdateMetadataKey, body_Version = umreq_APIVersion req, body_Encode = UpdateMetadataRequest_Encode req\<rparr>
       (UpdateMetadataResponse_Decode (umreq_APIVersion req))"

definition Conn_ControlledShutdown :: "(bytes \<Rightarrow> bytes) \<Rightarrow> ControlledShutdownRequest \<Rightarrow> Conn \<Rightarrow> ((string, ControlledShutdownResponse) outcome \<times> Conn) run" where
  "Conn_ControlledShutdown peer req =
     Conn_do peer \<lparr>body_Key = ControlledShutdownKey, body_Version = csreq_APIVersion req, body_Encode = ControlledShutdownRequest_Encode req\<rparr>
       (ControlledShutdownResponse_Decode (csreq_APIVersion req))"

definition Conn_SaslHandshake :: "(bytes \<Rightarrow> bytes) \<Rightarrow> SaslHandshakeRequest \<Rightarrow> Conn \<Rightarrow> ((string, SaslHandshakeResponse) outcome \<times> Conn) run" where
  "Conn_SaslHandshake peer req =
     Conn_do peer \<lparr>body_Key = SaslHandshakeKey, body_Version = shreq_APIVersion req, body_Encode = SaslHandshakeRequest_Encode req\<rparr>
       (SaslHandshakeResponse_Decode (shreq_APIVersion req))"

definition Conn_OffsetCommit :: "(bytes \<Rightarrow> bytes) \<Rightarrow> OffsetCommitRequest \<Rightarrow> Conn \<Rightarrow> ((string, OffsetCommitResponse) outcome \<times> Conn) run" where
  "Conn_OffsetCommit peer req =
     Conn_do peer \<lparr>body_Key = OffsetCommitKey, body_Version = ocreq_APIVersion req, body_Encode = OffsetCommitRequest_Encode req\<rparr>
       (OffsetCommitResponse_Decode (ocreq_APIVersion req))"

definition Conn_OffsetFetch :: "(bytes \<Rightarrow> bytes) \<Rightarrow> OffsetFetchRequest \<Rightarrow> Conn \<Rightarrow> ((string, OffsetFetchResponse) outcome \<times> Conn) run" where
  "Conn_OffsetFetch peer req =
     Conn_do peer \<lparr>body_Key = OffsetFetchKey, body_Version = ofreq_APIVersion req, body_Encode = OffsetFetchRequest_Encode req\<rparr>
       (OffsetFetchResponse_Decode (ofreq_APIVersion req))"

definition Conn_FindCoordinator :: "(bytes \<Rightarrow> bytes) \<Rightarrow> FindCoordinatorRequest \<Rightarrow> Conn \<Rightarrow> ((string, FindCoordinatorResponse) outcome \<times> Conn) run" where
  "Conn_FindCoordinator peer req =
     Conn_do peer \<lparr>body_Key = FindCoordinatorKey, body_Version = fcreq_APIVersion req, body_Encode = FindCoordinatorRequest_Encode req\<rparr>
       (FindCoordinatorResponse_Decode (fcreq_APIVersion req))"

definition Conn_Heartbeat :: "(bytes \<Rightarrow> bytes) \<Rightarrow> HeartbeatRequest \<Rightarrow> Conn \<Rightarrow> ((string, HeartbeatResponse) outcome \<times> Conn) run" where
  "Conn_Heartbeat peer req =
     Conn_do peer \<lparr>body_Key = HeartbeatKey, body_Version = hreq_APIVersion req, body_Encode = HeartbeatRequest_Encode req\<rparr>
       (HeartbeatResponse_Decode (hreq_APIVersion req))"

definition Conn_LeaveGroup :: "(bytes \<Rightarrow> bytes) \<Rightarrow> LeaveGroupRequest \<Rightarrow> Conn \<Rightarrow> ((string, LeaveGroupResponse) outcome \<times> Conn) run" where
  "Conn_LeaveGroup peer req =
     Conn_do peer \<lparr>body_Key = LeaveGroupKey, body_Version = lgreq_APIVersion req, body_Encode = LeaveGroupRequest_Encode req\<rparr>
       (LeaveGroupResponse_Decode (lgreq_APIVersion req))"

definition Conn_SyncGroup :: "(bytes \<Rightarrow> bytes) \<Rightarrow> SyncGroupRequest \<Rightarrow> Conn \<Rightarrow> ((string, SyncGroupResponse) outcome \<times> Conn) run" where
  "Conn_SyncGroup peer req =
     Conn_do peer \<lparr>body_Key = SyncGroupKey, body_Version = sreq_APIVersion req, body_Encode = SyncGroupRequest_Encode req\<rparr>
       (SyncGroupResponse_Decode (sreq_APIVersion req))"

definition Conn_DescribeGroups :: "(bytes \<Rightarrow> bytes) \<Rightarrow> DescribeGroupsRequest \<Rightarrow> Conn \<Rightarrow> ((string, DescribeGroupsResponse) outcome \<times> Conn) run" where
  "Conn_DescribeGroups peer req =
     Conn_do peer \<lparr>body_Key = DescribeGroupsKey, body_Version = dgreq_APIVersion req, body_Encode = DescribeGroupsRequest_Encode req\<rparr>
       (DescribeGroupsResponse_Decode (dgreq_APIVersion req))"

definition Conn_ListGroups :: "(bytes \<Rightarrow> bytes) \<Rightarrow> ListGroupsRequest \<Rightarrow> Conn \<Rightarrow> ((string, ListGroupsResponse) outcome \<times> Conn) run" where
  "Conn_ListGroups peer req =
     Conn_do peer \<lparr>body_Key = ListGroupsKey, body_Version = lsreq_APIVersion req, body_Encode = ListGroupsRequest_Encode req\<rparr>
       (ListGroupsResponse_Decode (lsreq_APIVersion req))"

definition Conn_APIVersions :: "(bytes \<Rightarrow> bytes) \<Rightarrow> APIVersionsRequest \<Rightarrow> Conn \<Rightarrow> ((string, APIVersionsResponse) outcome \<times> Conn) run" where
  "Conn_APIVersions peer req =
     Conn_do peer \<lparr>body_Key = APIVersionsKey, body_Version = avreq_APIVersion req, body_Encode = APIVersionsRequest_Encode req\<rparr>
       (APIVersionsResponse_Decode (avreq_APIVersion req))"

definition Conn_DeleteTopics :: "(bytes \<Rightarrow> bytes) \<Rightarrow> DeleteTopicsRequest \<Rightarrow> Conn \<Rightarrow> ((string, DeleteTopicsResponse) outcome \<times> Conn) run" where
  "Conn_DeleteTopics peer req =
     Conn_do peer \<lparr>body_Key = DeleteTopicsKey, body_Version = dtreq_APIVersion req, body_Encode = DeleteTopicsRequest_Encode req\<rparr>
       (DeleteTopicsResponse_Decode (dtreq_APIVersion req))"

definition Conn_JoinGroup :: "(bytes \<Rightarrow> bytes) \<Rightarrow> JoinGroupRequest \<Rightarrow> Conn \<Rightarrow> ((string, JoinGroupResponse) outcome \<times> Conn) run" where
  "Conn_JoinGroup peer req =
     Conn_do peer \<lparr>body_Key = JoinGroupKey, body_Version = jreq_APIVersion req, body_Encode = JoinGroupRequest_Encode req\<rparr>
       (JoinGroupResponse_Decode (jreq_APIVersion req))"

definition Conn_Metadata :: "(bytes \<Rightarrow> bytes) \<Rightarrow> MetadataRequest \<Rightarrow> Conn \<Rightarrow> ((string, MetadataResponse) outcome \<times> Conn) run" where
  "Conn_Metadata peer req =
     Conn_do peer \<lparr>body_Key = MetadataKey, body_Version = mreq_APIVersion req, body_Encode = MetadataRequest_Encode req\<rparr>
       (MetadataResponse_Decode (mreq_APIVersion req))"

definition Conn_Fetch :: "(bytes \<Rightarrow> bytes) \<Rightarrow> FetchRequest \<Rightarrow> Conn \<Rightarrow> ((string, FetchResponse) outcome \<times> Conn) run" where
  "Conn_Fetch peer req =
     Conn_do peer \<lparr>body_Key = FetchKey, body_Version = freq_APIVersion req, body_Encode = FetchRequest_Encode req\<rparr>
       (FetchResponse_Decode (freq_APIVersion req))"

definition Conn_AlterConfigs :: "(bytes \<Rightarrow> bytes) \<Rightarrow> AlterConfigsRequest \<Rightarrow> Conn \<Rightarrow> ((string, AlterConfigsResponse) outcome \<times> Conn) run" where
  "Conn_AlterConfigs peer req =
     Conn_do peer \<lparr>body_Key = AlterConfigsKey, body_Version = acreq_APIVersion req, body_Encode = AlterConfigsRequest_Encode req\<rparr>
       (AlterConfigsResponse_Decode (acreq_APIVersion req))"

definition Conn_DescribeConfigs :: "(bytes \<Rightarrow> bytes) \<Rightarrow> DescribeConfigsRequest \<Rightarrow> Conn \<Rightarrow> ((string, DescribeConfigsResponse) outcome \<times> Conn) run" where
  "Conn_DescribeConfigs peer req =
     Conn_do peer \<lparr>body_Key = DescribeConfigsKey, body_Version = dcreq_APIVersion req, body_Encode = DescribeConfigsRequest_Encode req\<rparr>
       (DescribeConfigsResponse_Decode (dcreq_APIVersion req))"

end
