(* ===== verification/Client_Correct.thy ===== *)
theory Client_Correct
  imports Client
begin

text \<open>
  Calls over a connection: the client of \<^verbatim>\<open>jocko/conn.go\<close> against the server of \<^verbatim>\<open>jocko/server.go\<close>.  What a
  call needs of its messages and its handler is one contract, and every API meets it.
\<close>

section \<open>The contract of a call\<close>

lemma decodes_dmap: "decodes m bs x \<Longrightarrow> decodes (dmap f m) bs (f x)"
  unfolding dmap_def by (rule decodes_bind_ret) simp_all

text \<open>What the server sends back for the bytes of a connection.\<close>

definition answers :: "('db, 'r) env \<Rightarrow> (nat \<Rightarrow> timings) \<Rightarrow> ('db, 'r) broker \<Rightarrow> bytes \<Rightarrow> bytes" where
  "answers E tm b conn = (case serve E tm 0 conn b of Returns (out, _) \<Rightarrow> out | _ \<Rightarrow> [])"

lemma Response_encodes:
  assumes "\<forall>p\<in>set ops. put_ok p" and "emits ops bs"
  shows "Encode (Response_Encode \<lparr>resp_CorrelationID = i, resp_Body = ops\<rparr>) = Ok (frame SizeField (PutUint32 i @ bs))"
proof -
  have "emits (PutInt32 i # ops) (put_bytes (PutInt32 i) @ bs)"
    using assms(2) by (intro emits_Cons) auto
  then have "emits (Response_Encode \<lparr>resp_CorrelationID = i, resp_Body = ops\<rparr>) (frame SizeField (PutUint32 i @ bs))"
    unfolding Response_Encode_def by (intro emits_frame) simp
  then show ?thesis using assms(1) by (intro Encode_emits) (auto simp: Response_Encode_def)
qed

locale remote_call =
  fixes key :: int16
    and request :: "'q \<Rightarrow> api_request"
    and qenc :: "'q \<Rightarrow> put list"
    and qdec :: "int16 \<Rightarrow> 'q dec"
    and response :: "'p \<Rightarrow> api_response"
    and penc :: "'p \<Rightarrow> put list"
    and handler :: "('db, 'r) env \<Rightarrow> timings \<Rightarrow> string \<Rightarrow> 'q \<Rightarrow> ('db, 'r) broker \<Rightarrow> ('p \<times> ('db, 'r) broker) run"
  assumes decode_law: "decode_request key v = dmap request (qdec v)"
    and run_law: "Run E tm h (request q) b = run_bind (handler E tm (rh_ClientID h) q b) (\<lambda>x b. Returns (response x, b))"
    and body_law: "body_ops (response x) = penc x"
begin

lemma read_one:
  assumes "length (req_ClientID r) \<le> MaxInt16" and "body_Key (req_Body r) = key"
    and "codec_ok (body_Encode (req_Body r)) (qdec (body_Version (req_Body r))) q"
    and "sum_list (map put_size (body_Encode (req_Body r))) < 2 ^ 30"
  shows "\<exists>bs n. Encode (Request_Encode r) = Ok bs \<and> read_request bs = Returns (Some (header_of r n, request q, []))"
proof -
  obtain body where body: "emits (body_Encode (req_Body r)) body" "decodes (qdec (body_Version (req_Body r))) body q"
      "\<forall>p\<in>set (body_Encode (req_Body r)). put_ok p"
    using assms(3) by (auto simp: codec_ok_def)
  let ?inner = "request_head r @ body" and ?n = "length (request_head r @ body)"
  let ?bs = "frame SizeField ?inner"
  have "Encode (Request_Encode r) = Ok ?bs"
    using Request_emits [OF body(1)] body(3) assms(1)
    by (intro Encode_emits) (auto simp: Request_Encode_def)
  moreover have "decodes (dbind RequestHeader_Decode (\<lambda>h. dbind (decode_request (rh_APIKey h) (rh_APIVersion h))
      (\<lambda>req. dret (h, req)))) ((PutUint32 (word_of_nat ?n) @ request_head r) @ body) (header_of r ?n, request q)"
    by (rule decodes_bind [OF RequestHeader_decodes [OF assms(1)]], rule decodes_bind_ret [OF _ refl])
      (use assms(2) decodes_dmap [OF body(2)] in \<open>simp add: header_of_def decode_law\<close>)
  moreover have small: "?n + 4 \<le> 2147483647" "?n \<noteq> 0"
    using assms(1,4) emits_size [OF body(1)] by (simp_all add: request_head_def string_field_def)
  moreover have "unat (word_of_nat ?n + 4 :: int32) = ?n + 4"
    using unat_word_of_nat_32 [OF small(1)] by simp
  moreover have "(word_of_nat ?n :: int32) \<noteq> 0"
    using small unat_word_of_nat_32 [of ?n] by auto
  ultimately show ?thesis
    by (intro exI [of _ ?bs] exI [of _ ?n])
      (simp add: read_request_def Let_def frame_def Decode_decodes)
qed

lemma answer:
  assumes "length (req_ClientID r) \<le> MaxInt16" and "body_Key (req_Body r) = key"
    and "codec_ok (body_Encode (req_Body r)) (qdec (body_Version (req_Body r))) q"
    and "sum_list (map put_size (body_Encode (req_Body r))) < 2 ^ 30"
    and "handler E (tm 0) (req_ClientID r) q b = Returns (x, b')"
    and "\<forall>p\<in>set (penc x). put_ok p" and "emits (penc x) body"
  shows "\<exists>bs. Encode (Request_Encode r) = Ok bs \<and>
    serve E tm 0 bs b = Returns (frame SizeField (PutUint32 (req_CorrelationID r) @ body), b')"
proof -
  obtain bs n where bs: "Encode (Request_Encode r) = Ok bs"
      "read_request bs = Returns (Some (header_of r n, request q, []))"
    using read_one [OF assms(1-4)] by blast
  have "Run E (tm 0) (header_of r n) (request q) b = Returns (response x, b')"
    using assms(5) by (simp add: run_law header_of_def)
  moreover have "handleResponse (header_of r n) (response x) =
      Returns (frame SizeField (PutUint32 (req_CorrelationID r) @ body))"
    using Response_encodes [OF assms(6,7)] by (simp add: handleResponse_def body_law header_of_def)
  ultimately show ?thesis
    using bs by (simp add: serve.simps [of E tm 0 bs] serve.simps [of E tm _ "[]"] read_request_def)
qed

text \<open>A call returns what the handler returns, unless that is longer than the read buffer of the client.\<close>

lemma call:
  assumes "cn_open c" and "cn_in c = []" and "length (cn_clientID c) \<le> MaxInt16"
    and "codec_ok (qenc q) (qdec v) q'" and "sum_list (map put_size (qenc q)) < 2 ^ 30"
    and "handler E (tm 0) (cn_clientID c) q' b = Returns (x, b')"
    and "codec_ok (penc x) pdec x'" and "sum_list (map put_size (penc x)) < 2 ^ 30"
  shows "if sum_list (map put_size (penc x)) \<le> 4096
    then Conn_do (answers E tm b) \<lparr>body_Key = key, body_Version = v, body_Encode = qenc q\<rparr> pdec c =
      Returns (Ok x', c\<lparr>cn_correlationID := cn_correlationID c + 1\<rparr>)
    else \<exists>c'. Conn_do (answers E tm b) \<lparr>body_Key = key, body_Version = v, body_Encode = qenc q\<rparr> pdec c =
      Returns (Err ''bufio: buffer full'', c') \<and> \<not> cn_open c'"
proof -
  let ?B = "\<lparr>body_Key = key, body_Version = v, body_Encode = qenc q\<rparr>" and ?i = "cn_correlationID c + 1"
  obtain body where body: "\<forall>p\<in>set (penc x). put_ok p" "emits (penc x) body" "decodes pdec body x'"
    using assms(7) by (auto simp: codec_ok_def)
  note size = emits_size [OF body(2)]
  let ?out = "frame SizeField (PutUint32 ?i @ body)"
  have "\<exists>bs. Encode (Request_Encode \<lparr>req_CorrelationID = ?i, req_ClientID = cn_clientID c, req_Body = ?B\<rparr>) = Ok bs \<and>
      serve E tm 0 bs b = Returns (?out, b')"
    using answer [of "\<lparr>req_CorrelationID = ?i, req_ClientID = cn_clientID c, req_Body = ?B\<rparr>"] assms(3-6) body(1,2)
    by simp
  then have "doRequest (answers E tm b) ?B c = Returns (?i, c\<lparr>cn_correlationID := ?i, cn_in := ?out\<rparr>)"
    using assms(1,2) by (auto simp: doRequest_def writeRequest_def answers_def)
  moreover have "waitResponse ?i (c\<lparr>cn_correlationID := ?i, cn_in := ?out\<rparr>) =
      Returns (int (length body), c\<lparr>cn_correlationID := ?i, cn_in := body\<rparr>)"
    using assms(1,8) size sint_word_of_nat_32 [of "length body"]
    by (simp add: waitResponse_def peekResponseSizeAndID_def Peek_def Discard_def frame_def)
  ultimately have do: "Conn_do (answers E tm b) ?B pdec c =
      run_bind (readResponse pdec (int (length body)) (c\<lparr>cn_correlationID := ?i, cn_in := body\<rparr>))
        (\<lambda>res c. Returns (res, case res of Ok _ \<Rightarrow> c | _ \<Rightarrow> Conn_Close c))"
    by (simp add: Conn_do_def)
  show ?thesis
    using assms(1,2) Decode_decodes [OF body(3)]
    by (auto simp: do size [symmetric] readResponse_def Peek_def Discard_def Conn_Close_def)
qed

end

section \<open>The APIs\<close>

text \<open>Every API the server implements is such a call.\<close>

lemmas api_keys = decode_request_def ProduceKey_def FetchKey_def OffsetsKey_def MetadataKey_def LeaderAndISRKey_def
  StopReplicaKey_def UpdateMetadataKey_def ControlledShutdownKey_def OffsetCommitKey_def OffsetFetchKey_def
  FindCoordinatorKey_def JoinGroupKey_def HeartbeatKey_def LeaveGroupKey_def SyncGroupKey_def
  DescribeGroupsKey_def ListGroupsKey_def SaslHandshakeKey_def APIVersionsKey_def CreateTopicsKey_def
  DeleteTopicsKey_def

interpretation produce_call: remote_call ProduceKey ProduceReq ProduceRequest_Encode ProduceRequest_Decode ProduceRes ProduceResponse_Encode
  "\<lambda>E tm _ r b. handleProduce E tm r b"
  by unfold_locales (simp_all add: api_keys)

interpretation fetch_call: remote_call FetchKey FetchReq FetchRequest_Encode FetchRequest_Decode FetchRes FetchResponse_Encode
  "\<lambda>E tm _ r b. handleFetch E tm r b"
  by unfold_locales (simp_all add: api_keys)

interpretation offsets_call: remote_call OffsetsKey OffsetsReq OffsetsRequest_Encode OffsetsRequest_Decode OffsetsRes OffsetsResponse_Encode
  "\<lambda>_ _ _ r b. handleOffsets r b"
  by unfold_locales (simp_all add: api_keys)

interpretation metadata_call: remote_call MetadataKey MetadataReq MetadataRequest_Encode MetadataRequest_Decode MetadataRes MetadataResponse_Encode
  "\<lambda>E _ _ r b. handleMetadata E r b"
  by unfold_locales (simp_all add: api_keys)

interpretation leader_and_isr_call: remote_call LeaderAndISRKey LeaderAndISRReq LeaderAndISRRequest_Encode LeaderAndISRRequest_Decode LeaderAndISRRes LeaderAndISRResponse_Encode
  "\<lambda>E _ _ r b. handleLeaderAndISR E r b"
  by unfold_locales (simp_all add: api_keys)

interpretation offset_fetch_call: remote_call OffsetFetchKey OffsetFetchReq OffsetFetchRequest_Encode OffsetFetchRequest_Decode OffsetFetchRes OffsetFetchResponse_Encode
  "\<lambda>_ _ _ r b. Returns (handleOffsetFetch r, b)"
  by unfold_locales (simp_all add: api_keys)

interpretation find_coordinator_call: remote_call FindCoordinatorKey FindCoordinatorReq FindCoordinatorRequest_Encode FindCoordinatorRequest_Decode FindCoordinatorRes FindCoordinatorResponse_Encode
  "\<lambda>E _ _ r b. handleFindCoordinator E r b"
  by unfold_locales (simp_all add: api_keys)

interpretation join_group_call: remote_call JoinGroupKey JoinGroupReq JoinGroupRequest_Encode JoinGroupRequest_Decode JoinGroupRes JoinGroupResponse_Encode
  "\<lambda>E _ client r b. handleJoinGroup E client r b"
  by unfold_locales (simp_all add: api_keys)

interpretation heartbeat_call: remote_call HeartbeatKey HeartbeatReq HeartbeatRequest_Encode HeartbeatRequest_Decode HeartbeatRes HeartbeatResponse_Encode
  "\<lambda>E _ _ r b. handleHeartbeat E r b"
  by unfold_locales (simp_all add: api_keys)

interpretation leave_group_call: remote_call LeaveGroupKey LeaveGroupReq LeaveGroupRequest_Encode LeaveGroupRequest_Decode LeaveGroupRes LeaveGroupResponse_Encode
  "\<lambda>E _ _ r b. handleLeaveGroup E r b"
  by unfold_locales (simp_all add: api_keys)

interpretation sync_group_call: remote_call SyncGroupKey SyncGroupReq SyncGroupRequest_Encode SyncGroupRequest_Decode SyncGroupRes SyncGroupResponse_Encode
  "\<lambda>E _ _ r b. handleSyncGroup E r b"
  by unfold_locales (simp_all add: api_keys)

interpretation describe_groups_call: remote_call DescribeGroupsKey DescribeGroupsReq DescribeGroupsRequest_Encode DescribeGroupsRequest_Decode DescribeGroupsRes DescribeGroupsResponse_Encode
  "\<lambda>E _ _ r b. handleDescribeGroups E r b"
  by unfold_locales (simp_all add: api_keys)

interpretation list_groups_call: remote_call ListGroupsKey ListGroupsReq ListGroupsRequest_Encode ListGroupsRequest_Decode ListGroupsRes ListGroupsResponse_Encode
  "\<lambda>E _ _ r b. handleListGroups E r b"
  by unfold_locales (simp_all add: api_keys)

interpretation api_versions_call: remote_call APIVersionsKey APIVersionsReq APIVersionsRequest_Encode APIVersionsRequest_Decode APIVersionsRes APIVersionsResponse_Encode
  "\<lambda>_ _ _ r b. Returns (handleAPIVersions r, b)"
  by unfold_locales (simp_all add: api_keys)

interpretation create_topics_call: remote_call CreateTopicsKey CreateTopicsReq CreateTopicRequests_Encode CreateTopicRequests_Decode CreateTopicsRes CreateTopicsResponse_Encode
  "\<lambda>E tm _ r b. handleCreateTopic E (\<lambda>i. tm i 0) r b"
  by unfold_locales (simp_all add: api_keys)

interpretation delete_topics_call: remote_call DeleteTopicsKey DeleteTopicsReq DeleteTopicsRequest_Encode DeleteTopicsRequest_Decode DeleteTopicsRes DeleteTopicsResponse_Encode
  "\<lambda>E tm _ r b. handleDeleteTopics E (\<lambda>i. tm i 0) r b"
  by unfold_locales (simp_all add: api_keys)

text \<open>A request with a key that is in none of them cannot be read, whatever follows the key.\<close>

lemma header_key: "RequestHeader_Decode (NewDecoder bs) = (Ok h, d) \<Longrightarrow> rh_APIKey h = Uint16 (drop 4 bs)"
  by (auto simp: RequestHeader_Decode_def dbind_def dInt32_def dInt16_def dret_def NewDecoder_def advance_def
      split: if_splits prod.splits outcome.splits)

lemma decode_request_unknown: "20 < sint key \<Longrightarrow> decode_request key v = dpanic"
  by (auto simp: api_keys)

lemma read_request_unknown:
  assumes "4 \<le> length conn" and "Uint32 (take 4 conn) \<noteq> 0" and "6 \<le> unat (Uint32 (take 4 conn) + 4)" and "20 < sint (Uint16 (drop 4 conn))"
  shows "read_request conn = Panics"
proof -
  let ?n = "unat (Uint32 (take 4 conn) + 4)"
  let ?m = "dbind RequestHeader_Decode (\<lambda>h. dbind (decode_request (rh_APIKey h) (rh_APIVersion h)) (\<lambda>req. dret (h, req)))"
  have key: "Uint16 (drop 4 (take ?n conn)) = Uint16 (drop 4 conn)"
    using assms(3) by (simp add: Uint16_def drop_take min_def)
  have "Decode ?m (take ?n conn) \<noteq> Ok x" for x
  proof (cases "RequestHeader_Decode (NewDecoder (take ?n conn))")
    case (Pair r d)
    show ?thesis
    proof (cases r)
      case (Ok h)
      from header_key [OF Pair [unfolded Ok]] assms(4) have "20 < sint (rh_APIKey h)" by (simp add: key)
      with Pair Ok show ?thesis
        by (simp add: Decode_def dbind_def [of RequestHeader_Decode] decode_request_unknown) (simp add: dbind_def dpanic_def)
    qed (use Pair in \<open>simp_all add: Decode_def dbind_def\<close>)
  qed
  with assms show ?thesis
    by (auto simp: read_request_def Let_def split: outcome.split)
qed

end
