(* ===== verification/Dialer.thy ===== *)
theory Dialer
  imports Client_Correct
begin

text \<open>
  Opening connections and their deadlines (\<^verbatim>\<open>jocko/dialer.go\<close>, \<^verbatim>\<open>connDeadline\<close> in \<^verbatim>\<open>jocko/conn.go\<close>).  The network, the resolver and
  the TLS handshake are parameters.
\<close>

section \<open>Dialling\<close>

text \<open>What the other side of a connection sends back for what it is sent.\<close>

type_synonym peer = "bytes \<Rightarrow> bytes"

text \<open>The fields of a dialer that decide what happens; the others are passed to the network as they are, or never read.\<close>

record Dialer =
  di_ClientID :: string
  di_Timeout :: duration
  di_Deadline :: go_time
  di_Resolver :: "(string \<Rightarrow> (string, string list) outcome) option"
  di_TLS :: "(peer \<Rightarrow> (string, peer) outcome) option"
  di_SASL :: "(string \<times> string) option"

definition NewDialer :: "string \<Rightarrow> Dialer" where
  "NewDialer clientID = \<lparr>di_ClientID = clientID, di_Timeout = 10000000000, di_Deadline = zero_time, di_Resolver = None,
     di_TLS = None, di_SASL = None\<rparr>"

text \<open>The deadline of the context: that of the timeout or that of the dialer, whichever is earlier.\<close>

definition dial_deadline :: "go_time \<Rightarrow> Dialer \<Rightarrow> go_time option" where
  "dial_deadline now d =
     (let t = (if di_Timeout d \<noteq> 0 then Some (now + sint (di_Timeout d)) else None) in
      if di_Deadline d = zero_time then t
      else Some (case t of None \<Rightarrow> di_Deadline d | Some u \<Rightarrow> min u (di_Deadline d)))"

text \<open>What a malformed address is taken for, and \<^verbatim>\<open>net.JoinHostPort\<close>.\<close>

definition splitHostPort :: "string \<Rightarrow> string \<times> string" where
  "splitHostPort s = (let (host, port) = (case SplitHostPort s of Ok hp \<Rightarrow> hp | _ \<Rightarrow> ([], [])) in
     (if host = [] \<and> port = [] then s else host, port))"

definition JoinHostPort :: "string \<Rightarrow> string \<Rightarrow> string" where
  "JoinHostPort host port =
     (if CHR '':'' \<in> set host then ''['' @ host @ '']:'' @ port else host @ '':'' @ port)"

text \<open>The address the resolver's answer stands for: its first host, with the port that was asked for if there was one.\<close>

definition resolve :: "(string \<Rightarrow> (string, string list) outcome) \<Rightarrow> string \<Rightarrow> (string, string) outcome" where
  "resolve lookup address =
     (let (host, port) = splitHostPort address in
      out_bind (lookup host) (\<lambda>addrs.
        let address = (case addrs of a # _ \<Rightarrow> a | [] \<Rightarrow> address) in
        Ok (if port \<noteq> [] then JoinHostPort (fst (splitHostPort address)) port else address)))"

text \<open>\<open>expired\<close> is the error of the context, if it ends before the handshake does.\<close>

definition connectTLS :: "string option \<Rightarrow> (peer \<Rightarrow> (string, peer) outcome) \<Rightarrow> peer \<Rightarrow> (string, peer) outcome" where
  "connectTLS expired handshake conn = (case expired of Some e \<Rightarrow> Err e | None \<Rightarrow> handshake conn)"

text \<open>The bytes SASL plain authentication sends.\<close>

definition sasl_plain :: "string \<Rightarrow> string \<Rightarrow> bytes" where
  "sasl_plain user pass =
     (let auth = 0 # bytes_of_string user @ 0 # bytes_of_string pass in PutUint32 (word_of_nat (length auth)) @ auth)"

text \<open>The answer to the login is four bytes that nobody looks at; what comes behind them stays unread.\<close>

definition connectSASLPlain :: "string \<times> string \<Rightarrow> peer \<Rightarrow> (string, bytes) outcome" where
  "connectSASLPlain sasl conn =
     (let answer = conn (sasl_plain (fst sasl) (snd sasl)) in
      if answer = [] then Err ''EOF''
      else if length answer < 4 then Err ''unexpected EOF''
      else Ok (drop 4 answer))"

definition dialContext :: "(go_time option \<Rightarrow> string \<Rightarrow> (string, peer) outcome) \<Rightarrow> string option \<Rightarrow> go_time option \<Rightarrow> Dialer \<Rightarrow>
    string \<Rightarrow> (string, peer \<times> bytes) outcome" where
  "dialContext dial expired deadline d address =
     out_bind (case di_Resolver d of Some lookup \<Rightarrow> resolve lookup address | None \<Rightarrow> Ok address) (\<lambda>address.
     out_bind (dial deadline address) (\<lambda>conn.
     out_bind (case di_TLS d of Some handshake \<Rightarrow> connectTLS expired handshake conn | None \<Rightarrow> Ok conn) (\<lambda>conn.
     out_bind (case di_SASL d of Some sasl \<Rightarrow> connectSASLPlain sasl conn | None \<Rightarrow> Ok []) (\<lambda>unread.
     Ok (conn, unread)))))"

definition DialContext :: "(go_time option \<Rightarrow> string \<Rightarrow> (string, peer) outcome) \<Rightarrow> string option \<Rightarrow> go_time \<Rightarrow> Dialer \<Rightarrow>
    string \<Rightarrow> (string, peer \<times> Conn) outcome" where
  "DialContext dial expired now d address =
     out_bind (dialContext dial expired (dial_deadline now d) d address) (\<lambda>(conn, unread).
       Ok (conn, (NewConn (di_ClientID d))\<lparr>cn_in := unread\<rparr>))"

text \<open>\<^verbatim>\<open>Dial\<close> with the default dialer.\<close>

definition Dial :: "(go_time option \<Rightarrow> string \<Rightarrow> (string, peer) outcome) \<Rightarrow> go_time \<Rightarrow> string \<Rightarrow> (string, peer \<times> Conn) outcome" where
  "Dial dial now address = DialContext dial None now (NewDialer ''jocko'') address"

lemma Dial_plain:
  "Dial dial now address =
     out_bind (dial (Some (now + 10000000000)) address) (\<lambda>conn. Ok (conn, NewConn ''jocko''))"
  by (cases "dial (Some (now + 10000000000)) address")
    (simp_all add: Dial_def DialContext_def dialContext_def NewDialer_def dial_deadline_def NewConn_def)

lemma dial_deadline_early: "dial_deadline now d = Some t \<Longrightarrow> di_Deadline d \<noteq> zero_time \<Longrightarrow> t \<le> di_Deadline d"
  by (auto simp: dial_deadline_def Let_def split: option.splits if_splits)

text \<open>
  The login is not a request: the server takes its first two bytes, a zero and the start of the user name, for the key of an API.
\<close>

lemma sasl_plain_unread:
  assumes "user = c # cs" and "(20 :: nat) < of_char c" and "length user + length pass < 2 ^ 30"
  shows "read_request (sasl_plain user pass @ rest) = Panics"
proof -
  define auth where "auth = 0 # bytes_of_string user @ 0 # bytes_of_string pass"
  have b: "sasl_plain user pass @ rest = PutUint32 (word_of_nat (length auth)) @ auth @ rest" by (simp add: sasl_plain_def auth_def Let_def)
  have len: "2 \<le> length auth" "length auth + 4 \<le> 2147483647" using assms(3) by (simp_all add: auth_def)
  have n: "unat (word_of_nat (length auth) :: int32) = length auth" "unat (word_of_nat (length auth) + 4 :: int32) = length auth + 4"
    using len unat_word_of_nat_32 [of "length auth"] unat_word_of_nat_32 [of "length auth + 4"] by simp_all
  have "of_char c \<le> (32767 :: nat)" using of_char_less [of c] by linarith
  from sint_word_of_nat_16 [OF this] have key: "20 < sint (Uint16 (auth @ rest))"
    using assms(1,2) by (simp add: auth_def bytes_of_string_def Uint16_small of_char_byte)
  show ?thesis unfolding b
    by (rule read_request_unknown) (use len n key in \<open>auto simp: Uint32_Put [of _ "[]", simplified]\<close>)
qed

section \<open>Deadlines\<close>

text \<open>The deadlines of the network connection; of \<open>connDeadline\<close> it is only known whether it points to that connection.\<close>

record socket =
  sk_read :: go_time
  sk_write :: go_time

record connDeadline =
  cd_value :: go_time
  cd_rconn :: bool
  cd_wconn :: bool

definition setDeadline :: "go_time \<Rightarrow> connDeadline \<times> socket \<Rightarrow> connDeadline \<times> socket" where
  "setDeadline t ds = (case ds of (d, k) \<Rightarrow>
     (d\<lparr>cd_value := t\<rparr>, k\<lparr>sk_read := if cd_rconn d then t else sk_read k, sk_write := if cd_wconn d then t else sk_write k\<rparr>))"

definition setConnReadDeadline :: "connDeadline \<times> socket \<Rightarrow> go_time \<times> connDeadline \<times> socket" where
  "setConnReadDeadline ds = (case ds of (d, k) \<Rightarrow> (cd_value d, d\<lparr>cd_rconn := True\<rparr>, k\<lparr>sk_read := cd_value d\<rparr>))"

definition setConnWriteDeadline :: "connDeadline \<times> socket \<Rightarrow> go_time \<times> connDeadline \<times> socket" where
  "setConnWriteDeadline ds = (case ds of (d, k) \<Rightarrow> (cd_value d, d\<lparr>cd_wconn := True\<rparr>, k\<lparr>sk_write := cd_value d\<rparr>))"

definition unsetConnReadDeadline :: "connDeadline \<Rightarrow> connDeadline" where
  "unsetConnReadDeadline d = d\<lparr>cd_rconn := False\<rparr>"

definition unsetConnWriteDeadline :: "connDeadline \<Rightarrow> connDeadline" where
  "unsetConnWriteDeadline d = d\<lparr>cd_wconn := False\<rparr>"

text \<open>The part of a \<^verbatim>\<open>Conn\<close> that deadlines are about.\<close>

record timed_conn =
  tc_rdeadline :: connDeadline
  tc_wdeadline :: connDeadline
  tc_conn :: socket

definition SetReadDeadline :: "go_time \<Rightarrow> timed_conn \<Rightarrow> timed_conn" where
  "SetReadDeadline t c = (case setDeadline t (tc_rdeadline c, tc_conn c) of (d, k) \<Rightarrow> c\<lparr>tc_rdeadline := d, tc_conn := k\<rparr>)"

definition SetWriteDeadline :: "go_time \<Rightarrow> timed_conn \<Rightarrow> timed_conn" where
  "SetWriteDeadline t c = (case setDeadline t (tc_wdeadline c, tc_conn c) of (d, k) \<Rightarrow> c\<lparr>tc_wdeadline := d, tc_conn := k\<rparr>)"

definition SetDeadline :: "go_time \<Rightarrow> timed_conn \<Rightarrow> timed_conn" where
  "SetDeadline t c = SetWriteDeadline t (SetReadDeadline t c)"

text \<open>
  What a user of a connection and its calls do to the deadlines, in any order.  Every call is a read operation: it takes the read
  deadline for the write of its request (\<^verbatim>\<open>doRequest\<close>) and for the read of its response (\<^verbatim>\<open>waitResponse\<close>, \<^verbatim>\<open>do\<close>).
\<close>

inductive deadline_step :: "timed_conn \<Rightarrow> timed_conn \<Rightarrow> bool" where
  deadline: "deadline_step c (SetDeadline t c)"
| read_deadline: "deadline_step c (SetReadDeadline t c)"
| write_deadline: "deadline_step c (SetWriteDeadline t c)"
| write_begins: "setConnWriteDeadline (tc_rdeadline c, tc_conn c) = (t, d, k) \<Longrightarrow> deadline_step c (c\<lparr>tc_rdeadline := d, tc_conn := k\<rparr>)"
| write_ends: "deadline_step c (c\<lparr>tc_rdeadline := unsetConnWriteDeadline (tc_rdeadline c)\<rparr>)"
| read_begins: "setConnReadDeadline (tc_rdeadline c, tc_conn c) = (t, d, k) \<Longrightarrow> deadline_step c (c\<lparr>tc_rdeadline := d, tc_conn := k\<rparr>)"
| read_ends: "deadline_step c (c\<lparr>tc_rdeadline := unsetConnReadDeadline (tc_rdeadline c)\<rparr>)"

lemmas deadline_defs = setDeadline_def setConnReadDeadline_def setConnWriteDeadline_def unsetConnReadDeadline_def
  unsetConnWriteDeadline_def SetDeadline_def SetReadDeadline_def SetWriteDeadline_def

abbreviation unused :: "connDeadline \<Rightarrow> bool" where
  "unused d \<equiv> \<not> cd_rconn d \<and> \<not> cd_wconn d"

lemma deadline_step_unused: "deadline_step c c' \<Longrightarrow> unused (tc_wdeadline c) \<Longrightarrow> unused (tc_wdeadline c')"
  by (induction rule: deadline_step.induct) (auto simp: deadline_defs)

text \<open>So a write deadline never gets to the network, at any moment of any call.\<close>

lemma write_deadline_not_applied:
  assumes "deadline_step\<^sup>*\<^sup>* c c'" and "unused (tc_wdeadline c)"
  shows "tc_conn (SetWriteDeadline t c') = tc_conn c'"
proof -
  from assms have "unused (tc_wdeadline c')"
    by (induction rule: rtranclp_induct) (auto dest: deadline_step_unused)
  then show ?thesis by (cases "tc_conn c'") (simp add: deadline_defs)
qed

end
