(* ===== verification/Server_Queues.thy ===== *)
theory Server_Queues
  imports Broker_Correct "HOL-Library.Sublist"
begin

text \<open>
  The server with its goroutines (\<^verbatim>\<open>Server\<close> in \<^verbatim>\<open>jocko/server.go\<close>, \<^verbatim>\<open>Context\<close> in \<^verbatim>\<open>jocko/context.go\<close>): one reader for each
  connection, the queue of requests, the broker's loop, the queue of responses and the writer, in every order in which
  they can take turns, next to everything else that happens to the broker.
\<close>

section \<open>State\<close>

text \<open>What goes through the queues: the number of the connection, the header, and the request or the response.\<close>

record Context =
  cx_conn :: nat
  cx_header :: RequestHeader
  cx_req :: "api_request option"
  cx_res :: "api_response option"

text \<open>
  A connection: all that its peer sends before it ends, what of it is unread, what has been written back, whether writing is
  still possible, whether its reader still runs, and the request the reader waits to put in the queue.
\<close>

record connection =
  nc_input :: bytes
  nc_rest :: bytes
  nc_out :: bytes
  nc_writable :: bool
  nc_reading :: bool
  nc_waiting :: "Context option"

text \<open>
  \<open>sv_answer\<close> is the response \<^verbatim>\<open>Run\<close> waits to put in the queue, \<open>sv_vars\<close> the variables of the broker's leader loop,
  \<open>sv_crashed\<close> whether a panic has ended the process.
\<close>

record ('db, 'r) Server =
  sv_listening :: bool
  sv_shutdown :: bool
  sv_crashed :: bool
  sv_conns :: "connection list"
  sv_requestCh :: "Context list"
  sv_answer :: "Context option"
  sv_responseCh :: "Context list"
  sv_vars :: "leader_vars option"
  sv_handler :: "('db, 'r) broker"

definition NewServer :: "('db, 'r) broker \<Rightarrow> ('db, 'r) Server" where
  "NewServer b = \<lparr>sv_listening = False, sv_shutdown = False, sv_crashed = False, sv_conns = [], sv_requestCh = [],
     sv_answer = None, sv_responseCh = [], sv_vars = None, sv_handler = b\<rparr>"

text \<open>\<open>listen\<close> gives the error of resolving an address and listening on it; the goroutines are the steps below.\<close>

definition Start :: "(string \<Rightarrow> string option) \<Rightarrow> ('db, 'r) Server \<Rightarrow> string option \<times> ('db, 'r) Server" where
  "Start listen s =
     (case listen (cf_Addr (bk_config (sv_handler s))) of
        Some e \<Rightarrow> (Some e, s)
      | None \<Rightarrow> (None, s\<lparr>sv_listening := True\<rparr>))"

text \<open>
  The broker's \<^verbatim>\<open>Shutdown\<close> gives no error, and its leader loop ends with it.  \<open>closing\<close> is the error of closing the listener; one
  that was never opened reports an invalid argument.
\<close>

definition Server_Shutdown :: "string option \<Rightarrow> ('db, 'r) Server \<Rightarrow> string option \<times> ('db, 'r) Server" where
  "Server_Shutdown closing s =
     (if sv_shutdown s then (None, s)
      else let s = s\<lparr>sv_shutdown := True, sv_vars := None, sv_handler := Shutdown (end_loop (sv_vars s) (sv_handler s))\<rparr> in
        if \<not> sv_listening s then (Some ''invalid argument'', s)
        else case closing of Some e \<Rightarrow> (Some e, s) | None \<Rightarrow> (None, s\<lparr>sv_listening := False\<rparr>))"

section \<open>Steps\<close>

definition queue_size :: nat where "queue_size = 1024"

definition new_connection :: "bytes \<Rightarrow> connection" where
  "new_connection input = \<lparr>nc_input = input, nc_rest = input, nc_out = [], nc_writable = True, nc_reading = True, nc_waiting = None\<rparr>"

abbreviation set_conn :: "nat \<Rightarrow> connection \<Rightarrow> ('db, 'r) Server \<Rightarrow> ('db, 'r) Server" where
  "set_conn i c s \<equiv> s\<lparr>sv_conns := (sv_conns s)[i := c]\<rparr>"

text \<open>What is seen of a step from outside: that the broker has handled a request, and with which response.\<close>

datatype server_event = Handled Context Context | Silent

text \<open>
  The reader of a connection reads a request (or the end, which closes the connection) and puts it in the queue when
  there is room; \<^verbatim>\<open>Run\<close> takes the first request and handles it, and puts the response in the other queue when there is room; the writer
  takes the first response and writes it, whole, or in part when the connection breaks, or not at all when it is closed.  After a shutdown the
  listener accepts no more, while the other goroutines go on: the \<^verbatim>\<open>break\<close> on the shutdown only leaves the \<^verbatim>\<open>select\<close>.  A panic of any of
  them ends the process.
\<close>

inductive server_step :: "('db, 'r) env \<Rightarrow> ('db, 'r) Server \<Rightarrow> server_event \<Rightarrow> ('db, 'r) Server \<Rightarrow> bool" for E where
  accept: "\<not> sv_crashed s \<Longrightarrow> sv_listening s \<Longrightarrow> \<not> sv_shutdown s \<Longrightarrow>
    server_step E s Silent (s\<lparr>sv_conns := sv_conns s @ [new_connection input]\<rparr>)"
| read: "\<not> sv_crashed s \<Longrightarrow> i < length (sv_conns s) \<Longrightarrow> sv_conns s ! i = c \<Longrightarrow> nc_reading c \<Longrightarrow> nc_waiting c = None \<Longrightarrow>
    read_request (nc_rest c) = Returns (Some (h, req, rest)) \<Longrightarrow>
    server_step E s Silent (set_conn i (c\<lparr>nc_rest := rest,
      nc_waiting := Some \<lparr>cx_conn = i, cx_header = h, cx_req = Some req, cx_res = None\<rparr>\<rparr>) s)"
| ended: "\<not> sv_crashed s \<Longrightarrow> i < length (sv_conns s) \<Longrightarrow> sv_conns s ! i = c \<Longrightarrow> nc_reading c \<Longrightarrow> nc_waiting c = None \<Longrightarrow>
    read_request (nc_rest c) = Returns None \<Longrightarrow>
    server_step E s Silent (set_conn i (c\<lparr>nc_reading := False, nc_writable := False\<rparr>) s)"
| read_panics: "\<not> sv_crashed s \<Longrightarrow> i < length (sv_conns s) \<Longrightarrow> sv_conns s ! i = c \<Longrightarrow> nc_reading c \<Longrightarrow> nc_waiting c = None \<Longrightarrow>
    read_request (nc_rest c) = Panics \<Longrightarrow> server_step E s Silent (s\<lparr>sv_crashed := True\<rparr>)"
| enqueue: "\<not> sv_crashed s \<Longrightarrow> i < length (sv_conns s) \<Longrightarrow> sv_conns s ! i = c \<Longrightarrow> nc_waiting c = Some q \<Longrightarrow>
    length (sv_requestCh s) < queue_size \<Longrightarrow>
    server_step E s Silent ((set_conn i (c\<lparr>nc_waiting := None\<rparr>) s)\<lparr>sv_requestCh := sv_requestCh s @ [q]\<rparr>)"
| handle: "\<not> sv_crashed s \<Longrightarrow> sv_requestCh s = q # qs \<Longrightarrow> sv_answer s = None \<Longrightarrow> cx_req q = Some req \<Longrightarrow>
    Run E tm (cx_header q) req (sv_handler s) = Returns (res, b') \<Longrightarrow> a = q\<lparr>cx_req := None, cx_res := Some res\<rparr> \<Longrightarrow>
    server_step E s (Handled q a) (s\<lparr>sv_requestCh := qs, sv_answer := Some a, sv_handler := b'\<rparr>)"
| handle_panics: "\<not> sv_crashed s \<Longrightarrow> sv_requestCh s = q # qs \<Longrightarrow> sv_answer s = None \<Longrightarrow> cx_req q = Some req \<Longrightarrow>
    Run E tm (cx_header q) req (sv_handler s) = Panics \<Longrightarrow> server_step E s Silent (s\<lparr>sv_crashed := True\<rparr>)"
| respond: "\<not> sv_crashed s \<Longrightarrow> sv_answer s = Some a \<Longrightarrow> length (sv_responseCh s) < queue_size \<Longrightarrow>
    server_step E s Silent (s\<lparr>sv_answer := None, sv_responseCh := sv_responseCh s @ [a]\<rparr>)"
| written: "\<not> sv_crashed s \<Longrightarrow> sv_responseCh s = a # as \<Longrightarrow> cx_res a = Some res \<Longrightarrow> handleResponse (cx_header a) res = Returns bs \<Longrightarrow>
    i = cx_conn a \<Longrightarrow> c = sv_conns s ! i \<Longrightarrow> nc_writable c \<Longrightarrow>
    server_step E s Silent ((set_conn i (c\<lparr>nc_out := nc_out c @ bs\<rparr>) s)\<lparr>sv_responseCh := as\<rparr>)"
| write_breaks: "\<not> sv_crashed s \<Longrightarrow> sv_responseCh s = a # as \<Longrightarrow> cx_res a = Some res \<Longrightarrow> handleResponse (cx_header a) res = Returns bs \<Longrightarrow>
    i = cx_conn a \<Longrightarrow> c = sv_conns s ! i \<Longrightarrow> nc_writable c \<Longrightarrow>
    server_step E s Silent ((set_conn i (c\<lparr>nc_out := nc_out c @ take n bs, nc_writable := False\<rparr>) s)\<lparr>sv_responseCh := as\<rparr>)"
| write_closed: "\<not> sv_crashed s \<Longrightarrow> sv_responseCh s = a # as \<Longrightarrow> cx_res a = Some res \<Longrightarrow> handleResponse (cx_header a) res = Returns bs \<Longrightarrow>
    \<not> nc_writable (sv_conns s ! cx_conn a) \<Longrightarrow> server_step E s Silent (s\<lparr>sv_responseCh := as\<rparr>)"
| write_panics: "\<not> sv_crashed s \<Longrightarrow> sv_responseCh s = a # as \<Longrightarrow> cx_res a = Some res \<Longrightarrow> handleResponse (cx_header a) res = Panics \<Longrightarrow>
    server_step E s Silent (s\<lparr>sv_crashed := True\<rparr>)"
| shut_down: "\<not> sv_crashed s \<Longrightarrow> Server_Shutdown closing s = (err, s') \<Longrightarrow> server_step E s Silent s'"
| inner: "\<not> sv_crashed s \<Longrightarrow> broker_step E (sv_vars s, sv_handler s) (lv', b') \<Longrightarrow>
    server_step E s Silent (s\<lparr>sv_vars := lv', sv_handler := b'\<rparr>)"

inductive server_run :: "('db, 'r) env \<Rightarrow> ('db, 'r) Server \<Rightarrow> server_event list \<Rightarrow> ('db, 'r) Server \<Rightarrow> bool" for E s0 where
  none: "server_run E s0 [] s0"
| more: "server_run E s0 es s \<Longrightarrow> server_step E s e s' \<Longrightarrow> server_run E s0 (es @ [e]) s'"

section \<open>The broker behind the queues\<close>

lemma server_step_reachable:
  assumes "server_step E s e s'" and "reachable E (sv_vars s, sv_handler s)"
  shows "reachable E (sv_vars s', sv_handler s')"
  using assms(1)
proof cases
  case (handle q qs req tm res b' a)
  then have "broker_step E (sv_vars s, sv_handler s) (sv_vars s, b')" by (blast intro: request)
  with handle assms(2) show ?thesis by (auto intro: stepped)
next
  case (shut_down closing err)
  have "broker_step E (sv_vars s, sv_handler s) (None, Shutdown (end_loop (sv_vars s) (sv_handler s)))"
    by (rule event [of E ShutdownEvent]) simp
  with shut_down assms(2) show ?thesis
    by (auto simp: Server_Shutdown_def Let_def split: if_splits option.splits intro: stepped)
next
  case (inner lv' b')
  with assms(2) show ?thesis by (auto intro: stepped)
qed (use assms(2) in simp_all)

text \<open>Every response is what \<^verbatim>\<open>Run\<close> gives for its request in a state the broker can reach.\<close>

definition answered_by :: "('db, 'r) env \<Rightarrow> Context \<Rightarrow> Context \<Rightarrow> bool" where
  "answered_by E q a \<longleftrightarrow> (\<exists>lv b tm req res b'. reachable E (lv, b) \<and> cx_req q = Some req \<and>
     Run E tm (cx_header q) req b = Returns (res, b') \<and> a = q\<lparr>cx_req := None, cx_res := Some res\<rparr>)"

lemma server_run_reachable:
  assumes "server_run E s0 es s" and "reachable E (sv_vars s0, sv_handler s0)"
  shows "reachable E (sv_vars s, sv_handler s) \<and> (\<forall>q a. Handled q a \<in> set es \<longrightarrow> answered_by E q a)"
  using assms(1)
proof induction
  case (more es s e s')
  have "answered_by E q a" if "e = Handled q a" for q a
    using more.hyps(2) that more.IH unfolding answered_by_def by cases blast+
  with more server_step_reachable show ?case by fastforce
qed (use assms(2) in simp)

section \<open>Connections are served in order\<close>

text \<open>The requests a connection delivers before it ends or one of them cannot be read.\<close>

function requests_of :: "bytes \<Rightarrow> (RequestHeader \<times> api_request) list" where
  "requests_of conn =
     (case read_request conn of Returns (Some (h, req, rest)) \<Rightarrow> (h, req) # requests_of rest | _ \<Rightarrow> [])"
  by pat_completeness auto

termination by (relation "measure length") (auto dest: read_request_shorter)

declare requests_of.simps [simp del]

lemma requests_of_read [simp]: "read_request conn = Returns (Some (h, req, rest)) \<Longrightarrow> requests_of conn = (h, req) # requests_of rest"
  by (subst requests_of.simps) simp

lemma requests_of_end [simp]: "read_request conn = Returns None \<Longrightarrow> requests_of conn = []"
  by (subst requests_of.simps) simp

definition asked :: "Context \<Rightarrow> RequestHeader \<times> api_request" where
  "asked q = (cx_header q, the (cx_req q))"

definition answer_bytes :: "Context \<Rightarrow> bytes" where
  "answer_bytes a = (case cx_res a of Some res \<Rightarrow> (case handleResponse (cx_header a) res of Returns bs \<Rightarrow> bs | _ \<Rightarrow> []) | None \<Rightarrow> [])"

text \<open>The requests of a connection that have been handled, with their responses.\<close>

definition handled :: "nat \<Rightarrow> server_event list \<Rightarrow> (Context \<times> Context) list" where
  "handled i es = concat (map (\<lambda>e. case e of Handled q a \<Rightarrow> if cx_conn q = i then [(q, a)] else [] | Silent \<Rightarrow> []) es)"

lemma handled_snoc [simp]:
  "handled i [] = []"
  "handled i (es @ [Silent]) = handled i es"
  "handled i (es @ [Handled q a]) = handled i es @ (if cx_conn q = i then [(q, a)] else [])"
  by (simp_all add: handled_def)

lemma handled_events: "(q, a) \<in> set (handled i es) \<Longrightarrow> Handled q a \<in> set es"
  by (auto simp: handled_def split: server_event.splits if_splits)

abbreviation of_conn :: "nat \<Rightarrow> Context list \<Rightarrow> Context list" where
  "of_conn i \<equiv> filter (\<lambda>q. cx_conn q = i)"

abbreviation opt_list :: "'a option \<Rightarrow> 'a list" where
  "opt_list x \<equiv> (case x of None \<Rightarrow> [] | Some y \<Rightarrow> [y])"

text \<open>The requests of a connection on their way: handled, in the queue, with the reader, and unread.\<close>

definition requests_flow :: "server_event list \<Rightarrow> ('db, 'r) Server \<Rightarrow> nat \<Rightarrow> bool" where
  "requests_flow es s i \<longleftrightarrow> (let c = sv_conns s ! i in
     requests_of (nc_input c) = map (asked \<circ> fst) (handled i es) @ map asked (of_conn i (sv_requestCh s)) @
       map asked (opt_list (nc_waiting c)) @ requests_of (nc_rest c) \<and>
     pred_option (\<lambda>q. cx_conn q = i) (nc_waiting c) \<and> (\<not> nc_reading c \<longrightarrow> nc_waiting c = None \<and> requests_of (nc_rest c) = []))"

text \<open>The responses of a connection on their way: written, in the queue, and with the broker.\<close>

definition responses_flow :: "server_event list \<Rightarrow> ('db, 'r) Server \<Rightarrow> nat \<Rightarrow> bool" where
  "responses_flow es s i \<longleftrightarrow> (let c = sv_conns s ! i; all = concat (map (answer_bytes \<circ> snd) (handled i es)) in
     if nc_writable c then all = nc_out c @ concat (map answer_bytes (of_conn i (sv_responseCh s @ opt_list (sv_answer s))))
     else prefix (nc_out c) all)"

definition queues_ok :: "server_event list \<Rightarrow> ('db, 'r) Server \<Rightarrow> bool" where
  "queues_ok es s \<longleftrightarrow>
     (\<forall>i<length (sv_conns s). requests_flow es s i \<and> responses_flow es s i) \<and>
     (\<forall>i\<ge>length (sv_conns s). handled i es = []) \<and>
     (\<forall>q\<in>set (sv_requestCh s @ opt_list (sv_answer s) @ sv_responseCh s). cx_conn q < length (sv_conns s))"

lemmas flow_defs = requests_flow_def responses_flow_def Let_def

lemma flow_Silent [simp]:
  "requests_flow (es @ [Silent]) s i = requests_flow es s i" "responses_flow (es @ [Silent]) s i = responses_flow es s i"
  by (simp_all add: flow_defs)

lemma queues_okI:
  assumes "\<And>j. j < length (sv_conns s) \<Longrightarrow> requests_flow es s j" and "\<And>j. j < length (sv_conns s) \<Longrightarrow> responses_flow es s j"
    and "\<And>j. length (sv_conns s) \<le> j \<Longrightarrow> handled j es = []"
    and "\<And>q. q \<in> set (sv_requestCh s) \<or> sv_answer s = Some q \<or> q \<in> set (sv_responseCh s) \<Longrightarrow> cx_conn q < length (sv_conns s)"
  shows "queues_ok es s"
  using assms by (auto simp: queues_ok_def)

lemma queues_okD:
  assumes "queues_ok es s"
  shows "j < length (sv_conns s) \<Longrightarrow> requests_flow es s j" and "j < length (sv_conns s) \<Longrightarrow> responses_flow es s j"
    and "length (sv_conns s) \<le> j \<Longrightarrow> handled j es = []"
    and "q \<in> set (sv_requestCh s) \<Longrightarrow> cx_conn q < length (sv_conns s)" and "sv_answer s = Some q \<Longrightarrow> cx_conn q < length (sv_conns s)"
    and "q \<in> set (sv_responseCh s) \<Longrightarrow> cx_conn q < length (sv_conns s)"
  using assms by (auto simp: queues_ok_def)

text \<open>A step that leaves the queues and the connections alone.\<close>

lemma queues_ok_same:
  assumes "queues_ok es s" and "sv_conns s' = sv_conns s" and "sv_requestCh s' = sv_requestCh s" and "sv_answer s' = sv_answer s"
    and "sv_responseCh s' = sv_responseCh s"
  shows "queues_ok (es @ [Silent]) s'"
  using assms by (simp add: queues_ok_def flow_defs)

lemma queues_ok_accept:
  assumes "queues_ok es s"
  shows "queues_ok (es @ [Silent]) (s\<lparr>sv_conns := sv_conns s @ [new_connection input]\<rparr>)"
proof (rule queues_okI, goal_cases)
  case (1 j)
  have "of_conn (length (sv_conns s)) (sv_requestCh s) = []"
    unfolding filter_empty_conv using queues_okD(4) [OF assms] by (blast dest: less_imp_neq)
  with 1 queues_okD(1,3) [OF assms, of j] show ?case
    by (cases "j < length (sv_conns s)") (auto simp: flow_defs nth_append new_connection_def less_Suc_eq)
next
  case (2 j)
  have "of_conn (length (sv_conns s)) (sv_responseCh s @ opt_list (sv_answer s)) = []"
    unfolding filter_empty_conv using queues_okD(5,6) [OF assms] by (cases "sv_answer s") (auto dest: less_imp_neq)
  with 2 queues_okD(2,3) [OF assms, of j] show ?case
    by (cases "j < length (sv_conns s)") (auto simp: flow_defs nth_append new_connection_def less_Suc_eq)
next
  case (4 q)
  with queues_okD(4-6) [OF assms, of q] show ?case by (auto simp: less_Suc_eq)
qed (use queues_okD(3) [OF assms] in simp)

text \<open>A step that changes one connection, and possibly a queue.\<close>

lemma queues_ok_conn:
  assumes "queues_ok es s" and "i < length (sv_conns s)" and "sv_conns s' = (sv_conns s)[i := c]"
    and "\<And>j. j \<noteq> i \<Longrightarrow> of_conn j (sv_requestCh s') = of_conn j (sv_requestCh s)"
    and "\<And>j. j \<noteq> i \<Longrightarrow> of_conn j (sv_responseCh s') = of_conn j (sv_responseCh s)" and "sv_answer s' = sv_answer s"
    and "set (sv_requestCh s') \<union> set (sv_responseCh s') \<subseteq> set (sv_requestCh s) \<union> set (sv_responseCh s) \<union> {q. cx_conn q = i}"
    and "requests_flow es s i \<Longrightarrow> requests_flow es s' i" and "responses_flow es s i \<Longrightarrow> responses_flow es s' i"
  shows "queues_ok (es @ [Silent]) s'"
proof (rule queues_okI, goal_cases)
  case (1 j)
  show ?case
  proof (cases "j = i")
    case True
    with assms(2,8) queues_okD(1) [OF assms(1), of i] show ?thesis by simp
  next
    case False
    with 1 assms(3,4) queues_okD(1) [OF assms(1), of j] show ?thesis by (simp add: flow_defs)
  qed
next
  case (2 j)
  show ?case
  proof (cases "j = i")
    case True
    with assms(2,9) queues_okD(2) [OF assms(1), of i] show ?thesis by simp
  next
    case False
    with 2 assms(3,5,6) queues_okD(2) [OF assms(1), of j] show ?thesis by (simp add: flow_defs)
  qed
next
  case (4 q)
  then have "q \<in> set (sv_requestCh s) \<or> q \<in> set (sv_responseCh s) \<or> cx_conn q = i \<or> sv_answer s = Some q"
    using assms(7) unfolding assms(6) by blast
  with assms(2,3) queues_okD(4-6) [OF assms(1), of q] show ?case by auto
qed (use queues_okD(3) [OF assms(1)] assms(3) in simp)

lemma queues_ok_handle:
  assumes "queues_ok es s" and "sv_requestCh s = q # qs" and "sv_answer s = None" and "cx_conn a = cx_conn q"
  shows "queues_ok (es @ [Handled q a]) (s\<lparr>sv_requestCh := qs, sv_answer := Some a, sv_handler := b'\<rparr>)"
proof (rule queues_okI, goal_cases)
  case (1 j)
  with queues_okD(1) [OF assms(1), of j] assms(2) show ?case by (auto simp: flow_defs)
next
  case (2 j)
  with queues_okD(2) [OF assms(1), of j] assms(3,4) show ?case by (auto simp: flow_defs prefix_def)
next
  case (3 j)
  with queues_okD(3,4) [OF assms(1)] assms(2) show ?case by fastforce
next
  case (4 q')
  with queues_okD(4-6) [OF assms(1)] assms(2,4) show ?case by auto
qed

lemma queues_ok_respond:
  assumes "queues_ok es s" and "sv_answer s = Some a"
  shows "queues_ok (es @ [Silent]) (s\<lparr>sv_answer := None, sv_responseCh := sv_responseCh s @ [a]\<rparr>)"
proof (rule queues_okI, goal_cases)
  case (2 j)
  with queues_okD(2) [OF assms(1), of j] assms(2) show ?case by (simp add: flow_defs)
next
  case (4 q)
  with queues_okD(4-6) [OF assms(1)] assms(2) show ?case by auto
qed (use queues_okD(1,3) [OF assms(1)] in \<open>simp_all add: flow_defs\<close>)

lemma queues_ok_write:
  assumes "queues_ok es s" and "sv_responseCh s = a # as" and "nc_writable (sv_conns s ! cx_conn a)"
    and "w \<and> out = answer_bytes a \<or> \<not> w \<and> prefix out (answer_bytes a)"
    and "c' = (sv_conns s ! cx_conn a)\<lparr>nc_out := nc_out (sv_conns s ! cx_conn a) @ out, nc_writable := w\<rparr>"
  shows "queues_ok (es @ [Silent]) ((set_conn (cx_conn a) c' s)\<lparr>sv_responseCh := as\<rparr>)"
proof -
  have a: "cx_conn a < length (sv_conns s)" using queues_okD(6) [OF assms(1), of a] assms(2) by simp
  show ?thesis
  proof (rule queues_ok_conn [OF assms(1) a, where c = c'], goal_cases)
    case 6
    with assms(5) a show ?case by (simp add: flow_defs)
  next
    case 7
    from 7 have all: "concat (map (answer_bytes \<circ> snd) (handled (cx_conn a) es)) = nc_out (sv_conns s ! cx_conn a) @ answer_bytes a @
        concat (map answer_bytes (of_conn (cx_conn a) (as @ opt_list (sv_answer s))))"
      using assms(2,3) by (simp add: flow_defs)
    show ?case
    proof (cases w)
      case True
      with all a assms(4,5) show ?thesis by (simp add: flow_defs)
    next
      case False
      with assms(4) obtain rest where "answer_bytes a = out @ rest" by (auto simp: prefix_def)
      with False all a assms(5) show ?thesis by (simp add: flow_defs prefix_def)
    qed
  qed (use assms(2) in auto)
qed

lemma queues_ok_drop:
  assumes "queues_ok es s" and "sv_responseCh s = a # as" and "\<not> nc_writable (sv_conns s ! cx_conn a)"
  shows "queues_ok (es @ [Silent]) (s\<lparr>sv_responseCh := as\<rparr>)"
proof (rule queues_okI, goal_cases)
  case (2 j)
  with queues_okD(2) [OF assms(1), of j] assms(2,3) show ?case by (cases "j = cx_conn a") (simp_all add: flow_defs)
next
  case (4 q)
  with queues_okD(4-6) [OF assms(1)] assms(2) show ?case by auto
qed (use queues_okD(1,3) [OF assms(1)] in \<open>simp_all add: flow_defs\<close>)

lemma queues_ok_step:
  assumes "server_step E s e s'" and "queues_ok es s"
  shows "queues_ok (es @ [e]) s'"
  using assms(1)
proof cases
  case (accept input)
  with queues_ok_accept [OF assms(2)] show ?thesis by simp
next
  case (read i c h req rest)
  with assms(2) show ?thesis
    unfolding \<open>e = Silent\<close> by (intro queues_ok_conn [of es s i]) (auto simp: flow_defs asked_def)
next
  case (ended i c)
  with assms(2) show ?thesis
    unfolding \<open>e = Silent\<close> by (intro queues_ok_conn [of es s i]) (auto simp: flow_defs split: if_splits)
next
  case (enqueue i c q)
  with queues_okD(1) [OF assms(2), of i] have "cx_conn q = i" by (simp add: flow_defs)
  with enqueue assms(2) show ?thesis
    unfolding \<open>e = Silent\<close> by (intro queues_ok_conn [of es s i]) (auto simp: flow_defs)
next
  case (handle q qs req tm res b' a)
  with queues_ok_handle [OF assms(2)] show ?thesis by simp
next
  case (respond a)
  with queues_ok_respond [OF assms(2)] show ?thesis by simp
next
  case (written a as res bs i c)
  have "queues_ok (es @ [Silent]) ((set_conn (cx_conn a) (c\<lparr>nc_out := nc_out c @ bs\<rparr>) s)\<lparr>sv_responseCh := as\<rparr>)"
    by (rule queues_ok_write [OF assms(2), where w = True and out = bs]) (use written in \<open>simp_all add: answer_bytes_def\<close>)
  with written show ?thesis by simp
next
  case (write_breaks a as res bs i c n)
  then have "prefix (take n bs) (answer_bytes a)" by (simp add: answer_bytes_def take_is_prefix)
  with write_breaks queues_ok_write [OF assms(2), of a as False "take n bs"] show ?thesis by simp
next
  case (write_closed a as res bs)
  with queues_ok_drop [OF assms(2), of a as] show ?thesis by simp
next
  case (shut_down closing err)
  then have "sv_conns s' = sv_conns s \<and> sv_requestCh s' = sv_requestCh s \<and> sv_answer s' = sv_answer s \<and> sv_responseCh s' = sv_responseCh s"
    by (auto simp: Server_Shutdown_def Let_def split: if_splits option.splits)
  with shut_down(1) queues_ok_same [OF assms(2), of s'] show ?thesis by simp
qed (use queues_ok_same [OF assms(2), of s'] in simp_all)

lemma queues_ok_run:
  assumes "server_run E s0 es s" and "queues_ok [] s0"
  shows "queues_ok es s"
  using assms(1) by induction (use assms(2) queues_ok_step in auto)

lemma queues_ok_New [simp]: "queues_ok [] (NewServer b)" "queues_ok [] ((NewServer b)\<lparr>sv_listening := l\<rparr>)"
  by (simp_all add: queues_ok_def NewServer_def)

section \<open>The sequential server is one of its runs\<close>

lemma server_run_trans:
  assumes "server_run E s es s'" and "server_run E s' es' s''"
  shows "server_run E s (es @ es') s''"
  using assms(2) by induction (use assms(1) more in \<open>auto simp: append_assoc [symmetric] simp del: append_assoc\<close>)

lemma server_run_step: "server_step E s e s' \<Longrightarrow> server_run E s [e] s'"
  using more [OF none, of E s e s'] by simp

text \<open>A connection that is read while nothing is on its way.\<close>

definition idle_at :: "nat \<Rightarrow> ('db, 'r) Server \<Rightarrow> bool" where
  "idle_at i s \<longleftrightarrow> \<not> sv_crashed s \<and> sv_requestCh s = [] \<and> sv_answer s = None \<and> sv_responseCh s = [] \<and> i < length (sv_conns s) \<and>
     nc_reading (sv_conns s ! i) \<and> nc_writable (sv_conns s ! i) \<and> nc_waiting (sv_conns s ! i) = None"

lemma serve_one:
  assumes "idle_at i s" and "c = sv_conns s ! i" and "read_request (nc_rest c) = Returns (Some (h, req, rest))"
    and "Run E tm h req (sv_handler s) = Returns (res, b')" and "handleResponse h res = Returns bs"
  shows "\<exists>es. server_run E s es ((set_conn i (c\<lparr>nc_rest := rest, nc_out := nc_out c @ bs\<rparr>) s)\<lparr>sv_handler := b'\<rparr>)"
proof -
  let ?q = "\<lparr>cx_conn = i, cx_header = h, cx_req = Some req, cx_res = None\<rparr>"
  let ?a = "?q\<lparr>cx_req := None, cx_res := Some res\<rparr>"
  let ?c1 = "c\<lparr>nc_rest := rest, nc_waiting := Some ?q\<rparr>" and ?c2 = "c\<lparr>nc_rest := rest, nc_waiting := None\<rparr>"
  let ?c3 = "c\<lparr>nc_rest := rest, nc_waiting := None, nc_out := nc_out c @ bs\<rparr>"
  define s1 where "s1 = set_conn i ?c1 s"
  define s2 where "s2 = (set_conn i ?c2 s1)\<lparr>sv_requestCh := sv_requestCh s1 @ [?q]\<rparr>"
  define s3 where "s3 = s2\<lparr>sv_requestCh := [], sv_answer := Some ?a, sv_handler := b'\<rparr>"
  define s4 where "s4 = s3\<lparr>sv_answer := None, sv_responseCh := sv_responseCh s3 @ [?a]\<rparr>"
  define s5 where "s5 = (set_conn i ?c3 s4)\<lparr>sv_responseCh := []\<rparr>"
  have idle: "\<not> sv_crashed s" "sv_requestCh s = []" "sv_answer s = None" "sv_responseCh s = []" "i < length (sv_conns s)"
      "nc_reading c" "nc_writable c" "nc_waiting c = None"
    using assms(1,2) by (simp_all add: idle_at_def)
  have r1: "server_step E s Silent s1"
    unfolding s1_def by (rule read [OF idle(1,5) assms(2) [symmetric] idle(6,8) assms(3)])
  have s1: "\<not> sv_crashed s1" "i < length (sv_conns s1)" "sv_conns s1 ! i = ?c1" "length (sv_requestCh s1) < queue_size" "nc_waiting ?c1 = Some ?q"
    using idle by (simp_all add: s1_def queue_size_def)
  have r2: "server_step E s1 Silent s2"
    using enqueue [OF s1(1-3,5,4)] by (simp add: s2_def)
  have s2: "\<not> sv_crashed s2" "sv_requestCh s2 = [?q]" "sv_answer s2 = None" "cx_req ?q = Some req" "Run E tm (cx_header ?q) req (sv_handler s2) = Returns (res, b')"
    using idle assms(4) by (simp_all add: s2_def s1_def)
  have r3: "server_step E s2 (Handled ?q ?a) s3"
    unfolding s3_def by (rule handle [OF s2 refl])
  have s3: "\<not> sv_crashed s3" "sv_answer s3 = Some ?a" "length (sv_responseCh s3) < queue_size"
    using idle by (simp_all add: s3_def s2_def s1_def queue_size_def)
  have r4: "server_step E s3 Silent s4"
    unfolding s4_def by (rule respond [OF s3])
  have s4: "\<not> sv_crashed s4" "sv_responseCh s4 = [?a]" "cx_res ?a = Some res" "handleResponse (cx_header ?a) res = Returns bs" "i = cx_conn ?a"
      "?c2 = sv_conns s4 ! i" "nc_writable ?c2"
    using idle assms(5) by (simp_all add: s4_def s3_def s2_def s1_def)
  have r5: "server_step E s4 Silent s5"
    using written [OF s4] by (simp add: s5_def)
  have "s5 = (set_conn i (c\<lparr>nc_rest := rest, nc_out := nc_out c @ bs\<rparr>) s)\<lparr>sv_handler := b'\<rparr>"
    using idle(2-4,8) by (cases s; cases c) (simp add: s5_def s4_def s3_def s2_def s1_def)
  with more [OF more [OF more [OF more [OF server_run_step [OF r1] r2] r3] r4] r5] show ?thesis by auto
qed

lemma serve_cases:
  assumes "serve E tm k conn b = Returns (out, b')"
  obtains (over) "read_request conn = Returns None" and "out = []" and "b' = b"
  | (again) h req rest res b1 bs out' where "read_request conn = Returns (Some (h, req, rest))"
      and "Run E (tm k) h req b = Returns (res, b1)" and "handleResponse h res = Returns bs"
      and "serve E tm (Suc k) rest b1 = Returns (out', b')" and "out = bs @ out'"
proof -
  note serve = assms [unfolded serve.simps [of E tm k conn b]]
  show thesis
  proof (cases "read_request conn")
    case (Returns r)
    show thesis
    proof (cases r)
      case None
      with serve Returns over show thesis by simp
    next
      case (Some x)
      obtain h req rest where x: "x = (h, req, rest)" by (cases x)
      from serve Returns Some x obtain res b1 where run: "Run E (tm k) h req b = Returns (res, b1)"
        by (auto split: run.splits)
      with serve Returns Some x obtain bs where bs: "handleResponse h res = Returns bs" by (auto split: run.splits)
      with serve Returns Some x run obtain out' where "serve E tm (Suc k) rest b1 = Returns (out', b')" "out = bs @ out'"
        by (auto simp: run_bind_eq_Returns)
      with again Returns Some x run bs show thesis by blast
    qed
  qed (use serve in simp_all)
qed

lemma serve_is_a_run:
  assumes "serve E tm k conn b = Returns (out, b')" and "idle_at i s" and "sv_handler s = b" and "nc_rest (sv_conns s ! i) = conn"
  shows "\<exists>es s'. server_run E s es s' \<and> nc_out (sv_conns s' ! i) = nc_out (sv_conns s ! i) @ out \<and> sv_handler s' = b' \<and>
    \<not> nc_reading (sv_conns s' ! i)"
  using assms
proof (induction E tm k conn b arbitrary: s out b' rule: serve.induct)
  case (1 E tm k conn b)
  let ?c = "sv_conns s ! i"
  have i: "i < length (sv_conns s)" "\<not> sv_crashed s" "nc_reading ?c" "nc_waiting ?c = None"
    using 1(3) by (simp_all add: idle_at_def)
  from 1(2) show ?case
  proof (cases rule: serve_cases)
    case over
    let ?s = "set_conn i (?c\<lparr>nc_reading := False, nc_writable := False\<rparr>) s"
    have "read_request (nc_rest ?c) = Returns None" using over(1) 1(5) by simp
    from server_run_step [OF ended [OF i(2,1) refl i(3,4) this, of E]] over(2,3) i(1) 1(4)
    show ?thesis by (intro exI [of _ "[Silent]"] exI [of _ ?s]) simp
  next
    case (again h req rest res b1 bs out')
    let ?s = "(set_conn i (?c\<lparr>nc_rest := rest, nc_out := nc_out ?c @ bs\<rparr>) s)\<lparr>sv_handler := b1\<rparr>"
    have "read_request (nc_rest ?c) = Returns (Some (h, req, rest))" "Run E (tm k) h req (sv_handler s) = Returns (res, b1)"
      using again(1,2) 1(4,5) by simp_all
    from serve_one [OF 1(3) refl this again(3)] obtain es where es: "server_run E s es ?s" by blast
    have "idle_at i ?s" "sv_handler ?s = b1" "nc_rest (sv_conns ?s ! i) = rest"
      using 1(3) by (simp_all add: idle_at_def)
    from 1(1) [OF again(1) refl refl refl again(2) refl again(3,4) this] obtain es' s' where s': "server_run E ?s es' s'"
        "nc_out (sv_conns s' ! i) = nc_out (sv_conns ?s ! i) @ out'" "sv_handler s' = b'" "\<not> nc_reading (sv_conns s' ! i)"
      by blast
    with server_run_trans [OF es s'(1)] again(5) i(1) show ?thesis
      by (intro exI [of _ "es @ es'"] exI [of _ s']) simp
  qed
qed

end
