(* ===== verification/Command.thy ===== *)
theory Command
  imports Dialer Server_Queues Client_Correct
begin

text \<open>
  The command line (\<^verbatim>\<open>cmd/jocko/main.go\<close>) and the configuration it starts from (\<^verbatim>\<open>jocko/config/config.go\<close>): starting and ending a
  broker, and creating a topic.  What a command prints to the error stream ends it with status 1.
\<close>

section \<open>Configuration\<close>

text \<open>The host name of the system and the bind address of serf's own default configuration are arguments.\<close>

definition DefaultConfig :: "(string, string) outcome \<Rightarrow> string \<Rightarrow> Config run" where
  "DefaultConfig hostname bind =
     (case hostname of
        Ok name \<Rightarrow> Returns \<lparr>cf_ID = 0, cf_NodeName = name, cf_DataDir = [], cf_DevMode = False, cf_Addr = [], cf_Bootstrap = False,
          cf_BootstrapExpect = 0, cf_StartAsLeader = False, cf_NonVoter = False, cf_RaftAddr = [],
          cf_SerfLANAddr = bind @ '':'' @ fmt_d 8301, cf_OffsetsTopicReplicationFactor = 3\<rparr>
      | _ \<Rightarrow> Panics)"

text \<open>
  What \<^verbatim>\<open>strconv.Atoi\<close> returns: with an error 0, or the nearest number there is.  Of the error only the function is told.
\<close>

definition Atoi_result :: "string \<Rightarrow> int \<times> string option" where
  "Atoi_result s =
     (case Atoi s of
        Some n \<Rightarrow> (n, None)
      | None \<Rightarrow>
          let (neg, ds) = (case s of CHR ''-'' # ds \<Rightarrow> (True, ds) | CHR ''+'' # ds \<Rightarrow> (False, ds) | _ \<Rightarrow> (False, s)) in
          (if ds = [] \<or> read_digits 0 ds = None then 0 else if neg then - (2 ^ 63) else 2 ^ 63 - 1, Some ''strconv.Atoi''))"

text \<open>The flag for the address of serf writes into the two fields of the library's configuration, the host before it looks at the port.\<close>

record memberlistConfigValue =
  ml_BindAddr :: string
  ml_BindPort :: int

definition memberlistConfigValue_Set :: "string \<Rightarrow> memberlistConfigValue \<Rightarrow> string option \<times> memberlistConfigValue" where
  "memberlistConfigValue_Set s v =
     (case SplitHostPort s of
        Ok (bindIP, bindPort) \<Rightarrow> (case Atoi_result bindPort of (n, err) \<Rightarrow> (err, v\<lparr>ml_BindAddr := bindIP, ml_BindPort := n\<rparr>))
      | Err e \<Rightarrow> (Some e, v)
      | Panic \<Rightarrow> (Some [], v))"

definition memberlistConfigValue_String :: "memberlistConfigValue \<Rightarrow> string" where
  "memberlistConfigValue_String v = ml_BindAddr v @ '':'' @ fmt_d (ml_BindPort v)"

text \<open>The error of the default value is dropped.\<close>

definition newMemberlistConfigValue :: "memberlistConfigValue \<Rightarrow> string \<Rightarrow> memberlistConfigValue" where
  "newMemberlistConfigValue p val = snd (memberlistConfigValue_Set val p)"

text \<open>Defining a flag stores its default.\<close>

definition broker_flags :: "memberlistConfigValue \<Rightarrow> Config \<Rightarrow> Config" where
  "broker_flags ml c = c\<lparr>cf_RaftAddr := ''127.0.0.1:9093'', cf_DataDir := ''/tmp/jocko'', cf_Addr := ''0.0.0.0:9092'',
     cf_SerfLANAddr := memberlistConfigValue_String (newMemberlistConfigValue ml ''0.0.0.0:9094''),
     cf_Bootstrap := False, cf_BootstrapExpect := 0, cf_ID := 0\<rparr>"

section \<open>The broker command\<close>

text \<open>\<open>tracer\<close> is the error of making the tracer.\<close>

definition run_broker :: "('db, 'r) env \<Rightarrow> 'r raft_lib \<Rightarrow> (string, serf_Member list) outcome \<Rightarrow> string option \<Rightarrow> (string \<Rightarrow> string option) \<Rightarrow>
    Config \<Rightarrow> (string, ('db, 'r) Server) outcome" where
  "run_broker E L pool tracer listen config =
     (if tracer \<noteq> None then Panic
      else case NewBroker E L pool config of
        Panic \<Rightarrow> Panic
      | Err e \<Rightarrow> Err (''error starting broker: '' @ e)
      | Ok broker \<Rightarrow>
          (case Start listen (NewServer broker) of
             (Some e, _) \<Rightarrow> Err (''error starting server: '' @ e)
           | (None, srv) \<Rightarrow> Ok srv))"

text \<open>After the signal: \<^verbatim>\<open>Shutdown\<close> of the broker, which gives no error, then that of the server, which calls the broker's again.\<close>

definition stop_broker :: "string option \<Rightarrow> ('db, 'r) Server \<Rightarrow> ('db, 'r) Server" where
  "stop_broker closing srv =
     snd (Server_Shutdown closing (srv\<lparr>sv_vars := None, sv_handler := Shutdown (end_loop (sv_vars srv) (sv_handler srv))\<rparr>))"

section \<open>The command that creates a topic\<close>

record topicCfg =
  tc_BrokerAddr :: string
  tc_Topic :: string
  tc_Partitions :: int32
  tc_ReplicationFactor :: int64

text \<open>The timeout is not set.  The replication factor is cut to 16 bits.\<close>

definition topic_request :: "topicCfg \<Rightarrow> CreateTopicRequests" where
  "topic_request cfg = \<lparr>ctrs_APIVersion = 0,
     ctrs_Requests = [\<lparr>ctr_Topic = tc_Topic cfg, ctr_NumPartitions = tc_Partitions cfg,
       ctr_ReplicationFactor = ucast (tc_ReplicationFactor cfg), ctr_ReplicaAssignment = [], ctr_Configs = []\<rparr>],
     ctrs_Timeout = 0, ctrs_ValidateOnly = False\<rparr>"

text \<open>The first code that is an error is printed; a code that is not in the table prints as an empty message.\<close>

definition report_codes :: "string \<Rightarrow> TopicErrorCode list \<Rightarrow> (string, string) outcome" where
  "report_codes topic codes =
     (case find (\<lambda>c. tec_ErrorCode c \<noteq> Error_Code ErrNone) codes of
        Some c \<Rightarrow> Err (''error code: '' @ (case Errs (tec_ErrorCode c) of Some e \<Rightarrow> Error_Error e | None \<Rightarrow> []))
      | None \<Rightarrow> Ok (''created topic: '' @ topic))"

definition cmd_createTopic :: "(string \<Rightarrow> (string, peer \<times> Conn) outcome) \<Rightarrow> topicCfg \<Rightarrow> (string, string) outcome run" where
  "cmd_createTopic dial cfg =
     (case dial (tc_BrokerAddr cfg) of
        Panic \<Rightarrow> Panics
      | Err e \<Rightarrow> Returns (Err (''error connecting to broker: '' @ e))
      | Ok (peer, conn) \<Rightarrow>
          (case Conn_CreateTopics peer (topic_request cfg) conn of
             Panics \<Rightarrow> Panics
           | Hangs \<Rightarrow> Hangs
           | Returns (Panic, _) \<Rightarrow> Panics
           | Returns (Err e, _) \<Rightarrow> Returns (Err (''error with request to broker: '' @ e))
           | Returns (Ok resp, _) \<Rightarrow> Returns (report_codes (tc_Topic cfg) (ctres_TopicErrorCodes resp))))"

section \<open>Lemmas\<close>

lemma index_byte_first: "c \<notin> set xs \<Longrightarrow> index_byte (xs @ c # ys) c = Some (length xs)"
  by (induction xs) auto

lemma read_digits_set: "read_digits n s = Some m \<Longrightarrow> c \<in> set s \<Longrightarrow> digit_of c \<noteq> None"
  by (induction n s rule: read_digits.induct) (auto split: option.splits)

lemma digits_set: "c \<in> set (digits n) \<Longrightarrow> digit_of c \<noteq> None"
  by (rule read_digits_set [OF read_digits_digits])

text \<open>An address that is printed is read back.\<close>

lemma memberlistConfigValue_Set_String:
  assumes "set (ml_BindAddr v) \<inter> {CHR '':'', CHR ''['', CHR '']''} = {}" and "0 \<le> ml_BindPort v" and "ml_BindPort v < 2 ^ 63"
  shows "memberlistConfigValue_Set (memberlistConfigValue_String v) w = (None, v)"
proof -
  let ?p = "digits (nat (ml_BindPort v))" and ?a = "ml_BindAddr v"
  have p: "fmt_d (ml_BindPort v) = ?p" using assms(2) by (simp add: fmt_d_def)
  have no: "CHR '':'' \<notin> set ?p" "CHR ''['' \<notin> set ?p" "CHR '']'' \<notin> set ?p"
    using digits_set [of "CHR '':''" "nat (ml_BindPort v)"] digits_set [of "CHR ''[''" "nat (ml_BindPort v)"]
      digits_set [of "CHR '']''" "nat (ml_BindPort v)"]
    by (auto simp: digit_of_def)
  have "last_index_byte (?a @ '':'' @ ?p) CHR '':'' = Some (length ?a)"
    using no(1) index_byte_first [of "CHR '':''" "rev ?p" "rev ?a"] by (simp add: last_index_byte_def)
  moreover have "take 1 (?a @ '':'' @ ?p) \<noteq> ''[''" using assms(1) by (cases ?a) auto
  ultimately have "SplitHostPort (?a @ '':'' @ ?p) = Ok (?a, ?p)"
    using assms(1) no by (auto simp: SplitHostPort_def Let_def)
  moreover have "Atoi_result ?p = (ml_BindPort v, None)"
    using Atoi_fmt_d [of "ml_BindPort v"] assms(2,3) p by (simp add: Atoi_result_def)
  ultimately show ?thesis
    by (simp add: memberlistConfigValue_Set_def memberlistConfigValue_String_def p)
qed

text \<open>The process serves as long as its broker starts and its address can be listened on; the server is then one with no connections.\<close>

lemma run_broker_Ok:
  assumes "run_broker E L pool tracer listen config = Ok srv"
  obtains b where "NewBroker E L pool config = Ok b" and "srv = (NewServer b)\<lparr>sv_listening := True\<rparr>"
  using assms by (auto simp: run_broker_def Start_def split: if_splits outcome.splits option.splits)

text \<open>Ending it stops the broker and closes the listener; it stays one the theorems on runs speak about.\<close>

lemma stop_broker_stops:
  assumes "sv_listening srv" and "\<not> sv_shutdown srv"
  shows "sv_shutdown (stop_broker None srv)" and "\<not> sv_listening (stop_broker None srv)" and "bk_shutdown (sv_handler (stop_broker None srv))"
  using assms by (simp_all add: stop_broker_def Server_Shutdown_def Shutdown_def)

text \<open>With no timeout the answer is no error, whatever becomes of the work.\<close>

lemma withTimeout_none:
  assumes "run_work E fn b \<noteq> Panics"
  shows "\<exists>pch b'. withTimeout E tm 0 fn others b = Returns ((ErrNone, pch), b')"
  using assms by (auto simp: withTimeout_def split: timing.splits run.splits)

text \<open>What the broker answers to the request of the command.\<close>

definition topic_answer :: "('db, 'r) env \<Rightarrow> topicCfg \<Rightarrow> ('db, 'r) broker \<Rightarrow> Error" where
  "topic_answer E cfg b =
     (if \<not> isController E b then ErrNotController
      else if sint (word_of_nat (length (LANMembers b)) :: int16) < sint (ucast (tc_ReplicationFactor cfg) :: int16)
      then ErrInvalidReplicationFactor
      else ErrNone)"

lemma topic_request_handled:
  assumes "createTopic E (hd (ctrs_Requests (topic_request cfg))) b \<noteq> Panics"
  shows "\<exists>b'. handleCreateTopic E tm (topic_request cfg) b =
    Returns (\<lparr>ctres_APIVersion = 0, ctres_ThrottleTime = 0, ctres_TopicErrorCodes = [topic_error (tc_Topic cfg) (topic_answer E cfg b)]\<rparr>, b')"
proof -
  let ?r = "hd (ctrs_Requests (topic_request cfg))"
  have "run_work E (CreateTopicWork ?r) b \<noteq> Panics"
    using assms by (cases "createTopic E ?r b") auto
  then obtain pch b' where "withTimeout E (tm 0) 0 (CreateTopicWork ?r) (\<lambda>i j. CreateTopicWork ?r) b = Returns ((ErrNone, pch), b')"
    using withTimeout_none by blast
  then show ?thesis
    by (auto simp: handleCreateTopic_def topic_request_def topic_answer_def Let_def)
qed

lemma cmd_createTopic_prints:
  assumes "dial (tc_BrokerAddr cfg) = Ok (answers E tm b, NewConn ''jocko'')" and "length (tc_Topic cfg) \<le> 4000"
    and "createTopic E (hd (ctrs_Requests (topic_request cfg))) b \<noteq> Panics"
  shows "cmd_createTopic dial cfg = Returns (report_codes (tc_Topic cfg) [topic_error (tc_Topic cfg) (topic_answer E cfg b)])"
proof -
  let ?q = "topic_request cfg"
  let ?x = "\<lparr>ctres_APIVersion = 0, ctres_ThrottleTime = 0, ctres_TopicErrorCodes = [topic_error (tc_Topic cfg) (topic_answer E cfg b)]\<rparr>"
  obtain b' where handled: "handleCreateTopic E (\<lambda>i. tm 0 i 0) ?q b = Returns (?x, b')"
    using topic_request_handled [OF assms(3)] by blast
  have keep: "?q\<lparr>ctrs_APIVersion := 0\<rparr> = ?q" by (simp add: topic_request_def)
  have valid: "CreateTopicRequests_valid 0 ?q"
    using assms(2) by (simp add: CreateTopicRequests_valid_def CreateTopicRequest_valid_def topic_request_def
        whole_millis_def duration_of_millis_def millis_of_duration_def)
  have sizes: "sum_list (map put_size (CreateTopicRequests_Encode ?q)) < 2 ^ 30"
    "sum_list (map put_size (CreateTopicsResponse_Encode ?x)) \<le> 4096"
    using assms(2) by (simp_all add: CreateTopicRequests_Encode_def CreateTopicRequest_Encode_def topic_request_def
        CreateTopicsResponse_Encode_def TopicErrorCode_Encode_def topic_error_def string_field_def)
  have returned: "CreateTopicsResponse_valid 0 ?x"
    using assms(2) by (simp add: CreateTopicsResponse_valid_def TopicErrorCode_valid_def topic_error_def)
  have idle: "cn_open (NewConn ''jocko'')" "cn_in (NewConn ''jocko'') = []" "length (cn_clientID (NewConn ''jocko'')) \<le> MaxInt16"
    by (simp_all add: NewConn_def)
  have v: "ctrs_APIVersion ?q = 0" by (simp add: topic_request_def)
  have "sum_list (map put_size (CreateTopicsResponse_Encode ?x)) < 2 ^ 30" using sizes(2) by simp
  from create_topics_call.call [where tm = tm, OF idle create_topics_request.codec_upto_law [OF valid, unfolded keep] sizes(1) handled
      create_topics_response.codec_law [OF returned] this]
  have "\<exists>c. Conn_CreateTopics (answers E tm b) ?q (NewConn ''jocko'') = Returns (Ok ?x, c)"
    using sizes(2) unfolding Conn_CreateTopics_def v by simp
  with assms(1) show ?thesis by (auto simp: cmd_createTopic_def)
qed

end
